(* ===== verification/Predix_Prelude.thy ===== *)
theory Predix_Prelude
  imports Main "HOL-Library.Word" "HOL-Library.Multiset"
begin

text \<open>
  Shared ground of the development: the collections of simplification rules the component
  theories extend, Go's signed 64-bit arithmetic on \<^typ>\<open>int\<close>, sums over the values of a
  finite map (totals of a ledger), and the facts on lists that the order book needs.
\<close>

named_theorems predix_const \<open>the string constants of the program\<close>
named_theorems ledger_simps \<open>field equations of the ledger operations\<close>
named_theorems frame_simps \<open>fields an operation leaves alone\<close>

section \<open>Go's int64\<close>

text \<open>
  A Go \<open>int64\<close> is an \<^typ>\<open>int\<close> in the range \<open>in_i64\<close>. Every sum, difference and product of
  the program is wrapped into the range by \<open>i64\<close>, as two's complement arithmetic does.
\<close>

definition in_i64 :: "int \<Rightarrow> bool" where
  "in_i64 x \<longleftrightarrow> - (2 ^ 63) \<le> x \<and> x < 2 ^ 63"

definition i64 :: "int \<Rightarrow> int" where
  "i64 x = (x + 2 ^ 63) mod 2 ^ 64 - 2 ^ 63"

abbreviation max_i64 :: int where
  "max_i64 \<equiv> 9223372036854775807"

lemma i64_id: "in_i64 x \<Longrightarrow> i64 x = x"
  by (simp add: in_i64_def i64_def)

lemma i64_nonneg_id [simp]: "0 \<le> x \<Longrightarrow> x \<le> max_i64 \<Longrightarrow> i64 x = x"
  by (simp add: i64_def)

lemma i64_range: "in_i64 (i64 x)"
proof -
  have "0 \<le> (x + 2 ^ 63) mod 2 ^ 64" and "(x + 2 ^ 63) mod 2 ^ 64 < 2 ^ 64"
    by simp_all
  then show ?thesis by (simp add: in_i64_def i64_def)
qed

lemma i64_le: "- (2 ^ 63) \<le> x \<Longrightarrow> i64 x \<le> x"
proof -
  assume "- (2 ^ 63) \<le> x"
  then have "0 \<le> x + 2 ^ 63" by simp
  then have "(x + 2 ^ 63) mod 2 ^ 64 \<le> x + 2 ^ 63"
    by (intro zmod_le_nonneg_dividend)
  then show ?thesis by (simp add: i64_def)
qed

section \<open>Finite maps as ledgers\<close>

text \<open>The total of a quantity over the values of a map.\<close>

definition sum_map :: "('v \<Rightarrow> int) \<Rightarrow> ('k \<rightharpoonup> 'v) \<Rightarrow> int" where
  "sum_map f m = (\<Sum>k\<in>dom m. f (the (m k)))"

definition val_or :: "('v \<Rightarrow> int) \<Rightarrow> 'v option \<Rightarrow> int" where
  "val_or f v = (case v of None \<Rightarrow> 0 | Some x \<Rightarrow> f x)"

lemma val_or_simps [simp]: "val_or f None = 0" "val_or f (Some x) = f x"
  by (simp_all add: val_or_def)

lemma sum_map_empty [simp]: "sum_map f Map.empty = 0"
  by (simp add: sum_map_def)

lemma sum_map_upd:
  assumes "finite (dom m)"
  shows "sum_map f (m(k \<mapsto> v)) = sum_map f m - val_or f (m k) + f v"
proof (cases "m k")
  case None
  then have "k \<notin> dom m" by (simp add: domIff)
  then have "(\<Sum>i\<in>dom m. f (the ((m(k \<mapsto> v)) i))) = (\<Sum>i\<in>dom m. f (the (m i)))"
    by (intro sum.cong) auto
  with None assms \<open>k \<notin> dom m\<close> show ?thesis by (simp add: sum_map_def)
next
  case (Some w)
  then have k: "k \<in> dom m" by auto
  have "(\<Sum>i\<in>dom m - {k}. f (the ((m(k \<mapsto> v)) i))) = (\<Sum>i\<in>dom m - {k}. f (the (m i)))"
    by (intro sum.cong) auto
  moreover have "insert k (dom m) = dom m" using k by auto
  ultimately show ?thesis
    using assms k Some by (simp add: sum_map_def sum.remove [of "dom m" k])
qed

lemma sum_map_del:
  assumes "finite (dom m)"
  shows "sum_map f (m(k := None)) = sum_map f m - val_or f (m k)"
proof (cases "m k")
  case None
  then have "m(k := None) = m" by auto
  with None show ?thesis by simp
next
  case (Some w)
  then have k: "k \<in> dom m" by auto
  have "(\<Sum>i\<in>dom m - {k}. f (the ((m(k := None)) i))) = (\<Sum>i\<in>dom m - {k}. f (the (m i)))"
    by (intro sum.cong) auto
  then show ?thesis
    using assms k Some by (simp add: sum_map_def sum.remove [of "dom m" k])
qed

lemma sum_map_nonneg:
  "(\<And>k v. m k = Some v \<Longrightarrow> 0 \<le> f v) \<Longrightarrow> 0 \<le> sum_map f m"
  unfolding sum_map_def by (rule sum_nonneg) auto

lemma sum_map_ge:
  assumes "finite (dom m)" and "m k = Some v" and "\<And>k v. m k = Some v \<Longrightarrow> 0 \<le> f v"
  shows "f v \<le> sum_map f m"
proof -
  have "f (the (m k)) \<le> (\<Sum>i\<in>dom m. f (the (m i)))"
    using assms by (intro member_le_sum) auto
  with assms(2) show ?thesis by (simp add: sum_map_def)
qed

end
