(* ===== verification/Predix_Types.thy ===== *)
theory Predix_Types
  imports Predix_Prelude
begin

text \<open>
  The engine's data (\<^verbatim>\<open>internal/engine/types.go\<close>): the string constants, the ledger
  entries, orders, trades, order books and markets, the depth report, and the request
  validation \<open>validateOrder\<close> of \<^verbatim>\<open>engine.go\<close>.

  The Go structs are records with the fields of the source, prefixed where two structs share a
  field name. A \<^verbatim>\<open>time.Time\<close> is an \<^typ>\<open>int\<close>, nanoseconds since 1970 in UTC. A pointer
  \<^verbatim>\<open>*Order\<close> is the order's \<open>ID\<close>: the engine reaches every order object through its map
  \<^verbatim>\<open>orders\<close>, keyed by that ID, so the map is the store in which the pointers of the books
  are looked up (\<open>deref\<close>), and an update of the store is seen through every pointer.
\<close>

section \<open>Constants\<close>

definition SideBuy :: string where [predix_const]: "SideBuy = ''BUY''"
definition SideSell :: string where [predix_const]: "SideSell = ''SELL''"
definition OutcomeYes :: string where [predix_const]: "OutcomeYes = ''YES''"
definition OutcomeNo :: string where [predix_const]: "OutcomeNo = ''NO''"
definition OrderTypeLimit :: string where [predix_const]: "OrderTypeLimit = ''LIMIT''"
definition OrderTypeMarket :: string where [predix_const]: "OrderTypeMarket = ''MARKET''"
definition StatusPending :: string where [predix_const]: "StatusPending = ''PENDING''"
definition StatusPartial :: string where [predix_const]: "StatusPartial = ''PARTIAL''"
definition StatusFilled :: string where [predix_const]: "StatusFilled = ''FILLED''"
definition StatusCanceled :: string where [predix_const]: "StatusCanceled = ''CANCELED''"
definition StatusRejected :: string where [predix_const]: "StatusRejected = ''REJECTED''"

definition PriceScale :: int where
  "PriceScale = 10000"

definition DefaultStartingBalance :: int where
  "DefaultStartingBalance = 100 * PriceScale"

section \<open>Records\<close>

record Balance =
  Bal_Available :: int
  Bal_Reserved :: int

record Position =
  Pos_Available :: int
  Pos_Reserved :: int

record Order =
  Ord_ID :: string
  Ord_EventID :: string
  Ord_UserID :: string
  Ord_OrderType :: string
  Ord_Outcome :: string
  Ord_Side :: string
  Ord_Quantity :: int
  Ord_FilledQuantity :: int
  Ord_RemainingQuantity :: int
  Ord_Price :: int
  Ord_Status :: string
  Ord_LockedFunds :: int
  Ord_CreatedAt :: int

record Trade =
  Trd_ID :: string
  Trd_OrderID :: string
  Trd_MatchOrderID :: string
  Trd_EventID :: string
  Trd_Outcome :: string
  Trd_BuyerID :: string
  Trd_SellerID :: string
  Trd_TakerSide :: string
  Trd_Quantity :: int
  Trd_Price :: int
  Trd_CreatedAt :: int

text \<open>The slices \<^verbatim>\<open>[]*Order\<close> of a book are lists of order IDs.\<close>

record OrderBook =
  Bids :: "string list"
  Asks :: "string list"

record Market =
  YES :: OrderBook
  NO :: OrderBook

record OrderBookEntry =
  Ent_Price :: int
  Ent_Quantity :: int
  Ent_Total :: int
  Ent_OrderCount :: int

record DepthSide =
  Dep_Bids :: "OrderBookEntry list"
  Dep_Asks :: "OrderBookEntry list"

record Depth =
  Dep_EventID :: string
  Dep_Yes :: DepthSide
  Dep_No :: DepthSide

section \<open>Zero values, markets and books\<close>

definition zeroBalance :: Balance where
  "zeroBalance = \<lparr>Bal_Available = 0, Bal_Reserved = 0\<rparr>"

definition zeroPosition :: Position where
  "zeroPosition = \<lparr>Pos_Available = 0, Pos_Reserved = 0\<rparr>"

definition zeroOrder :: Order where
  "zeroOrder = \<lparr>Ord_ID = [], Ord_EventID = [], Ord_UserID = [], Ord_OrderType = [],
     Ord_Outcome = [], Ord_Side = [], Ord_Quantity = 0, Ord_FilledQuantity = 0,
     Ord_RemainingQuantity = 0, Ord_Price = 0, Ord_Status = [], Ord_LockedFunds = 0,
     Ord_CreatedAt = 0\<rparr>"

definition NewMarket :: Market where
  "NewMarket = \<lparr>YES = \<lparr>Bids = [], Asks = []\<rparr>, NO = \<lparr>Bids = [], Asks = []\<rparr>\<rparr>"

text \<open>\<^verbatim>\<open>Market.Book\<close>: the book of an outcome, \<open>None\<close> for Go's \<^verbatim>\<open>nil\<close>.\<close>

definition Book :: "Market \<Rightarrow> string \<Rightarrow> OrderBook option" where
  "Book m outcome =
     (if outcome = OutcomeYes then Some (YES m)
      else if outcome = OutcomeNo then Some (NO m)
      else None)"

text \<open>Writing through the pointer that \<^verbatim>\<open>Market.Book\<close> returned.\<close>

definition setBook :: "Market \<Rightarrow> string \<Rightarrow> OrderBook \<Rightarrow> Market" where
  "setBook m outcome b =
     (if outcome = OutcomeYes then m\<lparr>YES := b\<rparr>
      else if outcome = OutcomeNo then m\<lparr>NO := b\<rparr>
      else m)"

section \<open>The order store\<close>

type_synonym store = "string \<rightharpoonup> Order"

definition deref :: "store \<Rightarrow> string \<Rightarrow> Order" where
  "deref st i = (case st i of None \<Rightarrow> zeroOrder | Some o' \<Rightarrow> o')"

definition modify :: "string \<Rightarrow> (Order \<Rightarrow> Order) \<Rightarrow> store \<Rightarrow> store" where
  "modify i f st = (case st i of None \<Rightarrow> st | Some o' \<Rightarrow> st(i \<mapsto> f o'))"

section \<open>validateOrder\<close>

text \<open>\<open>None\<close> is Go's \<^verbatim>\<open>nil\<close> error; \<open>Some msg\<close> an error with that text.\<close>

definition validateOrder :: "Order \<Rightarrow> string option" where
  "validateOrder ord =
     (if Ord_EventID ord = [] then Some ''eventId is required''
      else if Ord_UserID ord = [] then Some ''userId is required''
      else if Ord_Quantity ord \<le> 0 then Some ''quantity must be greater than zero''
      else if \<not> (Ord_Side ord = SideBuy \<or> Ord_Side ord = SideSell) then Some ''invalid side''
      else if \<not> (Ord_Outcome ord = OutcomeYes \<or> Ord_Outcome ord = OutcomeNo)
        then Some ''invalid outcome''
      else if Ord_OrderType ord = OrderTypeLimit then
        (if Ord_Price ord \<le> 0 then Some ''limit order price must be greater than zero''
         else None)
      else if Ord_OrderType ord = OrderTypeMarket then None
      else Some ''invalid order type'')"

section \<open>Lemmas\<close>

lemma const_distinct [simp]:
  "SideBuy \<noteq> SideSell" "SideSell \<noteq> SideBuy"
  "OutcomeYes \<noteq> OutcomeNo" "OutcomeNo \<noteq> OutcomeYes"
  "OrderTypeLimit \<noteq> OrderTypeMarket" "OrderTypeMarket \<noteq> OrderTypeLimit"
  by (simp_all add: predix_const)

lemma status_distinct [simp]:
  "StatusPending \<noteq> StatusPartial" "StatusPending \<noteq> StatusFilled"
  "StatusPending \<noteq> StatusCanceled" "StatusPending \<noteq> StatusRejected"
  "StatusPartial \<noteq> StatusPending" "StatusPartial \<noteq> StatusFilled"
  "StatusPartial \<noteq> StatusCanceled" "StatusPartial \<noteq> StatusRejected"
  "StatusFilled \<noteq> StatusPending" "StatusFilled \<noteq> StatusPartial"
  "StatusFilled \<noteq> StatusCanceled" "StatusFilled \<noteq> StatusRejected"
  "StatusCanceled \<noteq> StatusPending" "StatusCanceled \<noteq> StatusPartial"
  "StatusCanceled \<noteq> StatusFilled" "StatusCanceled \<noteq> StatusRejected"
  "StatusRejected \<noteq> StatusPending" "StatusRejected \<noteq> StatusPartial"
  "StatusRejected \<noteq> StatusFilled" "StatusRejected \<noteq> StatusCanceled"
  by (simp_all add: predix_const)

lemma deref_Some [simp]: "st i = Some ord \<Longrightarrow> deref st i = ord"
  by (simp add: deref_def)

lemma deref_upd [simp]: "deref (st(i \<mapsto> ord)) j = (if j = i then ord else deref st j)"
  by (simp add: deref_def)

lemma modify_Some: "st i = Some ord \<Longrightarrow> modify i f st = st(i \<mapsto> f ord)"
  by (simp add: modify_def)

lemma modify_other [simp]: "j \<noteq> i \<Longrightarrow> modify i f st j = st j"
  by (simp add: modify_def split: option.split)

lemma deref_modify_other [simp]: "j \<noteq> i \<Longrightarrow> deref (modify i f st) j = deref st j"
  by (simp add: deref_def)

lemma deref_modify_same: "st i \<noteq> None \<Longrightarrow> deref (modify i f st) i = f (deref st i)"
  by (auto simp: modify_def)

lemma dom_modify [simp]: "dom (modify i f st) = dom st"
  by (auto simp: modify_def split: option.splits if_splits)

lemma modify_None_iff [simp]: "modify i f st j = None \<longleftrightarrow> st j = None"
  by (auto simp: modify_def split: option.splits)

lemma Book_setBook:
  "Book m oc = Some b \<Longrightarrow> Book (setBook m oc b') oc' = (if oc' = oc then Some b' else Book m oc')"
  by (auto simp: Book_def setBook_def split: if_splits)

lemma Book_Some_iff: "(\<exists>b. Book m oc = Some b) \<longleftrightarrow> oc = OutcomeYes \<or> oc = OutcomeNo"
  by (auto simp: Book_def)

lemma Book_NewMarket: "Book NewMarket oc = Some b \<Longrightarrow> b = \<lparr>Bids = [], Asks = []\<rparr>"
  by (auto simp: Book_def NewMarket_def split: if_splits)

lemma validateOrder_None_iff:
  "validateOrder ord = None \<longleftrightarrow>
     Ord_EventID ord \<noteq> [] \<and> Ord_UserID ord \<noteq> [] \<and> 0 < Ord_Quantity ord \<and>
     (Ord_Side ord = SideBuy \<or> Ord_Side ord = SideSell) \<and>
     (Ord_Outcome ord = OutcomeYes \<or> Ord_Outcome ord = OutcomeNo) \<and>
     (Ord_OrderType ord = OrderTypeLimit \<and> 0 < Ord_Price ord \<or>
      Ord_OrderType ord = OrderTypeMarket)"
  by (auto simp: validateOrder_def)

end
