(* ===== verification/Partition_Router.thy ===== *)
theory Partition_Router
  imports Predix_Prelude
begin

text \<open>
  Partition routing (\<^verbatim>\<open>internal/partition/router.go\<close>): the FNV-1a hash of an event ID, the
  partition it selects, and the names of the streams, consumer groups, counters and keys of a
  partition. \<^verbatim>\<open>uint64\<close> is \<^typ>\<open>64 word\<close>; a Go string is the list of its bytes, so a
  \<^typ>\<open>char\<close> is a byte.
\<close>

unbundle bit_operations_syntax

section \<open>Decimal numerals, as \<open>%d\<close> prints them\<close>

fun nat_digits :: "nat \<Rightarrow> string" where
  "nat_digits n =
     (if n < 10 then [char_of (48 + n)]
      else nat_digits (n div 10) @ [char_of (48 + n mod 10)])"

definition fmt_d :: "int \<Rightarrow> string" where
  "fmt_d n = (if n < 0 then CHR ''-'' # nat_digits (nat (- n)) else nat_digits (nat n))"

section \<open>FNV-1a\<close>

definition fnv_offset64 :: "64 word" where
  "fnv_offset64 = 14695981039346656037"

definition fnv_prime64 :: "64 word" where
  "fnv_prime64 = 1099511628211"

definition fnv1a_step :: "64 word \<Rightarrow> char \<Rightarrow> 64 word" where
  "fnv1a_step h b = (h XOR of_char b) * fnv_prime64"

definition hash64 :: "string \<Rightarrow> 64 word" where
  "hash64 s = foldl fnv1a_step fnv_offset64 s"

section \<open>The router\<close>

record Router =
  Partitions :: int
  StreamPrefix :: string

definition NewRouter :: "int \<Rightarrow> string \<Rightarrow> Router" where
  "NewRouter partitions streamPrefix =
     \<lparr>Partitions = (if partitions < 1 then 1 else partitions),
      StreamPrefix = (if streamPrefix = [] then ''commands'' else streamPrefix)\<rparr>"

definition Partition :: "Router \<Rightarrow> string \<Rightarrow> int" where
  "Partition r eventID = i64 (uint (hash64 eventID mod word_of_int (Partitions r)))"

definition Stream :: "Router \<Rightarrow> int \<Rightarrow> string" where
  "Stream r p = StreamPrefix r @ '':partition:'' @ fmt_d p"

definition StreamForEvent :: "Router \<Rightarrow> string \<Rightarrow> string" where
  "StreamForEvent r eventID = Stream r (Partition r eventID)"

definition Group :: "Router \<Rightarrow> int \<Rightarrow> string" where
  "Group r p = ''engines:p:'' @ fmt_d p"

definition SequenceKey :: "Router \<Rightarrow> int \<Rightarrow> string" where
  "SequenceKey r p = StreamPrefix r @ '':'' @ fmt_d p @ '':sequence''"

definition FencingKey :: "int \<Rightarrow> string" where
  "FencingKey p = ''engine:fencing:'' @ fmt_d p"

definition LeaseKey :: "int \<Rightarrow> string" where
  "LeaseKey p = ''engine:lease:'' @ fmt_d p"

text \<open>The loop \<^verbatim>\<open>for p := 0; p < r.Partitions; p++\<close> with its accumulator.\<close>

function PartitionStreams_from :: "Router \<Rightarrow> int \<Rightarrow> string list \<Rightarrow> string list" where
  "PartitionStreams_from r p streams =
     (if p < Partitions r then PartitionStreams_from r (p + 1) (streams @ [Stream r p])
      else streams)"
  by pat_completeness auto
termination
  by (relation "measure (\<lambda>(r, p, streams). nat (Partitions r - p))") auto

definition PartitionStreams :: "Router \<Rightarrow> string list" where
  "PartitionStreams r = PartitionStreams_from r 0 []"

declare nat_digits.simps [simp del] PartitionStreams_from.simps [simp del]

section \<open>Decimal numerals are injective\<close>

lemma digit_char_eq_iff:
  "n < 10 \<Longrightarrow> m < 10 \<Longrightarrow> (char_of (48 + n) :: char) = char_of (48 + m) \<longleftrightarrow> n = (m::nat)"
proof
  assume "n < 10" "m < 10" and "(char_of (48 + n) :: char) = char_of (48 + m)"
  then have "(of_char (char_of (48 + n) :: char) :: nat) = of_char (char_of (48 + m) :: char)"
    by simp
  then have "(48 + n) mod 256 = (48 + m) mod 256"
    by (simp only: of_char_of)
  with \<open>n < 10\<close> \<open>m < 10\<close> show "n = m" by simp
qed simp

lemma nat_digits_nonempty [simp]: "nat_digits n \<noteq> []"
  by (subst nat_digits.simps) simp

lemma nat_digits_snoc:
  "\<exists>ds. nat_digits n = ds @ [char_of (48 + n mod 10)]"
  by (subst nat_digits.simps) auto

lemma nat_digits_inj: "nat_digits n = nat_digits m \<Longrightarrow> n = m"
proof (induction n arbitrary: m rule: nat_digits.induct)
  case (1 n)
  have last: "n mod 10 = m mod 10"
  proof -
    obtain ds es where "nat_digits n = ds @ [char_of (48 + n mod 10)]"
      and "nat_digits m = es @ [char_of (48 + m mod 10)]"
      using nat_digits_snoc by meson
    with "1.prems" have "(char_of (48 + n mod 10) :: char) = char_of (48 + m mod 10)" by simp
    then show ?thesis by (subst (asm) digit_char_eq_iff) simp_all
  qed
  show ?case
  proof (cases "n < 10")
    case True
    then have "length (nat_digits n) = 1" by (simp add: nat_digits.simps [of n])
    with "1.prems" have "m < 10"
      by (cases "m < 10") (simp_all add: nat_digits.simps [of m])
    with True last show ?thesis by simp
  next
    case False
    then have nd: "nat_digits n = nat_digits (n div 10) @ [char_of (48 + n mod 10)]"
      by (simp add: nat_digits.simps [of n])
    then have "length (nat_digits n) \<noteq> 1" by (cases "nat_digits (n div 10)") simp_all
    with "1.prems" have "\<not> m < 10" by (auto simp: nat_digits.simps [of m])
    then have md: "nat_digits m = nat_digits (m div 10) @ [char_of (48 + m mod 10)]"
      by (simp add: nat_digits.simps [of m])
    from nd md "1.prems" have "nat_digits (n div 10) = nat_digits (m div 10)" by simp
    with "1.IH" False have "n div 10 = m div 10" by blast
    with last show ?thesis by (metis mult_div_mod_eq)
  qed
qed

lemma nat_digits_no_minus: "CHR ''-'' \<notin> set (nat_digits n)"
proof (induction n rule: nat_digits.induct)
  case (1 n)
  have d: "(char_of (48 + k) :: char) \<noteq> CHR ''-''" if "k < 10" for k :: nat
  proof
    assume "(char_of (48 + k) :: char) = CHR ''-''"
    then have "(of_char (char_of (48 + k) :: char) :: nat) = of_char (CHR ''-'')" by simp
    then have "(48 + k) mod 256 = 45" by (simp only: of_char_of) simp
    with that show False by simp
  qed
  show ?case
    using 1 d by (subst nat_digits.simps) (auto dest: sym)
qed

lemma fmt_d_inj: "fmt_d p = fmt_d q \<longleftrightarrow> p = q"
proof
  assume eq: "fmt_d p = fmt_d q"
  have nm: "nat_digits k \<noteq> CHR ''-'' # xs" for k xs
    using nat_digits_no_minus [of k] by auto
  show "p = q"
    using eq nm nm [symmetric]
    by (auto simp: fmt_d_def split: if_splits dest!: nat_digits_inj)
qed simp

section \<open>Properties of the router\<close>

lemma Stream_inj: "Stream r p = Stream r q \<longleftrightarrow> p = q"
  by (simp add: Stream_def fmt_d_inj)

lemma LeaseKey_inj: "LeaseKey p = LeaseKey q \<longleftrightarrow> p = q"
  by (simp add: LeaseKey_def fmt_d_inj)

lemma FencingKey_inj: "FencingKey p = FencingKey q \<longleftrightarrow> p = q"
  by (simp add: FencingKey_def fmt_d_inj)

lemma NewRouter_Partitions_pos [simp]: "1 \<le> Partitions (NewRouter n pfx)"
  by (simp add: NewRouter_def)

lemma Partition_range:
  assumes "1 \<le> Partitions r" and "Partitions r \<le> max_i64"
  shows "0 \<le> Partition r ev" and "Partition r ev < Partitions r"
proof -
  let ?n = "word_of_int (Partitions r) :: 64 word"
  have n: "uint ?n = Partitions r"
    using assms by (simp add: uint_word_of_int_eq take_bit_int_eq_self)
  have m: "uint (hash64 ev mod ?n) = uint (hash64 ev) mod Partitions r"
    by (simp add: uint_mod n)
  then have bnd: "0 \<le> uint (hash64 ev mod ?n)" "uint (hash64 ev mod ?n) < Partitions r"
    using assms by simp_all
  with assms show "0 \<le> Partition r ev" and "Partition r ev < Partitions r"
    by (simp_all add: Partition_def)
qed

lemma PartitionStreams_from_eq:
  "0 \<le> p \<Longrightarrow> PartitionStreams_from r p acc = acc @ map (Stream r) [p..Partitions r - 1]"
proof (induction r p acc rule: PartitionStreams_from.induct)
  case (1 r p acc)
  show ?case
  proof (cases "p < Partitions r")
    case True
    then have "[p..Partitions r - 1] = p # [p + 1..Partitions r - 1]"
      by (simp add: upto_rec1)
    with True 1 show ?thesis by (simp add: PartitionStreams_from.simps [of r p acc])
  qed (simp add: PartitionStreams_from.simps [of r p acc])
qed

lemma PartitionStreams_eq: "PartitionStreams r = map (Stream r) [0..Partitions r - 1]"
  by (simp add: PartitionStreams_def PartitionStreams_from_eq)

end
