(* ===== verification/Predix_Json.thy ===== *)
theory Predix_Json
  imports Predix_Types Partition_Router
begin

text \<open>
  The part of \<^verbatim>\<open>encoding/json\<close> the services use. A JSON text is its syntax tree; \<open>JBad\<close>
  stands for bytes that are not one JSON value (and for a nil \<^verbatim>\<open>json.RawMessage\<close>, which
  \<^verbatim>\<open>Unmarshal\<close> rejects in the same way). An integer literal is \<open>JInt\<close>, a literal with a
  fraction or an exponent \<open>JFloat m e\<close>, the number \<open>m \<cdot> 10\<^sup>e\<close>; a string literal that is an RFC 3339 time is \<open>JTime\<close>, with
  its text and the instant, every other string \<open>JStr\<close>.

  Decoding into a struct visits the members in the order of the text, matches a member name with
  a field by ASCII case folding, ignores unknown members, leaves a field alone on \<open>null\<close> or when
  it is missing, and fails on a value of another type or an integer out of the field's range.
\<close>

datatype Json =
    JNull
  | JBool bool
  | JInt int
  | JFloat int int
  | JStr string
  | JTime string int
  | JArr "Json list"
  | JObj "(string \<times> Json) list"
  | JBad

section \<open>Times\<close>

definition pad_left :: "nat \<Rightarrow> string \<Rightarrow> string" where
  "pad_left w s = replicate (w - length s) CHR ''0'' @ s"

text \<open>Year, month and day of a day number counted from 1970-01-01 (proleptic Gregorian).\<close>

definition civil_of_days :: "int \<Rightarrow> int \<times> int \<times> int" where
  "civil_of_days d =
     (let z = d + 719468; era = z div 146097; doe = z mod 146097;
          yoe = (doe - doe div 1460 + doe div 36524 - doe div 146096) div 365;
          doy = doe - (365 * yoe + yoe div 4 - yoe div 100);
          mp = (5 * doy + 2) div 153;
          day = doy - (153 * mp + 2) div 5 + 1;
          mon = (if mp < 10 then mp + 3 else mp - 9)
      in (yoe + era * 400 + (if mon \<le> 2 then 1 else 0), mon, day))"

definition frac_digits :: "int \<Rightarrow> string" where
  "frac_digits n =
     (let ds = rev (dropWhile (\<lambda>c. c = CHR ''0'') (rev (pad_left 9 (fmt_d n))))
      in if ds = [] then [] else CHR ''.'' # ds)"

text \<open>\<^verbatim>\<open>Time.Format(RFC3339Nano)\<close> of a UTC time.\<close>

definition rfc3339 :: "int \<Rightarrow> string" where
  "rfc3339 t =
     (let secs = t div 1000000000; days = secs div 86400; sod = secs mod 86400;
          (y, mo, d) = civil_of_days days
      in pad_left 4 (fmt_d y) @ ''-'' @ pad_left 2 (fmt_d mo) @ ''-'' @ pad_left 2 (fmt_d d)
         @ ''T'' @ pad_left 2 (fmt_d (sod div 3600)) @ '':''
         @ pad_left 2 (fmt_d (sod mod 3600 div 60)) @ '':'' @ pad_left 2 (fmt_d (sod mod 60))
         @ frac_digits (t mod 1000000000) @ ''Z'')"

text \<open>\<^verbatim>\<open>Time.MarshalJSON\<close> fails for a year outside 0 to 9999.\<close>

definition marshalTime :: "int \<Rightarrow> Json option" where
  "marshalTime t =
     (let (y, mo, d) = civil_of_days (t div 1000000000 div 86400)
      in if 0 \<le> y \<and> y \<le> 9999 then Some (JTime (rfc3339 t) t) else None)"

section \<open>Decoding\<close>

definition to_lower :: "char \<Rightarrow> char" where
  "to_lower c =
     (let n = of_char c :: nat in if 65 \<le> n \<and> n \<le> 90 then char_of (n + 32) else c)"

definition eq_fold :: "string \<Rightarrow> string \<Rightarrow> bool" where
  "eq_fold a b \<longleftrightarrow> map to_lower a = map to_lower b"

fun dec_string :: "Json \<Rightarrow> string \<Rightarrow> string option" where
  "dec_string (JStr s) old = Some s"
| "dec_string (JTime s t) old = Some s"
| "dec_string JNull old = Some old"
| "dec_string _ old = None"

fun dec_i64 :: "Json \<Rightarrow> int \<Rightarrow> int option" where
  "dec_i64 (JInt n) old = (if in_i64 n then Some n else None)"
| "dec_i64 JNull old = Some old"
| "dec_i64 _ old = None"

fun dec_u64 :: "Json \<Rightarrow> 64 word \<Rightarrow> 64 word option" where
  "dec_u64 (JInt n) old = (if 0 \<le> n \<and> n < 2 ^ 64 then Some (word_of_int n) else None)"
| "dec_u64 JNull old = Some old"
| "dec_u64 _ old = None"

fun dec_time :: "Json \<Rightarrow> int \<Rightarrow> int option" where
  "dec_time (JTime s t) old = Some t"
| "dec_time JNull old = Some old"
| "dec_time _ old = None"

text \<open>
  A struct is decoded member by member; \<open>fld\<close> is the struct's field table: \<open>fld k v r\<close> stores
  the value \<open>v\<close> of member \<open>k\<close> into \<open>r\<close>, ignores an unknown \<open>k\<close>, and is \<open>None\<close> on a type error.
\<close>

fun dec_members ::
  "(string \<Rightarrow> Json \<Rightarrow> 'r \<Rightarrow> 'r option) \<Rightarrow> (string \<times> Json) list \<Rightarrow> 'r \<Rightarrow> 'r option" where
  "dec_members fld [] r = Some r"
| "dec_members fld ((k, v) # kvs) r =
     (case fld k v r of None \<Rightarrow> None | Some r' \<Rightarrow> dec_members fld kvs r')"

fun unmarshal :: "(string \<Rightarrow> Json \<Rightarrow> 'r \<Rightarrow> 'r option) \<Rightarrow> Json \<Rightarrow> 'r \<Rightarrow> 'r option" where
  "unmarshal fld (JObj kvs) r = dec_members fld kvs r"
| "unmarshal fld JNull r = Some r"
| "unmarshal fld _ r = None"

text \<open>What every field keeps, decoding keeps.\<close>

lemma dec_members_inv:
  assumes step: "\<And>k v r r'. fld k v r = Some r' \<Longrightarrow> P r \<Longrightarrow> P r'"
  shows "dec_members fld kvs r = Some r' \<Longrightarrow> P r \<Longrightarrow> P r'"
proof (induction kvs arbitrary: r)
  case (Cons kv kvs)
  obtain k v where kv: "kv = (k, v)" by (cases kv)
  with Cons.prems(1) obtain r1 where "fld k v r = Some r1" "dec_members fld kvs r1 = Some r'"
    by (auto split: option.splits)
  with Cons.IH step Cons.prems(2) show ?case by blast
qed simp

lemma unmarshal_inv:
  assumes "\<And>k v r r'. fld k v r = Some r' \<Longrightarrow> P r \<Longrightarrow> P r'"
  shows "unmarshal fld j r = Some r' \<Longrightarrow> P r \<Longrightarrow> P r'"
  using dec_members_inv [of fld P] assms by (cases j) auto

section \<open>Orders and trades as JSON\<close>

text \<open>
  \<^verbatim>\<open>json.Marshal\<close> of an \<^verbatim>\<open>Order\<close>: the members in field order; \<^verbatim>\<open>LockedFunds\<close> carries the
  tag \<^verbatim>\<open>json:"-"\<close> and is left out.
\<close>

definition marshalOrder :: "Order \<Rightarrow> Json option" where
  "marshalOrder ord =
     (case marshalTime (Ord_CreatedAt ord) of None \<Rightarrow> None
      | Some ts \<Rightarrow> Some (JObj [
          (''id'', JStr (Ord_ID ord)), (''eventId'', JStr (Ord_EventID ord)),
          (''userId'', JStr (Ord_UserID ord)), (''orderType'', JStr (Ord_OrderType ord)),
          (''outcome'', JStr (Ord_Outcome ord)), (''side'', JStr (Ord_Side ord)),
          (''quantity'', JInt (Ord_Quantity ord)),
          (''filledQuantity'', JInt (Ord_FilledQuantity ord)),
          (''remainingQuantity'', JInt (Ord_RemainingQuantity ord)),
          (''price'', JInt (Ord_Price ord)), (''status'', JStr (Ord_Status ord)),
          (''createdAt'', ts)]))"

definition marshalTrade :: "Trade \<Rightarrow> Json option" where
  "marshalTrade t =
     (case marshalTime (Trd_CreatedAt t) of None \<Rightarrow> None
      | Some ts \<Rightarrow> Some (JObj [
          (''id'', JStr (Trd_ID t)), (''orderId'', JStr (Trd_OrderID t)),
          (''matchOrderId'', JStr (Trd_MatchOrderID t)), (''eventId'', JStr (Trd_EventID t)),
          (''outcome'', JStr (Trd_Outcome t)), (''buyerId'', JStr (Trd_BuyerID t)),
          (''sellerId'', JStr (Trd_SellerID t)), (''takerSide'', JStr (Trd_TakerSide t)),
          (''quantity'', JInt (Trd_Quantity t)), (''price'', JInt (Trd_Price t)),
          (''createdAt'', ts)]))"

definition zeroTrade :: Trade where
  "zeroTrade = \<lparr>Trd_ID = [], Trd_OrderID = [], Trd_MatchOrderID = [], Trd_EventID = [],
     Trd_Outcome = [], Trd_BuyerID = [], Trd_SellerID = [], Trd_TakerSide = [],
     Trd_Quantity = 0, Trd_Price = 0, Trd_CreatedAt = 0\<rparr>"

definition set_Order_field :: "string \<Rightarrow> Json \<Rightarrow> Order \<Rightarrow> Order option" where
  "set_Order_field k v r =
     (if eq_fold k ''id'' then map_option (\<lambda>x. r\<lparr>Ord_ID := x\<rparr>) (dec_string v (Ord_ID r))
      else if eq_fold k ''eventId''
        then map_option (\<lambda>x. r\<lparr>Ord_EventID := x\<rparr>) (dec_string v (Ord_EventID r))
      else if eq_fold k ''userId''
        then map_option (\<lambda>x. r\<lparr>Ord_UserID := x\<rparr>) (dec_string v (Ord_UserID r))
      else if eq_fold k ''orderType''
        then map_option (\<lambda>x. r\<lparr>Ord_OrderType := x\<rparr>) (dec_string v (Ord_OrderType r))
      else if eq_fold k ''outcome''
        then map_option (\<lambda>x. r\<lparr>Ord_Outcome := x\<rparr>) (dec_string v (Ord_Outcome r))
      else if eq_fold k ''side''
        then map_option (\<lambda>x. r\<lparr>Ord_Side := x\<rparr>) (dec_string v (Ord_Side r))
      else if eq_fold k ''quantity''
        then map_option (\<lambda>x. r\<lparr>Ord_Quantity := x\<rparr>) (dec_i64 v (Ord_Quantity r))
      else if eq_fold k ''filledQuantity''
        then map_option (\<lambda>x. r\<lparr>Ord_FilledQuantity := x\<rparr>) (dec_i64 v (Ord_FilledQuantity r))
      else if eq_fold k ''remainingQuantity''
        then map_option (\<lambda>x. r\<lparr>Ord_RemainingQuantity := x\<rparr>) (dec_i64 v (Ord_RemainingQuantity r))
      else if eq_fold k ''price''
        then map_option (\<lambda>x. r\<lparr>Ord_Price := x\<rparr>) (dec_i64 v (Ord_Price r))
      else if eq_fold k ''status''
        then map_option (\<lambda>x. r\<lparr>Ord_Status := x\<rparr>) (dec_string v (Ord_Status r))
      else if eq_fold k ''createdAt''
        then map_option (\<lambda>x. r\<lparr>Ord_CreatedAt := x\<rparr>) (dec_time v (Ord_CreatedAt r))
      else Some r)"

definition set_Trade_field :: "string \<Rightarrow> Json \<Rightarrow> Trade \<Rightarrow> Trade option" where
  "set_Trade_field k v r =
     (if eq_fold k ''id'' then map_option (\<lambda>x. r\<lparr>Trd_ID := x\<rparr>) (dec_string v (Trd_ID r))
      else if eq_fold k ''orderId''
        then map_option (\<lambda>x. r\<lparr>Trd_OrderID := x\<rparr>) (dec_string v (Trd_OrderID r))
      else if eq_fold k ''matchOrderId''
        then map_option (\<lambda>x. r\<lparr>Trd_MatchOrderID := x\<rparr>) (dec_string v (Trd_MatchOrderID r))
      else if eq_fold k ''eventId''
        then map_option (\<lambda>x. r\<lparr>Trd_EventID := x\<rparr>) (dec_string v (Trd_EventID r))
      else if eq_fold k ''outcome''
        then map_option (\<lambda>x. r\<lparr>Trd_Outcome := x\<rparr>) (dec_string v (Trd_Outcome r))
      else if eq_fold k ''buyerId''
        then map_option (\<lambda>x. r\<lparr>Trd_BuyerID := x\<rparr>) (dec_string v (Trd_BuyerID r))
      else if eq_fold k ''sellerId''
        then map_option (\<lambda>x. r\<lparr>Trd_SellerID := x\<rparr>) (dec_string v (Trd_SellerID r))
      else if eq_fold k ''takerSide''
        then map_option (\<lambda>x. r\<lparr>Trd_TakerSide := x\<rparr>) (dec_string v (Trd_TakerSide r))
      else if eq_fold k ''quantity''
        then map_option (\<lambda>x. r\<lparr>Trd_Quantity := x\<rparr>) (dec_i64 v (Trd_Quantity r))
      else if eq_fold k ''price''
        then map_option (\<lambda>x. r\<lparr>Trd_Price := x\<rparr>) (dec_i64 v (Trd_Price r))
      else if eq_fold k ''createdAt''
        then map_option (\<lambda>x. r\<lparr>Trd_CreatedAt := x\<rparr>) (dec_time v (Trd_CreatedAt r))
      else Some r)"

definition unmarshalOrder :: "Json \<Rightarrow> Order option" where
  "unmarshalOrder j = unmarshal set_Order_field j zeroOrder"

definition unmarshalTrade :: "Json \<Rightarrow> Trade option" where
  "unmarshalTrade j = unmarshal set_Trade_field j zeroTrade"

section \<open>Case folding on the field names\<close>

lemma eq_fold_refl [simp]: "eq_fold a a"
  by (simp add: eq_fold_def)

lemma eq_fold_length: "length a \<noteq> length b \<Longrightarrow> \<not> eq_fold a b"
  by (metis eq_fold_def length_map)

lemma eq_fold_Cons: "eq_fold (a # s) (b # t) \<longleftrightarrow> to_lower a = to_lower b \<and> eq_fold s t"
  by (simp add: eq_fold_def)

lemmas eq_fold_eval = eq_fold_Cons eq_fold_length to_lower_def

lemma eq_fold_Nil [simp]: "eq_fold [] b \<longleftrightarrow> b = []" "eq_fold a [] \<longleftrightarrow> a = []"
  by (auto simp: eq_fold_def)

section \<open>What the engine encodes, a consumer decodes\<close>

lemma order_json_roundtrip:
  assumes "marshalOrder ord = Some j"
    and "in_i64 (Ord_Quantity ord)" "in_i64 (Ord_FilledQuantity ord)"
    and "in_i64 (Ord_RemainingQuantity ord)" "in_i64 (Ord_Price ord)"
  shows "unmarshalOrder j = Some (ord\<lparr>Ord_LockedFunds := 0\<rparr>)"
proof -
  have ts: "marshalTime t = Some x \<Longrightarrow> x = JTime (rfc3339 t) t" for t x
    by (auto simp: marshalTime_def Let_def split: prod.splits if_splits)
  from assms show ?thesis
    by (auto simp: marshalOrder_def unmarshalOrder_def set_Order_field_def eq_fold_eval
        zeroOrder_def dest!: ts split: option.splits)
qed

lemma trade_json_roundtrip:
  assumes "marshalTrade t = Some j" and "in_i64 (Trd_Quantity t)" "in_i64 (Trd_Price t)"
  shows "unmarshalTrade j = Some t"
proof -
  have ts: "marshalTime u = Some x \<Longrightarrow> x = JTime (rfc3339 u) u" for u x
    by (auto simp: marshalTime_def Let_def split: prod.splits if_splits)
  from assms show ?thesis
    by (auto simp: marshalTrade_def unmarshalTrade_def set_Trade_field_def eq_fold_eval
        zeroTrade_def dest!: ts split: option.splits)
qed

end
