(* ===== verification/Engine_State.thy ===== *)
theory Engine_State
  imports Predix_Json
begin

text \<open>
  The event envelope (\<^verbatim>\<open>internal/events/events.go\<close>), the counters of
  \<^verbatim>\<open>internal/engine/metric.go\<close> and the state of the matching engine (the struct
  \<^verbatim>\<open>Engine\<close> of \<^verbatim>\<open>engine.go\<close>), with its construction and settings.

  The mutex \<^verbatim>\<open>mu\<close> makes every critical section one atomic update of this record; goroutine
  bookkeeping, the logger and the latency histograms hold no state the program reads back and
  are left out. \<open>outStream\<close> and \<open>wsOut\<close> are ghost fields: the envelopes Redis has accepted on
  the event stream and on the WebSocket channel, in order. \<open>redisManager\<close> and \<open>outbox\<close> tell
  whether those pointers are set; the journal file of the outbox is \<open>journal\<close>, one JSON line per
  element.
\<close>

section \<open>Event envelopes\<close>

definition EventTradeExecuted :: string where
  [predix_const]: "EventTradeExecuted = ''trade_executed''"
definition EventOrderCreated :: string where
  [predix_const]: "EventOrderCreated = ''order_created''"
definition EventOrderStatus :: string where
  [predix_const]: "EventOrderStatus = ''order_status''"
definition EventOrderCanceled :: string where
  [predix_const]: "EventOrderCanceled = ''order_canceled''"
definition EventDepthUpdated :: string where
  [predix_const]: "EventDepthUpdated = ''depth_updated''"
definition EventStream :: string where
  [predix_const]: "EventStream = ''events:out''"
definition WSChannel :: string where
  [predix_const]: "WSChannel = ''ws:updates''"

record EventEnvelope =
  Env_ID :: string
  Env_Type :: string
  Env_PartitionID :: int
  Env_FencingToken :: "64 word"
  Env_Sequence :: "64 word"
  Env_CreatedAt :: int
  Env_Data :: Json

text \<open>The fresh UUID and the clock reading are arguments.\<close>

definition NewEnvelope ::
  "string \<Rightarrow> int \<Rightarrow> string \<Rightarrow> Json \<Rightarrow> int \<Rightarrow> 64 word \<Rightarrow> 64 word \<Rightarrow> EventEnvelope" where
  "NewEnvelope uuid now typ data pid token seq =
     \<lparr>Env_ID = uuid, Env_Type = typ, Env_PartitionID = pid, Env_FencingToken = token,
      Env_Sequence = seq, Env_CreatedAt = now, Env_Data = data\<rparr>"

definition zeroEnvelope :: EventEnvelope where
  "zeroEnvelope = \<lparr>Env_ID = [], Env_Type = [], Env_PartitionID = 0, Env_FencingToken = 0,
     Env_Sequence = 0, Env_CreatedAt = 0, Env_Data = JBad\<rparr>"

text \<open>A nil \<^verbatim>\<open>RawMessage\<close> is encoded as \<open>null\<close>.\<close>

definition rawJson :: "Json \<Rightarrow> Json" where
  "rawJson d = (if d = JBad then JNull else d)"

definition marshalEnvelope :: "EventEnvelope \<Rightarrow> Json option" where
  "marshalEnvelope env =
     (case marshalTime (Env_CreatedAt env) of None \<Rightarrow> None
      | Some ts \<Rightarrow> Some (JObj [
          (''id'', JStr (Env_ID env)), (''type'', JStr (Env_Type env)),
          (''partitionId'', JInt (Env_PartitionID env)),
          (''fencingToken'', JInt (uint (Env_FencingToken env))),
          (''sequence'', JInt (uint (Env_Sequence env))),
          (''createdAt'', ts), (''data'', rawJson (Env_Data env))]))"

definition set_Envelope_field :: "string \<Rightarrow> Json \<Rightarrow> EventEnvelope \<Rightarrow> EventEnvelope option" where
  "set_Envelope_field k v r =
     (if eq_fold k ''id'' then map_option (\<lambda>x. r\<lparr>Env_ID := x\<rparr>) (dec_string v (Env_ID r))
      else if eq_fold k ''type''
        then map_option (\<lambda>x. r\<lparr>Env_Type := x\<rparr>) (dec_string v (Env_Type r))
      else if eq_fold k ''partitionId''
        then map_option (\<lambda>x. r\<lparr>Env_PartitionID := x\<rparr>) (dec_i64 v (Env_PartitionID r))
      else if eq_fold k ''fencingToken''
        then map_option (\<lambda>x. r\<lparr>Env_FencingToken := x\<rparr>) (dec_u64 v (Env_FencingToken r))
      else if eq_fold k ''sequence''
        then map_option (\<lambda>x. r\<lparr>Env_Sequence := x\<rparr>) (dec_u64 v (Env_Sequence r))
      else if eq_fold k ''createdAt''
        then map_option (\<lambda>x. r\<lparr>Env_CreatedAt := x\<rparr>) (dec_time v (Env_CreatedAt r))
      else if eq_fold k ''data'' then Some (r\<lparr>Env_Data := v\<rparr>)
      else Some r)"

definition unmarshalEnvelope :: "Json \<Rightarrow> EventEnvelope option" where
  "unmarshalEnvelope j = unmarshal set_Envelope_field j zeroEnvelope"

section \<open>The engine\<close>

text \<open>The Prometheus counters the handlers increment.\<close>

record Metrics =
  OrdersProcessed :: nat
  OrdersAccepted :: nat
  OrdersRejected :: nat
  OrdersCanceled :: nat
  OrdersFilled :: nat
  TradesExecuted :: nat

definition NewMetrics :: Metrics where
  "NewMetrics = \<lparr>OrdersProcessed = 0, OrdersAccepted = 0, OrdersRejected = 0,
     OrdersCanceled = 0, OrdersFilled = 0, TradesExecuted = 0\<rparr>"

record Engine =
  markets :: "string \<rightharpoonup> Market"
  orders :: store
  balances :: "string \<rightharpoonup> Balance"
  positions :: "string \<rightharpoonup> Position"
  redisManager :: bool
  metrics :: Metrics
  engineID :: string
  leaseTTL :: int
  leaseRenewInterval :: int
  router :: Router
  partitionSeq :: "64 word list"
  partitionToken :: "int \<rightharpoonup> 64 word"
  partitions :: "int set"
  replaying :: "int \<rightharpoonup> bool"
  eventStream :: string
  wsChannel :: string
  outbox :: bool
  journal :: "Json list"
  outStream :: "Json list"
  wsOut :: "Json list"

text \<open>
  \<^verbatim>\<open>newEngine\<close>: \<open>rm\<close> tells whether the Redis manager is there, \<open>file\<close> is what opening the
  outbox gave, the lines the file held or an error; the result is \<open>None\<close> on an error.
\<close>

definition newEngine :: "bool \<Rightarrow> Json list option \<Rightarrow> Engine option" where
  "newEngine rm file =
     (if \<not> rm then None
      else case file of None \<Rightarrow> None | Some lines \<Rightarrow> Some
     \<lparr>markets = Map.empty, orders = Map.empty, balances = Map.empty, positions = Map.empty,
      redisManager = rm, metrics = NewMetrics, engineID = ''engine-0'', leaseTTL = 15000000000,
      leaseRenewInterval = 5000000000, router = NewRouter 1 ''commands'', partitionSeq = [0],
      partitionToken = Map.empty, partitions = {}, replaying = Map.empty,
      eventStream = EventStream, wsChannel = WSChannel, outbox = True, journal = lines,
      outStream = [], wsOut = []\<rparr>)"

definition SetStreamNames :: "string \<Rightarrow> string \<Rightarrow> Engine \<Rightarrow> Engine" where
  "SetStreamNames es ws e =
     e\<lparr>eventStream := (if es \<noteq> [] then es else eventStream e),
       wsChannel := (if ws \<noteq> [] then ws else wsChannel e)\<rparr>"

text \<open>
  \<^verbatim>\<open>SetRouter\<close> sizes the sequence counters to the router: \<^verbatim>\<open>make\<close> gives zeros and \<^verbatim>\<open>copy\<close>
  writes the common prefix. \<^verbatim>\<open>make\<close> panics on a negative length (\<open>None\<close>).
\<close>

definition SetRouter :: "Router option \<Rightarrow> Engine \<Rightarrow> Engine option" where
  "SetRouter ro e =
     (case ro of None \<Rightarrow> Some e
      | Some r \<Rightarrow>
          if Partitions r < 0 then None
          else let n = nat (Partitions r) in
            Some (e\<lparr>partitionSeq := take n (partitionSeq e)
                      @ replicate (n - length (partitionSeq e)) 0,
                    router := r\<rparr>))"

definition SetLeaseSettings :: "string \<Rightarrow> int \<Rightarrow> int \<Rightarrow> Engine \<Rightarrow> Engine" where
  "SetLeaseSettings eid ttl renew e =
     e\<lparr>engineID := (if eid \<noteq> [] then eid else engineID e),
       leaseTTL := (if ttl > 0 then ttl else leaseTTL e),
       leaseRenewInterval := (if renew > 0 then renew else leaseRenewInterval e)\<rparr>"

definition isReplaying :: "int \<Rightarrow> Engine \<Rightarrow> bool" where
  "isReplaying pid e = (case replaying e pid of None \<Rightarrow> False | Some b \<Rightarrow> b)"

definition OwnedPartitions :: "Engine \<Rightarrow> nat" where
  "OwnedPartitions e = card (dom (partitionToken e))"

text \<open>\<^verbatim>\<open>AddPartition\<close> (\<^verbatim>\<open>worker.go\<close>): \<open>Inl\<close> is the error.\<close>

datatype add_error = OutOfRange int int | AlreadyConfigured int

definition AddPartition :: "int \<Rightarrow> Engine \<Rightarrow> add_error + Engine" where
  "AddPartition pid e =
     (if pid < 0 \<or> pid \<ge> Partitions (router e) then Inl (OutOfRange pid (Partitions (router e)))
      else if pid \<in> partitions e then Inl (AlreadyConfigured pid)
      else Inr (e\<lparr>partitions := insert pid (partitions e)\<rparr>))"

section \<open>Lemmas\<close>

lemma envelope_json_roundtrip:
  assumes "marshalEnvelope env = Some j" and "in_i64 (Env_PartitionID env)"
    and "Env_Data env \<noteq> JBad"
  shows "unmarshalEnvelope j = Some env"
proof -
  have ts: "marshalTime u = Some x \<Longrightarrow> x = JTime (rfc3339 u) u" for u x
    by (auto simp: marshalTime_def Let_def split: prod.splits if_splits)
  have u: "uint (w :: 64 word) < 2 ^ 64" for w
    using uint_lt2p [of w] by simp
  from assms u [of "Env_FencingToken env"] u [of "Env_Sequence env"] show ?thesis
    by (auto simp: marshalEnvelope_def unmarshalEnvelope_def set_Envelope_field_def eq_fold_eval
        zeroEnvelope_def rawJson_def dest!: ts split: option.splits)
qed

text \<open>
  The sequence counters cover every configured partition: the engine starts so, and the settings
  keep it as long as the router is installed before any partition is added.
\<close>

definition seq_covers :: "Engine \<Rightarrow> bool" where
  "seq_covers e \<longleftrightarrow>
     int (length (partitionSeq e)) = Partitions (router e) \<and>
     (\<forall>p\<in>partitions e. 0 \<le> p \<and> p < int (length (partitionSeq e)))"

lemma seq_covers_new: "newEngine rm file = Some e \<Longrightarrow> seq_covers e"
  by (auto simp: seq_covers_def newEngine_def NewRouter_def split: if_splits option.splits)

lemma seq_covers_SetRouter:
  assumes "SetRouter ro e = Some e'" and "seq_covers e" and "partitions e = {}"
  shows "seq_covers e'"
proof (cases ro)
  case None
  with assms show ?thesis by (simp add: SetRouter_def)
next
  case (Some r)
  with assms have "0 \<le> Partitions r"
    and "e' = e\<lparr>partitionSeq := take (nat (Partitions r)) (partitionSeq e)
            @ replicate (nat (Partitions r) - length (partitionSeq e)) 0, router := r\<rparr>"
    by (auto simp: SetRouter_def Let_def split: if_splits)
  with assms(3) show ?thesis by (auto simp: seq_covers_def min_def)
qed

lemma seq_covers_AddPartition:
  "AddPartition p e = Inr e' \<Longrightarrow> seq_covers e \<Longrightarrow> seq_covers e'"
  by (auto simp: AddPartition_def seq_covers_def split: if_splits)

end
