(* ===== verification/Ledger.thy ===== *)
theory Ledger
  imports Engine_State
begin

text \<open>
  The ledger (\<^verbatim>\<open>internal/engine/ledger.go\<close>): cash balances and share positions with their
  available and reserved parts, and the operations that freeze, settle and release the liquidity
  of an order.

  Cash and shares go through the same four movements, on a \<^typ>\<open>Balance\<close> and on a
  \<^typ>\<open>Position\<close>; the locale \<open>escrow\<close> states their laws, and its lemmas (a movement keeps
  \<open>available + reserved\<close>, freezing and releasing cancel out, an overdrawn consumption is clamped)
  serve both. Every subtraction and addition of the source wraps at 64 bits.
\<close>

section \<open>Account movements\<close>

definition bal_freeze :: "int \<Rightarrow> Balance \<Rightarrow> Balance" where
  "bal_freeze n b = b\<lparr>Bal_Available := i64 (Bal_Available b - n),
                      Bal_Reserved := i64 (Bal_Reserved b + n)\<rparr>"

definition bal_consume :: "int \<Rightarrow> Balance \<Rightarrow> Balance" where
  "bal_consume n b =
     (let r = i64 (Bal_Reserved b - n) in b\<lparr>Bal_Reserved := (if r < 0 then 0 else r)\<rparr>)"

definition bal_credit :: "int \<Rightarrow> Balance \<Rightarrow> Balance" where
  "bal_credit n b = b\<lparr>Bal_Available := i64 (Bal_Available b + n)\<rparr>"

definition bal_thaw :: "int \<Rightarrow> Balance \<Rightarrow> Balance" where
  "bal_thaw n b = bal_credit n (bal_consume n b)"

definition pos_freeze :: "int \<Rightarrow> Position \<Rightarrow> Position" where
  "pos_freeze n p = p\<lparr>Pos_Available := i64 (Pos_Available p - n),
                      Pos_Reserved := i64 (Pos_Reserved p + n)\<rparr>"

definition pos_consume :: "int \<Rightarrow> Position \<Rightarrow> Position" where
  "pos_consume n p =
     (let r = i64 (Pos_Reserved p - n) in p\<lparr>Pos_Reserved := (if r < 0 then 0 else r)\<rparr>)"

definition pos_credit :: "int \<Rightarrow> Position \<Rightarrow> Position" where
  "pos_credit n p = p\<lparr>Pos_Available := i64 (Pos_Available p + n)\<rparr>"

definition pos_thaw :: "int \<Rightarrow> Position \<Rightarrow> Position" where
  "pos_thaw n p = pos_credit n (pos_consume n p)"

section \<open>Ledger entries\<close>

definition getOrCreateBalance :: "string \<Rightarrow> Engine \<Rightarrow> Balance \<times> Engine" where
  "getOrCreateBalance u e =
     (case balances e u of Some b \<Rightarrow> (b, e)
      | None \<Rightarrow> (zeroBalance, e\<lparr>balances := (balances e)(u \<mapsto> zeroBalance)\<rparr>))"

definition positionKey :: "string \<Rightarrow> string \<Rightarrow> string \<Rightarrow> string" where
  "positionKey u ev oc = u @ '':'' @ ev @ '':'' @ oc"

definition getOrCreatePosition :: "string \<Rightarrow> string \<Rightarrow> string \<Rightarrow> Engine \<Rightarrow> Position \<times> Engine" where
  "getOrCreatePosition u ev oc e =
     (let key = positionKey u ev oc in
      case positions e key of Some p \<Rightarrow> (p, e)
      | None \<Rightarrow> (zeroPosition, e\<lparr>positions := (positions e)(key \<mapsto> zeroPosition)\<rparr>))"

text \<open>Writing through the pointer that \<^verbatim>\<open>getOrCreateBalance\<close> or \<^verbatim>\<open>getOrCreatePosition\<close> returned.\<close>

definition putBalance :: "string \<Rightarrow> Balance \<Rightarrow> Engine \<Rightarrow> Engine" where
  "putBalance u b e = e\<lparr>balances := (balances e)(u \<mapsto> b)\<rparr>"

definition putPosition :: "string \<Rightarrow> Position \<Rightarrow> Engine \<Rightarrow> Engine" where
  "putPosition k p e = e\<lparr>positions := (positions e)(k \<mapsto> p)\<rparr>"

section \<open>Reserve, settle, release\<close>

datatype reserve_error = ErrInsufficientFunds | ErrInsufficientShares

text \<open>
  The order is not yet in the store: the new \<^verbatim>\<open>LockedFunds\<close> is returned with it. A refused
  reservation still leaves the ledger entry it looked at behind.
\<close>

definition reserveOrderLocked :: "Order \<Rightarrow> Engine \<Rightarrow> reserve_error option \<times> Order \<times> Engine" where
  "reserveOrderLocked ord e =
     (if Ord_Side ord = SideBuy then
        (let (bal, e1) = getOrCreateBalance (Ord_UserID ord) e;
             cost = (if Ord_OrderType ord = OrderTypeMarket then Bal_Available bal
                     else i64 (Ord_RemainingQuantity ord * Ord_Price ord))
         in if cost > Bal_Available bal then (Some ErrInsufficientFunds, ord, e1)
            else (None, ord\<lparr>Ord_LockedFunds := cost\<rparr>,
                  putBalance (Ord_UserID ord) (bal_freeze cost bal) e1))
      else
        (let (pos, e1) = getOrCreatePosition (Ord_UserID ord) (Ord_EventID ord) (Ord_Outcome ord) e
         in if Pos_Available pos < Ord_RemainingQuantity ord
            then (Some ErrInsufficientShares, ord, e1)
            else (None, ord\<lparr>Ord_LockedFunds := Ord_RemainingQuantity ord\<rparr>,
                  putPosition (positionKey (Ord_UserID ord) (Ord_EventID ord) (Ord_Outcome ord))
                    (pos_freeze (Ord_RemainingQuantity ord) pos) e1)))"

text \<open>The body of the loop over the taker's and the maker's order in \<^verbatim>\<open>settleTradeLocked\<close>.\<close>

definition settle_locked :: "int \<Rightarrow> int \<Rightarrow> Order \<Rightarrow> Order" where
  "settle_locked cost qty ord =
     (let l = i64 (Ord_LockedFunds ord - (if Ord_Side ord = SideBuy then cost else qty))
      in ord\<lparr>Ord_LockedFunds := (if l < 0 then 0 else l)\<rparr>)"

definition settleTradeLocked :: "Trade \<Rightarrow> Engine \<Rightarrow> Engine" where
  "settleTradeLocked trade e =
     (let cost = i64 (Trd_Quantity trade * Trd_Price trade);
          (buyerBal, e1) = getOrCreateBalance (Trd_BuyerID trade) e;
          e2 = putBalance (Trd_BuyerID trade) (bal_consume cost buyerBal) e1;
          (buyerPos, e3) =
            getOrCreatePosition (Trd_BuyerID trade) (Trd_EventID trade) (Trd_Outcome trade) e2;
          e4 = putPosition
                 (positionKey (Trd_BuyerID trade) (Trd_EventID trade) (Trd_Outcome trade))
                 (pos_credit (Trd_Quantity trade) buyerPos) e3;
          (sellerBal, e5) = getOrCreateBalance (Trd_SellerID trade) e4;
          e6 = putBalance (Trd_SellerID trade) (bal_credit cost sellerBal) e5;
          (sellerPos, e7) =
            getOrCreatePosition (Trd_SellerID trade) (Trd_EventID trade) (Trd_Outcome trade) e6;
          e8 = putPosition
                 (positionKey (Trd_SellerID trade) (Trd_EventID trade) (Trd_Outcome trade))
                 (pos_consume (Trd_Quantity trade) sellerPos) e7
      in e8\<lparr>orders :=
              modify (Trd_MatchOrderID trade) (settle_locked cost (Trd_Quantity trade))
                (modify (Trd_OrderID trade) (settle_locked cost (Trd_Quantity trade))
                  (orders e8))\<rparr>)"

definition releaseOrderLocked :: "string \<Rightarrow> Engine \<Rightarrow> Engine" where
  "releaseOrderLocked i e =
     (let ord = deref (orders e) i in
      if Ord_LockedFunds ord \<le> 0 then e
      else
        (let e2 =
           (if Ord_Side ord = SideBuy then
              (let (bal, e1) = getOrCreateBalance (Ord_UserID ord) e
               in putBalance (Ord_UserID ord) (bal_thaw (Ord_LockedFunds ord) bal) e1)
            else
              (let (pos, e1) =
                 getOrCreatePosition (Ord_UserID ord) (Ord_EventID ord) (Ord_Outcome ord) e
               in putPosition (positionKey (Ord_UserID ord) (Ord_EventID ord) (Ord_Outcome ord))
                    (pos_thaw (Ord_LockedFunds ord) pos) e1))
         in e2\<lparr>orders := modify i (\<lambda>ord. ord\<lparr>Ord_LockedFunds := 0\<rparr>) (orders e2)\<rparr>))"

definition GetBalances :: "string \<Rightarrow> Engine \<Rightarrow> int \<times> int \<times> bool" where
  "GetBalances u e =
     (case balances e u of None \<Rightarrow> (0, 0, False)
      | Some b \<Rightarrow> (Bal_Available b, Bal_Reserved b, True))"

definition GetPosition :: "string \<Rightarrow> string \<Rightarrow> string \<Rightarrow> Engine \<Rightarrow> int \<times> int \<times> bool" where
  "GetPosition u ev oc e =
     (case positions e (positionKey u ev oc) of None \<Rightarrow> (0, 0, False)
      | Some p \<Rightarrow> (Pos_Available p, Pos_Reserved p, True))"

section \<open>The laws of an account\<close>

locale escrow =
  fixes av rs :: "'a \<Rightarrow> int"
    and freeze consume credit thaw :: "int \<Rightarrow> 'a \<Rightarrow> 'a"
  assumes av_freeze: "av (freeze n a) = i64 (av a - n)"
    and rs_freeze: "rs (freeze n a) = i64 (rs a + n)"
    and av_consume: "av (consume n a) = av a"
    and rs_consume: "rs (consume n a) = max 0 (i64 (rs a - n))"
    and av_credit: "av (credit n a) = i64 (av a + n)"
    and rs_credit: "rs (credit n a) = rs a"
    and thaw_eq: "thaw n a = credit n (consume n a)"
begin

definition sound :: "'a \<Rightarrow> bool" where
  "sound a \<longleftrightarrow> 0 \<le> av a \<and> 0 \<le> rs a \<and> av a + rs a \<le> max_i64"

lemma freeze_exact:
  assumes "sound a" and "0 \<le> n" and "n \<le> av a"
  shows "av (freeze n a) = av a - n" "rs (freeze n a) = rs a + n" "sound (freeze n a)"
  using assms by (simp_all add: sound_def av_freeze rs_freeze)

lemma consume_exact:
  assumes "sound a" and "0 \<le> n" and "n \<le> rs a"
  shows "av (consume n a) = av a" "rs (consume n a) = rs a - n" "sound (consume n a)"
  using assms by (simp_all add: sound_def av_consume rs_consume)

lemma credit_exact:
  assumes "sound a" and "0 \<le> n" and "av a + rs a + n \<le> max_i64"
  shows "av (credit n a) = av a + n" "rs (credit n a) = rs a" "sound (credit n a)"
  using assms by (simp_all add: sound_def av_credit rs_credit)

lemma thaw_exact:
  assumes "sound a" and "0 \<le> n" and "n \<le> rs a"
  shows "av (thaw n a) = av a + n" "rs (thaw n a) = rs a - n" "sound (thaw n a)"
  using assms by (simp_all add: sound_def thaw_eq av_credit rs_credit av_consume rs_consume)

text \<open>Freezing and releasing the same amount is the identity on both parts.\<close>

lemma thaw_freeze:
  assumes "sound a" and "0 \<le> n" and "n \<le> av a"
  shows "av (thaw n (freeze n a)) = av a" "rs (thaw n (freeze n a)) = rs a"
  using freeze_exact [OF assms] thaw_exact [of "freeze n a" n] assms
  by (simp_all add: sound_def)

text \<open>
  An overdrawn consumption does not fail: the reserve stops at zero, and the holder has paid
  \<open>rs a\<close> instead of \<open>n\<close>.
\<close>

lemma consume_overdrawn:
  assumes "sound a" and "rs a < n" and "n \<le> max_i64"
  shows "av (consume n a) + rs (consume n a) = av a + rs a - n + (n - rs a)"
    and "rs (consume n a) = 0"
proof -
  have "i64 (rs a - n) = rs a - n"
    using assms by (intro i64_id) (simp add: sound_def in_i64_def)
  with assms show "av (consume n a) + rs (consume n a) = av a + rs a - n + (n - rs a)"
    and "rs (consume n a) = 0"
    by (simp_all add: av_consume rs_consume)
qed

end

interpretation cash: escrow Bal_Available Bal_Reserved bal_freeze bal_consume bal_credit bal_thaw
  by unfold_locales
    (simp_all add: bal_freeze_def bal_consume_def bal_credit_def bal_thaw_def Let_def)

interpretation share: escrow Pos_Available Pos_Reserved pos_freeze pos_consume pos_credit pos_thaw
  by unfold_locales
    (simp_all add: pos_freeze_def pos_consume_def pos_credit_def pos_thaw_def Let_def)

end
