(* ===== verification/Order_Book.thy ===== *)
theory Order_Book
  imports Predix_Types
begin

text \<open>
  The order book of \<^verbatim>\<open>internal/engine/engine.go\<close>: price-time insertion (\<open>addToBook\<close>), the
  pruning of dead orders at the front of a side, the search for a counterparty, and the two
  removals. The slices of a book hold pointers, here order IDs, so every function takes the
  order store they point into.

  \<^verbatim>\<open>sort.SliceStable\<close> is \<open>sliceStable\<close>; what its callers rely on (the result is ordered, is a
  permutation, and an element appended to an ordered slice lands behind its equals) is proved
  once in the locale \<open>slice_order\<close> for every comparison that is a strict weak order, and the
  locale is interpreted with the two comparisons of \<open>addToBook\<close>. These compare a rank, the
  locale \<open>ranked\<close>, for which the sort is the stable sort of the HOL library.
\<close>

section \<open>Definitions\<close>

subsection \<open>sort.SliceStable\<close>

fun insert_stable :: "('a \<Rightarrow> 'a \<Rightarrow> bool) \<Rightarrow> 'a \<Rightarrow> 'a list \<Rightarrow> 'a list" where
  "insert_stable lt x [] = [x]"
| "insert_stable lt x (y # ys) =
     (if lt y x then y # insert_stable lt x ys else x # y # ys)"

definition sliceStable :: "('a \<Rightarrow> 'a \<Rightarrow> bool) \<Rightarrow> 'a list \<Rightarrow> 'a list" where
  "sliceStable lt xs = foldr (insert_stable lt) xs []"

subsection \<open>The two sides of a book\<close>

definition bid_less :: "store \<Rightarrow> string \<Rightarrow> string \<Rightarrow> bool" where
  "bid_less st i j \<longleftrightarrow> Ord_Price (deref st i) > Ord_Price (deref st j)"

definition ask_less :: "store \<Rightarrow> string \<Rightarrow> string \<Rightarrow> bool" where
  "ask_less st i j \<longleftrightarrow> Ord_Price (deref st i) < Ord_Price (deref st j)"

definition addToBook :: "store \<Rightarrow> OrderBook \<Rightarrow> string \<Rightarrow> OrderBook" where
  "addToBook st book i =
     (if Ord_Side (deref st i) = SideBuy
      then book\<lparr>Bids := sliceStable (bid_less st) (Bids book @ [i])\<rparr>
      else book\<lparr>Asks := sliceStable (ask_less st) (Asks book @ [i])\<rparr>)"

text \<open>The loops of \<^verbatim>\<open>removeInvalidBids\<close> and \<^verbatim>\<open>removeInvalidAsks\<close>.\<close>

definition front_dead :: "Order \<Rightarrow> bool" where
  "front_dead ord \<longleftrightarrow> Ord_Status ord = StatusFilled \<or> Ord_Status ord = StatusCanceled \<or>
     Ord_RemainingQuantity ord \<le> 0"

fun removeInvalid :: "store \<Rightarrow> string list \<Rightarrow> string list" where
  "removeInvalid st [] = []"
| "removeInvalid st (i # is) =
     (if front_dead (deref st i) then removeInvalid st is else i # is)"

definition removeInvalidBids :: "store \<Rightarrow> OrderBook \<Rightarrow> OrderBook" where
  "removeInvalidBids st book = book\<lparr>Bids := removeInvalid st (Bids book)\<rparr>"

definition removeInvalidAsks :: "store \<Rightarrow> OrderBook \<Rightarrow> OrderBook" where
  "removeInvalidAsks st book = book\<lparr>Asks := removeInvalid st (Asks book)\<rparr>"

subsection \<open>Matching conditions\<close>

definition canMatch :: "Order \<Rightarrow> Order \<Rightarrow> bool" where
  "canMatch incoming resting =
     (if Ord_Outcome incoming \<noteq> Ord_Outcome resting then False
      else if Ord_OrderType incoming = OrderTypeMarket then True
      else if Ord_Side incoming = SideBuy then Ord_Price resting \<le> Ord_Price incoming
      else if Ord_Side incoming = SideSell then Ord_Price resting \<ge> Ord_Price incoming
      else False)"

text \<open>The index of the first usable resting order; \<open>None\<close> for Go's \<open>-1\<close>.\<close>

fun findCounterparty_from :: "store \<Rightarrow> nat \<Rightarrow> string list \<Rightarrow> Order \<Rightarrow> nat option" where
  "findCounterparty_from st i [] incoming = None"
| "findCounterparty_from st i (r # rs) incoming =
     (let resting = deref st r in
      if Ord_Status resting = StatusFilled \<or> Ord_Status resting = StatusCanceled \<or>
         Ord_Status resting = StatusRejected \<or> Ord_RemainingQuantity resting \<le> 0
        then findCounterparty_from st (Suc i) rs incoming
      else if Ord_UserID resting = Ord_UserID incoming
        then findCounterparty_from st (Suc i) rs incoming
      else if canMatch incoming resting then Some i
      else findCounterparty_from st (Suc i) rs incoming)"

definition findCounterparty :: "store \<Rightarrow> string list \<Rightarrow> Order \<Rightarrow> nat option" where
  "findCounterparty st items incoming = findCounterparty_from st 0 items incoming"

subsection \<open>Removals\<close>

text \<open>\<^verbatim>\<open>copy(items[idx:], items[idx+1:])\<close>, then the last element is cut off.\<close>

definition removeOrderIndex :: "string list \<Rightarrow> nat \<Rightarrow> string list" where
  "removeOrderIndex items idx = take idx items @ drop (Suc idx) items"

fun removeOrderFromSlice :: "store \<Rightarrow> string list \<Rightarrow> string \<Rightarrow> string list \<times> bool" where
  "removeOrderFromSlice st [] oid = ([], False)"
| "removeOrderFromSlice st (i # is) oid =
     (if Ord_ID (deref st i) \<noteq> oid
      then (let (rest, found) = removeOrderFromSlice st is oid in (i # rest, found))
      else (is, True))"

section \<open>Stable insertion\<close>

locale slice_order =
  fixes lt :: "'a \<Rightarrow> 'a \<Rightarrow> bool"
  assumes lt_asym: "lt x y \<Longrightarrow> \<not> lt y x"
    and lt_split: "lt x z \<Longrightarrow> lt x y \<or> lt y z"
begin

abbreviation ordered :: "'a list \<Rightarrow> bool" where
  "ordered xs \<equiv> sorted_wrt (\<lambda>x y. \<not> lt y x) xs"

lemma mset_insert_stable: "mset (insert_stable lt x ys) = add_mset x (mset ys)"
  by (induction ys) auto

lemma mset_sliceStable: "mset (sliceStable lt xs) = mset xs"
  by (induction xs) (simp_all add: sliceStable_def mset_insert_stable)

lemma set_insert_stable: "set (insert_stable lt x ys) = insert x (set ys)"
  using arg_cong [OF mset_insert_stable, of set_mset x ys] by simp

lemma set_sliceStable: "set (sliceStable lt xs) = set xs"
  using arg_cong [OF mset_sliceStable, of set_mset xs] by simp

lemma ordered_insert_stable: "ordered ys \<Longrightarrow> ordered (insert_stable lt x ys)"
proof (induction ys)
  case (Cons y ys)
  show ?case
  proof (cases "lt y x")
    case True
    with Cons show ?thesis by (auto simp: set_insert_stable dest: lt_asym)
  next
    case False
    have "\<not> lt z x" if "z \<in> set ys" for z
      using Cons.prems that False lt_split by auto
    with False Cons.prems show ?thesis by auto
  qed
qed simp

lemma ordered_sliceStable: "ordered (sliceStable lt xs)"
  by (induction xs) (simp_all add: sliceStable_def ordered_insert_stable)

lemma insert_stable_front:
  "ordered (x # ys) \<Longrightarrow> insert_stable lt x ys = x # ys"
  by (cases ys) auto

text \<open>
  Appending to an ordered slice and sorting puts the new element behind every element it does
  not precede: the elements before it keep their order, and so do those after it.
\<close>

lemma sliceStable_append:
  "ordered xs \<Longrightarrow> sliceStable lt (xs @ [x]) =
     takeWhile (\<lambda>y. \<not> lt x y) xs @ x # dropWhile (\<lambda>y. \<not> lt x y) xs"
proof (induction xs)
  case (Cons a xs)
  let ?P = "\<lambda>y. \<not> lt x y"
  let ?R = "takeWhile ?P xs @ x # dropWhile ?P xs"
  from Cons have IH: "sliceStable lt (a # xs @ [x]) = insert_stable lt a ?R"
    by (simp add: sliceStable_def)
  show ?case
  proof (cases "lt x a")
    case True
    have "takeWhile ?P xs = []"
    proof (cases xs)
      case (Cons b bs)
      with Cons.prems have "\<not> lt b a" by simp
      with True lt_split have "lt x b" by blast
      with Cons show ?thesis by simp
    qed simp
    moreover from this have "dropWhile ?P xs = xs"
      by (metis append_Nil takeWhile_dropWhile_id)
    moreover have "insert_stable lt a xs = a # xs"
      using Cons.prems by (rule insert_stable_front)
    ultimately show ?thesis using IH True by simp
  next
    case False
    have "\<not> lt r a" if "r \<in> set ?R" for r
      using that Cons.prems False
      by (auto dest: set_takeWhileD set_dropWhileD)
    then have "insert_stable lt a ?R = a # ?R" by (cases ?R) auto
    with IH False show ?thesis by simp
  qed
qed (simp add: sliceStable_def)

end

text \<open>
  A comparison by a rank in a linear order. It is a strict weak order, and sorting with it is the
  stable sort of the HOL library, so what is known of \<^const>\<open>sort_key\<close> holds for the slices.
\<close>

locale ranked =
  fixes lt :: "'a \<Rightarrow> 'a \<Rightarrow> bool" and rank :: "'a \<Rightarrow> 'k :: linorder"
  assumes lt_rank: "lt x y \<longleftrightarrow> rank x < rank y"

sublocale ranked \<subseteq> slice_order lt
  by unfold_locales (auto simp: lt_rank)

context ranked
begin

lemma insert_stable_insort: "insert_stable lt x ys = insort_key rank x ys"
  by (induction ys) (auto simp: lt_rank)

lemma sliceStable_sort: "sliceStable lt xs = sort_key rank xs"
  by (simp add: sliceStable_def sort_key_def insert_stable_insort [abs_def])

lemma ordered_sorted: "ordered xs \<longleftrightarrow> sorted (map rank xs)"
  by (simp add: sorted_wrt_map lt_rank not_less)

lemma ordered_best: "ordered (x # xs) \<longleftrightarrow> ordered xs \<and> (\<forall>y\<in>set xs. rank x \<le> rank y)"
  by (auto simp: lt_rank not_less)

text \<open>Elements of one rank keep the order in which they came: time priority within a price.\<close>

lemma sliceStable_keeps_ties: "filter (\<lambda>x. rank x = k) (sliceStable lt xs) = filter (\<lambda>x. rank x = k) xs"
  by (simp add: sliceStable_sort sort_key_stable)

end

interpretation bid: ranked "bid_less st" "\<lambda>i. - Ord_Price (deref st i)" for st
  by unfold_locales (simp add: bid_less_def)

interpretation ask: ranked "ask_less st" "\<lambda>i. Ord_Price (deref st i)" for st
  by unfold_locales (simp add: ask_less_def)

section \<open>Lemmas on the book operations\<close>

text \<open>An order joins its side behind the orders of its price, and moves no other price level.\<close>

lemma addToBook_level:
  "filter (\<lambda>r. Ord_Price (deref st r) = p) (Bids (addToBook st book i)) =
     filter (\<lambda>r. Ord_Price (deref st r) = p) (Bids book) @
     (if Ord_Side (deref st i) = SideBuy \<and> Ord_Price (deref st i) = p then [i] else [])"
  "filter (\<lambda>r. Ord_Price (deref st r) = p) (Asks (addToBook st book i)) =
     filter (\<lambda>r. Ord_Price (deref st r) = p) (Asks book) @
     (if Ord_Side (deref st i) \<noteq> SideBuy \<and> Ord_Price (deref st i) = p then [i] else [])"
  using bid.sliceStable_keeps_ties [of st "- p"] ask.sliceStable_keeps_ties [of st p]
  by (auto simp: addToBook_def)

lemma removeInvalid_dropWhile:
  "removeInvalid st is = dropWhile (\<lambda>i. front_dead (deref st i)) is"
  by (induction "is") auto

lemma removeInvalid_id: "(\<And>i. i \<in> set is \<Longrightarrow> \<not> front_dead (deref st i)) \<Longrightarrow> removeInvalid st is = is"
  by (cases "is") auto

text \<open>A resting order the incoming one may trade with.\<close>

definition eligible :: "store \<Rightarrow> Order \<Rightarrow> string \<Rightarrow> bool" where
  "eligible st incoming r \<longleftrightarrow>
     \<not> (Ord_Status (deref st r) = StatusFilled \<or> Ord_Status (deref st r) = StatusCanceled \<or>
        Ord_Status (deref st r) = StatusRejected) \<and>
     0 < Ord_RemainingQuantity (deref st r) \<and>
     Ord_UserID (deref st r) \<noteq> Ord_UserID incoming \<and> canMatch incoming (deref st r)"

lemma findCounterparty_from_step:
  "findCounterparty_from st i (r # rs) incoming =
     (if eligible st incoming r then Some i else findCounterparty_from st (Suc i) rs incoming)"
  by (auto simp: eligible_def Let_def)

lemma findCounterparty_from_None:
  "findCounterparty_from st n items incoming = None \<longleftrightarrow> (\<forall>r\<in>set items. \<not> eligible st incoming r)"
  by (induction items arbitrary: n)
    (simp_all add: findCounterparty_from_step del: findCounterparty_from.simps(2))

lemma findCounterparty_from_Some:
  "findCounterparty_from st n items incoming = Some k \<Longrightarrow>
     \<exists>idx. k = n + idx \<and> idx < length items \<and> eligible st incoming (items ! idx) \<and>
       (\<forall>r\<in>set (take idx items). \<not> eligible st incoming r)"
proof (induction items arbitrary: n)
  case (Cons r rs)
  show ?case
  proof (cases "eligible st incoming r")
    case True
    with Cons.prems have "k = n"
      by (simp add: findCounterparty_from_step del: findCounterparty_from.simps(2))
    with True show ?thesis by (intro exI [of _ 0]) simp
  next
    case False
    with Cons.prems have "findCounterparty_from st (Suc n) rs incoming = Some k"
      by (simp add: findCounterparty_from_step del: findCounterparty_from.simps(2))
    from Cons.IH [OF this] obtain idx where "k = Suc n + idx" "idx < length rs"
      "eligible st incoming (rs ! idx)" "\<forall>r\<in>set (take idx rs). \<not> eligible st incoming r"
      by blast
    with False show ?thesis by (intro exI [of _ "Suc idx"]) simp
  qed
qed simp

lemma findCounterparty_None:
  "findCounterparty st items incoming = None \<longleftrightarrow> (\<forall>r\<in>set items. \<not> eligible st incoming r)"
  by (simp add: findCounterparty_def findCounterparty_from_None)

lemma findCounterparty_Some:
  assumes "findCounterparty st items incoming = Some idx"
  shows "idx < length items" "eligible st incoming (items ! idx)"
    "\<forall>r\<in>set (take idx items). \<not> eligible st incoming r"
  using findCounterparty_from_Some [of st 0 items incoming idx] assms
  by (simp_all add: findCounterparty_def)

lemma removeOrderIndex_split:
  "idx < length items \<Longrightarrow> items = take idx items @ items ! idx # drop (Suc idx) items"
  by (simp add: id_take_nth_drop)

lemma removeOrderIndex_set: "set (removeOrderIndex items idx) \<subseteq> set items"
  by (auto simp: removeOrderIndex_def dest: in_set_takeD in_set_dropD)

lemma removeOrderIndex_distinct:
  assumes "distinct items" and "idx < length items"
  shows "distinct (removeOrderIndex items idx)"
    and "set (removeOrderIndex items idx) = set items - {items ! idx}"
proof -
  let ?l = "take idx items" and ?x = "items ! idx" and ?r = "drop (Suc idx) items"
  have split: "items = ?l @ ?x # ?r"
    using assms(2) by (rule removeOrderIndex_split)
  then have "distinct (?l @ ?x # ?r)" and s: "set items = set (?l @ ?x # ?r)"
    using assms(1) by simp_all
  then show "distinct (removeOrderIndex items idx)"
    and "set (removeOrderIndex items idx) = set items - {items ! idx}"
    unfolding removeOrderIndex_def by auto
qed

lemma removeOrderIndex_sorted_wrt:
  "sorted_wrt P items \<Longrightarrow> sorted_wrt P (removeOrderIndex items idx)"
proof -
  assume s: "sorted_wrt P items"
  then have "sorted_wrt P (take idx items @ drop idx items)" by simp
  then have "sorted_wrt P (take idx items)" "sorted_wrt P (drop idx items)"
    "\<forall>x\<in>set (take idx items). \<forall>y\<in>set (drop idx items). P x y"
    unfolding sorted_wrt_append by blast+
  moreover have "set (drop (Suc idx) items) \<subseteq> set (drop idx items)"
    by (rule set_drop_subset_set_drop) simp
  moreover have "sorted_wrt P (drop (Suc idx) items)"
    using s by (rule sorted_wrt_drop)
  ultimately show ?thesis by (auto simp: removeOrderIndex_def sorted_wrt_append)
qed

lemma removeOrderFromSlice_filter:
  assumes "distinct is" and "\<And>i. i \<in> set is \<Longrightarrow> Ord_ID (deref st i) = i"
  shows "removeOrderFromSlice st is oid = (filter (\<lambda>i. i \<noteq> oid) is, oid \<in> set is)"
  using assms
proof (induction "is")
  case (Cons i "is")
  have "filter (\<lambda>j. j \<noteq> i) is = is"
    using Cons.prems(1) by (auto intro!: filter_True)
  with Cons show ?case by auto
qed simp

end
