(* ===== verification/Matching.thy ===== *)
theory Matching
  imports Ledger Order_Book
begin

text \<open>
  The matching loop of \<^verbatim>\<open>internal/engine/engine.go\<close>: \<open>buildTrade\<close>, \<open>executePair\<close>,
  \<open>matchAgainstBook\<close> and the critical section of \<open>matchOrder\<close> (everything it does while it holds
  the engine mutex). The loop is a recursive function whose termination is proved: every round
  that does not leave the loop lowers the remaining quantity of the incoming order.

  The \<open>k\<close>-th trade of a call gets the identifier \<open>tids k\<close> and the time \<open>nows k\<close>, the results of
  the \<open>k\<close>-th call of the UUID generator and of the clock.
\<close>

section \<open>Definitions\<close>

definition go_min :: "int \<Rightarrow> int \<Rightarrow> int" where
  "go_min a b = (if a < b then a else b)"

definition buildTrade :: "string \<Rightarrow> int \<Rightarrow> Order \<Rightarrow> Order \<Rightarrow> int \<Rightarrow> Trade" where
  "buildTrade uuid now taker maker quantity =
     \<lparr>Trd_ID = uuid, Trd_OrderID = Ord_ID taker, Trd_MatchOrderID = Ord_ID maker,
      Trd_EventID = Ord_EventID taker, Trd_Outcome = Ord_Outcome taker,
      Trd_BuyerID = (if Ord_Side taker = SideBuy then Ord_UserID taker else Ord_UserID maker),
      Trd_SellerID = (if Ord_Side taker = SideBuy then Ord_UserID maker else Ord_UserID taker),
      Trd_TakerSide = Ord_Side taker, Trd_Quantity = quantity, Trd_Price = Ord_Price maker,
      Trd_CreatedAt = now\<rparr>"

text \<open>The two statements that book a fill on one order.\<close>

definition add_fill :: "int \<Rightarrow> Order \<Rightarrow> Order" where
  "add_fill q ord =
     ord\<lparr>Ord_RemainingQuantity := i64 (Ord_RemainingQuantity ord - q),
         Ord_FilledQuantity := i64 (Ord_FilledQuantity ord + q)\<rparr>"

definition executePair ::
  "string \<Rightarrow> int \<Rightarrow> store \<Rightarrow> string \<Rightarrow> string \<Rightarrow> string list \<Rightarrow> nat \<Rightarrow> Trade list \<Rightarrow>
     store \<times> string list \<times> Trade list" where
  "executePair uuid now st incoming resting items idx trades =
     (let q = go_min (Ord_RemainingQuantity (deref st incoming))
                     (Ord_RemainingQuantity (deref st resting))
      in if q \<le> 0 then (st, items, trades)
         else
           (let trade = buildTrade uuid now (deref st incoming) (deref st resting) q;
                st1 = modify incoming (add_fill q) st;
                st2 = modify resting (add_fill q) st1
            in if Ord_RemainingQuantity (deref st2 resting) \<le> 0
               then (modify resting
                       (\<lambda>r. r\<lparr>Ord_RemainingQuantity := 0, Ord_Status := StatusFilled\<rparr>) st2,
                     removeOrderIndex items idx, trades @ [trade])
               else (modify resting (\<lambda>r. r\<lparr>Ord_Status := StatusPartial\<rparr>) st2,
                     items, trades @ [trade])))"

text \<open>A found counterparty is another order, and executing the pair makes progress.\<close>

lemma counterparty_ne:
  "findCounterparty st items (deref st inc) = Some idx \<Longrightarrow> items ! idx \<noteq> inc"
  using findCounterparty_Some(2) by (fastforce simp: eligible_def)

lemma Rem_pos_in_store: "0 < Ord_RemainingQuantity (deref st i) \<Longrightarrow> st i \<noteq> None"
  by (auto simp: deref_def zeroOrder_def split: option.splits)

lemma executePair_progress:
  assumes rem: "0 < Ord_RemainingQuantity (deref st inc)"
    and cp: "findCounterparty st items (deref st inc) = Some idx"
  shows "nat (Ord_RemainingQuantity
           (deref (fst (executePair u n st inc (items ! idx) items' idx trades)) inc))
         < nat (Ord_RemainingQuantity (deref st inc))"
proof -
  let ?q = "go_min (Ord_RemainingQuantity (deref st inc))
                   (Ord_RemainingQuantity (deref st (items ! idx)))"
  have ne: "items ! idx \<noteq> inc" using cp by (rule counterparty_ne)
  have q: "0 < ?q" "?q \<le> Ord_RemainingQuantity (deref st inc)"
    using findCounterparty_Some(2) [OF cp] rem by (auto simp: eligible_def go_min_def)
  have "deref (fst (executePair u n st inc (items ! idx) items' idx trades)) inc
      = add_fill ?q (deref st inc)"
    using q(1) ne [symmetric] Rem_pos_in_store [OF rem]
    by (simp add: executePair_def Let_def deref_modify_same)
  moreover have "i64 (Ord_RemainingQuantity (deref st inc) - ?q)
      \<le> Ord_RemainingQuantity (deref st inc) - ?q"
    using q by (intro i64_le) simp
  ultimately show ?thesis using q rem by (simp add: add_fill_def)
qed

lemma executePair_decreases:
  assumes "0 < Ord_RemainingQuantity (deref st inc)"
    and "findCounterparty st items (deref st inc) = Some idx"
    and "(st', rest) = executePair u n st inc (items ! idx) items' idx trades"
  shows "nat (Ord_RemainingQuantity (deref st' inc)) < nat (Ord_RemainingQuantity (deref st inc))"
  using executePair_progress [OF assms(1,2), of u n items' trades] assms(3) [symmetric] by simp

function matchAgainstBook ::
  "(nat \<Rightarrow> string) \<Rightarrow> (nat \<Rightarrow> int) \<Rightarrow> OrderBook \<Rightarrow> store \<Rightarrow> string \<Rightarrow> Trade list \<Rightarrow>
     OrderBook \<times> store \<times> Trade list" where
  "matchAgainstBook tids nows book st incoming trades =
     (if Ord_RemainingQuantity (deref st incoming) > 0 then
        (if Ord_Side (deref st incoming) = SideBuy then
           (let book1 = removeInvalidAsks st book in
            if Asks book1 = [] then (book1, st, trades)
            else
              (case findCounterparty st (Asks book1) (deref st incoming) of
                 None \<Rightarrow> (book1, st, trades)
               | Some idx \<Rightarrow>
                   (case executePair (tids (length trades)) (nows (length trades)) st incoming
                           (Asks book1 ! idx) (Asks book1) idx trades of
                      (st', asks', trades') \<Rightarrow>
                        matchAgainstBook tids nows (book1\<lparr>Asks := asks'\<rparr>) st' incoming trades')))
         else
           (let book1 = removeInvalidBids st book in
            if Bids book1 = [] then (book1, st, trades)
            else
              (case findCounterparty st (Bids book1) (deref st incoming) of
                 None \<Rightarrow> (book1, st, trades)
               | Some idx \<Rightarrow>
                   (case executePair (tids (length trades)) (nows (length trades)) st incoming
                           (Bids book1 ! idx) (Bids book1) idx trades of
                      (st', bids', trades') \<Rightarrow>
                        matchAgainstBook tids nows (book1\<lparr>Bids := bids'\<rparr>) st' incoming trades'))))
      else (book, st, trades))"
  by pat_completeness auto
termination
proof (relation "measure (\<lambda>(tids, nows, book, st, incoming, trades).
    nat (Ord_RemainingQuantity (deref st incoming)))", goal_cases)
  case 1
  then show ?case by simp
next
  case 2
  then show ?case by (simp del: zless_nat_conj) (rule executePair_decreases)
next
  case 3
  then show ?case by (simp del: zless_nat_conj) (rule executePair_decreases)
qed

declare matchAgainstBook.simps [simp del]

text \<open>
  The status an order gets after the loop, and whether the remainder rests on the book: the
  chain of conditions of \<^verbatim>\<open>matchOrder\<close>.
\<close>

definition status_after :: "Order \<Rightarrow> string \<times> bool" where
  "status_after ord =
     (if Ord_RemainingQuantity ord = 0 then (StatusFilled, False)
      else if Ord_FilledQuantity ord > 0 then
        (if Ord_OrderType ord = OrderTypeLimit then (StatusPartial, True)
         else (StatusCanceled, False))
      else
        (if Ord_OrderType ord = OrderTypeMarket then (StatusCanceled, False)
         else (StatusPending, True)))"

text \<open>The critical section of \<^verbatim>\<open>matchOrder\<close>.\<close>

definition matchOrder_locked ::
  "(nat \<Rightarrow> string) \<Rightarrow> (nat \<Rightarrow> int) \<Rightarrow> string \<Rightarrow> Engine \<Rightarrow> Trade list \<times> Engine" where
  "matchOrder_locked tids nows i e =
     (let ord = deref (orders e) i;
          reject = e\<lparr>orders := modify i (\<lambda>r. r\<lparr>Ord_Status := StatusRejected\<rparr>) (orders e)\<rparr>
      in if Ord_Status ord = StatusCanceled then ([], e)
         else
           (case markets e (Ord_EventID ord) of
              None \<Rightarrow> ([], reject)
            | Some market \<Rightarrow>
                (case Book market (Ord_Outcome ord) of
                   None \<Rightarrow> ([], reject)
                 | Some book \<Rightarrow>
                     (let (book1, st1, trades) = matchAgainstBook tids nows book (orders e) i [];
                          (status, rests) = status_after (deref st1 i);
                          st2 = modify i (\<lambda>r. r\<lparr>Ord_Status := status\<rparr>) st1;
                          book2 = (if rests then addToBook st2 book1 i else book1);
                          e1 = e\<lparr>orders := st2,
                                 markets := (markets e)
                                   (Ord_EventID ord \<mapsto> setBook market (Ord_Outcome ord) book2)\<rparr>;
                          e2 = fold settleTradeLocked trades e1;
                          e3 = (if status = StatusFilled \<or> status = StatusCanceled
                                then releaseOrderLocked i e2 else e2)
                      in (trades, e3)))))"

end
