(* ===== verification/Matching_Spec.thy ===== *)
theory Matching_Spec
  imports Matching
begin

text \<open>
  The specification of the matching loop and its refinement. \<open>fills\<close> is the greedy allocation:
  the quantity is handed to the candidates one after the other, each getting as much as it can
  take. \<open>matchAgainstBook\<close> computes exactly this allocation over the eligible orders of the
  opposite side in book order, books it on the store (\<open>after_fills\<close>), drops the makers that are
  used up, and reports one trade per fill.
\<close>

section \<open>The greedy allocation\<close>

fun fills :: "int \<Rightarrow> (string \<times> int) list \<Rightarrow> (string \<times> int) list" where
  "fills q [] = []"
| "fills q ((r, m) # rs) = (if q \<le> 0 then [] else (r, min q m) # fills (q - min q m) rs)"

definition taker_fill :: "int \<Rightarrow> Order \<Rightarrow> Order" where
  "taker_fill q ord =
     ord\<lparr>Ord_RemainingQuantity := Ord_RemainingQuantity ord - q,
         Ord_FilledQuantity := Ord_FilledQuantity ord + q\<rparr>"

definition maker_fill :: "int \<Rightarrow> Order \<Rightarrow> Order" where
  "maker_fill q ord =
     ord\<lparr>Ord_RemainingQuantity := Ord_RemainingQuantity ord - q,
         Ord_FilledQuantity := Ord_FilledQuantity ord + q,
         Ord_Status := (if Ord_RemainingQuantity ord = q then StatusFilled else StatusPartial)\<rparr>"

definition fill_total :: "(string \<times> int) list \<Rightarrow> int" where
  "fill_total F = sum_list (map snd F)"

definition after_fills :: "string \<Rightarrow> (string \<times> int) list \<Rightarrow> store \<Rightarrow> store" where
  "after_fills inc F st =
     (\<lambda>i. if i = inc then map_option (taker_fill (fill_total F)) (st i)
          else (case map_of F i of None \<Rightarrow> st i | Some q \<Rightarrow> map_option (maker_fill q) (st i)))"

text \<open>The trades of an allocation, numbered from \<open>n\<close>.\<close>

fun trades_of ::
  "(nat \<Rightarrow> string) \<Rightarrow> (nat \<Rightarrow> int) \<Rightarrow> nat \<Rightarrow> store \<Rightarrow> Order \<Rightarrow> (string \<times> int) list \<Rightarrow> Trade list" where
  "trades_of tids nows n st taker [] = []"
| "trades_of tids nows n st taker ((r, q) # F) =
     buildTrade (tids n) (nows n) taker (deref st r) q # trades_of tids nows (Suc n) st taker F"

text \<open>The candidates of an incoming order, in the order of the book side.\<close>

definition candidates :: "store \<Rightarrow> Order \<Rightarrow> string list \<Rightarrow> (string \<times> int) list" where
  "candidates st incoming items =
     map (\<lambda>r. (r, Ord_RemainingQuantity (deref st r))) (filter (eligible st incoming) items)"

section \<open>Well-formed orders and book sides\<close>

definition quantities_ok :: "Order \<Rightarrow> bool" where
  "quantities_ok ord \<longleftrightarrow> 0 \<le> Ord_RemainingQuantity ord \<and> 0 \<le> Ord_FilledQuantity ord \<and>
     Ord_FilledQuantity ord + Ord_RemainingQuantity ord = Ord_Quantity ord \<and>
     Ord_Quantity ord \<le> max_i64"

definition live :: "Order \<Rightarrow> bool" where
  "live ord \<longleftrightarrow> (Ord_Status ord = StatusPending \<or> Ord_Status ord = StatusPartial) \<and>
     0 < Ord_RemainingQuantity ord"

definition side_ok :: "store \<Rightarrow> string list \<Rightarrow> bool" where
  "side_ok st items \<longleftrightarrow> distinct items \<and>
     (\<forall>r\<in>set items. \<exists>ord. st r = Some ord \<and> quantities_ok ord \<and> live ord)"

text \<open>The side of the book an order of the given side is matched against.\<close>

definition opposite :: "string \<Rightarrow> OrderBook \<Rightarrow> string list" where
  "opposite s book = (if s = SideBuy then Asks book else Bids book)"

definition set_opposite :: "string \<Rightarrow> string list \<Rightarrow> OrderBook \<Rightarrow> OrderBook" where
  "set_opposite s items book =
     (if s = SideBuy then book\<lparr>Asks := items\<rparr> else book\<lparr>Bids := items\<rparr>)"

lemma opposite_set [simp]: "opposite s (set_opposite s items book) = items"
  by (simp add: opposite_def set_opposite_def)

lemma set_opposite_twice [simp]:
  "set_opposite s items (set_opposite s items' book) = set_opposite s items book"
  by (simp add: set_opposite_def)

lemma set_opposite_id [simp]: "set_opposite s (opposite s book) book = book"
  by (cases book) (simp add: opposite_def set_opposite_def)

section \<open>Facts on the allocation\<close>

lemma fills_nonpos: "q \<le> 0 \<Longrightarrow> fills q rs = []"
  by (cases rs) auto

lemma fills_keys: "fst ` set (fills q rs) \<subseteq> fst ` set rs"
  by (induction q rs rule: fills.induct) auto

lemma fills_distinct: "distinct (map fst rs) \<Longrightarrow> distinct (map fst (fills q rs))"
proof (induction q rs rule: fills.induct)
  case (2 q r m rs)
  have "r \<notin> fst ` set (fills (q - min q m) rs)"
    using fills_keys [of "q - min q m" rs] 2(2) by auto
  with 2 show ?case by simp
qed simp

lemma fills_bounds:
  "(r, n) \<in> set (fills q rs) \<Longrightarrow> \<forall>(r, m)\<in>set rs. 0 < m \<Longrightarrow> 0 < n \<and> n \<le> q"
  by (induction q rs rule: fills.induct) (force split: if_splits)+

lemma fills_le_avail: "(r, n) \<in> set (fills q rs) \<Longrightarrow> \<exists>m. (r, m) \<in> set rs \<and> n \<le> m"
  by (induction q rs rule: fills.induct) (auto split: if_splits)

lemma fill_total_simps [simp]:
  "fill_total [] = 0" "fill_total ((r, q) # F) = q + fill_total F"
  by (simp_all add: fill_total_def)

lemma fill_total_nonneg: "(\<And>r m. (r, m) \<in> set F \<Longrightarrow> 0 \<le> m) \<Longrightarrow> 0 \<le> fill_total F"
  unfolding fill_total_def by (rule sum_list_nonneg) auto

lemma fill_total_fills:
  "0 \<le> q \<Longrightarrow> \<forall>(r, m)\<in>set rs. 0 < m \<Longrightarrow> fill_total (fills q rs) = min q (fill_total rs)"
proof (induction q rs rule: fills.induct)
  case (2 q r m rs)
  have "0 \<le> fill_total rs"
    using 2(3) by (intro fill_total_nonneg) fastforce
  with 2 show ?case by (auto simp: min_def)
qed simp

text \<open>
  Priority: a candidate that comes before one that is served is served completely, and if the
  quantity is not used up, every candidate is.
\<close>

lemma fills_priority:
  assumes "distinct (map fst rs)" and "rs = xs @ (r, m) # ys" and "(r', n) \<in> set (fills q rs)"
    and "r' \<in> fst ` set ys" and "\<forall>(r, m)\<in>set rs. 0 < m"
  shows "(r, m) \<in> set (fills q rs)"
  using assms
proof (induction xs arbitrary: rs q)
  case Nil
  have "r' \<noteq> r" using Nil by auto
  with Nil have rest: "(r', n) \<in> set (fills (q - min q m) ys)" and q: "0 < q"
    by (auto split: if_splits)
  have "0 < q - min q m"
    using rest fills_nonpos [of "q - min q m" ys] by (cases "q - min q m \<le> 0") auto
  then have "min q m = m" by auto
  with Nil q show ?case by auto
next
  case (Cons x xs)
  obtain a k where x: "x = (a, k)" by (cases x)
  have "r' \<noteq> a" using Cons.prems x by auto
  with Cons.prems x have "(r', n) \<in> set (fills (q - min q k) (xs @ (r, m) # ys))" "0 < q"
    by (auto split: if_splits)
  with Cons.IH [of "xs @ (r, m) # ys" "q - min q k"] Cons.prems x show ?case by auto
qed

lemma fills_exhausted:
  "fill_total (fills q rs) < q \<Longrightarrow> \<forall>(r, m)\<in>set rs. 0 < m \<Longrightarrow> fills q rs = rs"
proof (induction q rs rule: fills.induct)
  case (2 q r m rs)
  show ?case
  proof (cases "q \<le> 0")
    case True
    with 2 show ?thesis by simp
  next
    case False
    have "0 \<le> fill_total (fills (q - min q m) rs)"
    proof (rule fill_total_nonneg)
      fix a n assume "(a, n) \<in> set (fills (q - min q m) rs)"
      with fills_bounds [of a n "q - min q m" rs] 2(3) show "0 \<le> n" by simp
    qed
    with 2(2) False have "min q m = m" by auto
    with 2 False show ?thesis by auto
  qed
qed simp

section \<open>One round of the loop\<close>

lemma removeInvalid_side: "side_ok st items \<Longrightarrow> removeInvalid st items = items"
  by (intro removeInvalid_id) (fastforce simp: side_ok_def live_def front_dead_def)

lemma findCounterparty_Nil [simp]: "findCounterparty st [] inc = None"
  by (simp add: findCounterparty_def)

text \<open>The two branches of the loop body are the same code on the two sides of the book.\<close>

lemma matchAgainstBook_step:
  "matchAgainstBook tids nows book st inc trades =
     (let s = Ord_Side (deref st inc); items = removeInvalid st (opposite s book);
          book1 = set_opposite s items book
      in if 0 < Ord_RemainingQuantity (deref st inc) then
           (case findCounterparty st items (deref st inc) of
              None \<Rightarrow> (book1, st, trades)
            | Some idx \<Rightarrow>
                (case executePair (tids (length trades)) (nows (length trades)) st inc
                        (items ! idx) items idx trades of
                   (st', items', trades') \<Rightarrow>
                     matchAgainstBook tids nows (set_opposite s items' book) st' inc trades'))
         else (book, st, trades))"
  by (subst matchAgainstBook.simps)
    (auto simp: Let_def opposite_def set_opposite_def removeInvalidAsks_def removeInvalidBids_def
      split: option.split prod.split)

lemma executePair_exact:
  assumes st: "st inc = Some t" "st r = Some m" and ne: "r \<noteq> inc"
    and t: "quantities_ok t" "0 < Ord_RemainingQuantity t"
    and m: "quantities_ok m" "0 < Ord_RemainingQuantity m"
  defines "q \<equiv> min (Ord_RemainingQuantity t) (Ord_RemainingQuantity m)"
  shows "executePair u n st inc r items idx trades =
    (st(inc \<mapsto> taker_fill q t, r \<mapsto> maker_fill q m),
     if Ord_RemainingQuantity m = q then removeOrderIndex items idx else items,
     trades @ [buildTrade u n t m q])"
proof -
  have g: "go_min (Ord_RemainingQuantity t) (Ord_RemainingQuantity m) = q"
    by (simp add: q_def go_min_def min_def)
  have q: "0 < q" "q \<le> Ord_RemainingQuantity t" "q \<le> Ord_RemainingQuantity m"
    using t m by (simp_all add: q_def)
  have "add_fill q t = taker_fill q t" "add_fill q m = m\<lparr>Ord_RemainingQuantity :=
      Ord_RemainingQuantity m - q, Ord_FilledQuantity := Ord_FilledQuantity m + q\<rparr>"
    using t m q by (simp_all add: add_fill_def taker_fill_def quantities_ok_def)
  with st ne g q show ?thesis
    by (auto simp: executePair_def Let_def modify_Some maker_fill_def)
qed

section \<open>The refinement\<close>

lemma taker_fill_0 [simp]: "taker_fill 0 ord = ord"
  by (simp add: taker_fill_def)

lemma taker_fill_twice [simp]: "taker_fill a (taker_fill b ord) = taker_fill (b + a) ord"
  by (simp add: taker_fill_def)

lemma taker_fill_fields [simp]:
  "Ord_ID (taker_fill q ord) = Ord_ID ord" "Ord_EventID (taker_fill q ord) = Ord_EventID ord"
  "Ord_UserID (taker_fill q ord) = Ord_UserID ord" "Ord_Side (taker_fill q ord) = Ord_Side ord"
  "Ord_OrderType (taker_fill q ord) = Ord_OrderType ord"
  "Ord_Outcome (taker_fill q ord) = Ord_Outcome ord" "Ord_Price (taker_fill q ord) = Ord_Price ord"
  "Ord_Status (taker_fill q ord) = Ord_Status ord" "Ord_Quantity (taker_fill q ord) = Ord_Quantity ord"
  "Ord_LockedFunds (taker_fill q ord) = Ord_LockedFunds ord"
  "Ord_RemainingQuantity (taker_fill q ord) = Ord_RemainingQuantity ord - q"
  "Ord_FilledQuantity (taker_fill q ord) = Ord_FilledQuantity ord + q"
  by (simp_all add: taker_fill_def)

lemma maker_fill_fields [simp]:
  "Ord_ID (maker_fill q ord) = Ord_ID ord" "Ord_EventID (maker_fill q ord) = Ord_EventID ord"
  "Ord_UserID (maker_fill q ord) = Ord_UserID ord" "Ord_Side (maker_fill q ord) = Ord_Side ord"
  "Ord_OrderType (maker_fill q ord) = Ord_OrderType ord"
  "Ord_Outcome (maker_fill q ord) = Ord_Outcome ord" "Ord_Price (maker_fill q ord) = Ord_Price ord"
  "Ord_Quantity (maker_fill q ord) = Ord_Quantity ord"
  "Ord_LockedFunds (maker_fill q ord) = Ord_LockedFunds ord"
  "Ord_RemainingQuantity (maker_fill q ord) = Ord_RemainingQuantity ord - q"
  "Ord_FilledQuantity (maker_fill q ord) = Ord_FilledQuantity ord + q"
  by (simp_all add: maker_fill_def)

lemma quantities_ok_fill:
  "quantities_ok ord \<Longrightarrow> 0 \<le> q \<Longrightarrow> q \<le> Ord_RemainingQuantity ord \<Longrightarrow>
     quantities_ok (taker_fill q ord) \<and> quantities_ok (maker_fill q ord)"
  by (simp add: quantities_ok_def)

lemma buildTrade_taker_fill [simp]: "buildTrade u n (taker_fill q t) m = buildTrade u n t m"
  by (simp add: buildTrade_def fun_eq_iff)

lemma eligible_taker_fill [simp]: "eligible st (taker_fill q t) = eligible st t"
  by (simp add: eligible_def canMatch_def fun_eq_iff)

lemma eligible_upd: "r \<noteq> i \<Longrightarrow> eligible (st(i \<mapsto> x)) t r = eligible st t r"
  by (simp add: eligible_def)

lemma filter_eligible_upd:
  "inc \<notin> set items \<Longrightarrow> r \<notin> set items \<Longrightarrow>
     filter (eligible (st(inc \<mapsto> x, r \<mapsto> y)) t) items = filter (eligible st t) items"
  by (induction items) (auto simp: eligible_upd)

lemma candidates_upd:
  "inc \<notin> set items \<Longrightarrow> r \<notin> set items \<Longrightarrow>
     candidates (st(inc \<mapsto> x, r \<mapsto> y)) t items = candidates st t items"
  unfolding candidates_def by (induction items) (auto simp: eligible_upd)

lemma candidates_append: "candidates st t (xs @ ys) = candidates st t xs @ candidates st t ys"
  by (simp add: candidates_def)

lemma candidates_none: "filter (eligible st t) xs = [] \<Longrightarrow> candidates st t xs = []"
  by (simp add: candidates_def)

lemma candidates_keys: "fst ` set (candidates st t items) \<subseteq> set items"
  by (auto simp: candidates_def)

lemma candidates_pos: "\<forall>(r, m)\<in>set (candidates st t items). 0 < m"
  by (auto simp: candidates_def eligible_def)

lemma candidates_distinct: "distinct items \<Longrightarrow> distinct (map fst (candidates st t items))"
  by (simp add: candidates_def comp_def)

lemma candidates_taker_fill [simp]: "candidates st (taker_fill q t) = candidates st t"
  by (simp add: candidates_def fun_eq_iff)

lemma after_fills_Nil [simp]: "after_fills inc [] st = st"
  by (auto simp: after_fills_def fun_eq_iff map_option_case split: option.split)

lemma after_fills_Cons:
  assumes "st inc = Some t" "st r = Some m" "r \<noteq> inc" "r \<notin> fst ` set F" "inc \<notin> fst ` set F"
  shows "after_fills inc ((r, q) # F) st =
    after_fills inc F (st(inc \<mapsto> taker_fill q t, r \<mapsto> maker_fill q m))"
proof -
  have "map_of F r = None" "map_of F inc = None"
    using assms(4,5) by (simp_all add: map_of_eq_None_iff)
  with assms(1-3) show ?thesis
    by (auto simp: after_fills_def fun_eq_iff split: option.split)
qed

lemma trades_of_upd:
  "inc \<notin> fst ` set F \<Longrightarrow> r \<notin> fst ` set F \<Longrightarrow>
     trades_of tids nows n (st(inc \<mapsto> x, r \<mapsto> y)) (taker_fill q t) F = trades_of tids nows n st t F"
  by (induction F arbitrary: n) (auto simp: image_iff)

lemma deref_after_fills_other:
  "i \<noteq> inc \<Longrightarrow> i \<notin> fst ` set F \<Longrightarrow> deref (after_fills inc F st) i = deref st i"
  by (simp add: after_fills_def deref_def map_of_eq_None_iff [THEN iffD2])

lemma side_ok_upd:
  "side_ok st items \<Longrightarrow> inc \<notin> set items \<Longrightarrow> r \<notin> set items \<Longrightarrow> side_ok (st(inc \<mapsto> x, r \<mapsto> y)) items"
  by (auto simp: side_ok_def)

lemma side_ok_keep: "side_ok st items \<Longrightarrow> filter (\<lambda>r. 0 < Ord_RemainingQuantity (deref st r)) items = items"
  by (rule filter_True) (fastforce simp: side_ok_def live_def)

text \<open>The loop finds the first candidate, and one round books one fill on it.\<close>

lemma first_candidate:
  assumes "filter (eligible st t) items = r # E"
  obtains xs ys idx where "findCounterparty st items t = Some idx" "items = xs @ r # ys"
    "items ! idx = r" "removeOrderIndex items idx = xs @ ys"
    "filter (eligible st t) xs = []" "eligible st t r" "E = filter (eligible st t) ys"
proof -
  obtain idx where idx: "findCounterparty st items t = Some idx"
    using assms findCounterparty_None [of st items t]
    by (cases "findCounterparty st items t") (auto simp: filter_empty_conv [symmetric])
  note cp = findCounterparty_Some [OF idx]
  let ?xs = "take idx items" and ?ys = "drop (Suc idx) items"
  have split: "items = ?xs @ items ! idx # ?ys"
    using cp(1) by (rule removeOrderIndex_split)
  have nx: "filter (eligible st t) ?xs = []" using cp(3) by (simp add: filter_empty_conv)
  have "filter (eligible st t) (?xs @ items ! idx # ?ys) = items ! idx # filter (eligible st t) ?ys"
    using nx cp(2) by simp
  with assms split have "items ! idx = r" "E = filter (eligible st t) ?ys" by simp_all
  with idx split nx cp(2) show thesis
    by (intro that [of idx ?xs ?ys]) (simp_all add: removeOrderIndex_def)
qed

lemma matchAgainstBook_round:
  assumes st: "st inc = Some t" "st r = Some m" and ne: "r \<noteq> inc"
    and t: "quantities_ok t" "0 < Ord_RemainingQuantity t" and m: "quantities_ok m" "live m"
    and side: "s = Ord_Side t" "side_ok st (opposite s book)"
    and cp: "findCounterparty st (opposite s book) t = Some idx" "opposite s book ! idx = r"
  defines "q \<equiv> min (Ord_RemainingQuantity t) (Ord_RemainingQuantity m)"
  shows "matchAgainstBook tids nows book st inc trades =
    matchAgainstBook tids nows
      (set_opposite s (if Ord_RemainingQuantity m = q then removeOrderIndex (opposite s book) idx
                       else opposite s book) book)
      (st(inc \<mapsto> taker_fill q t, r \<mapsto> maker_fill q m)) inc
      (trades @ [buildTrade (tids (length trades)) (nows (length trades)) t m q])"
proof -
  have "0 < Ord_RemainingQuantity m" using m(2) by (simp add: live_def)
  from executePair_exact [OF st ne t m(1) this,
      of "tids (length trades)" "nows (length trades)" "opposite s book" idx trades]
  show ?thesis
    using st t side cp unfolding q_def
    by (subst matchAgainstBook_step) (simp add: removeInvalid_side Let_def)
qed

text \<open>A maker that is not used up ends the loop.\<close>

lemma partial_fill_keeps:
  assumes "side_ok st items" and "inc \<notin> set items" and "0 < Ord_RemainingQuantity m - q"
  shows "filter (\<lambda>x. 0 < Ord_RemainingQuantity (deref (st(inc \<mapsto> t, r \<mapsto> maker_fill q m)) x)) items
    = items"
  using assms by (intro filter_True) (auto simp: side_ok_def live_def)

lemma matchAgainstBook_done:
  "st inc = Some t \<Longrightarrow> Ord_RemainingQuantity t \<le> 0 \<Longrightarrow>
     matchAgainstBook tids nows book st inc trades = (book, st, trades)"
  by (subst matchAgainstBook_step) (simp add: Let_def)

lemma side_ok_split:
  assumes "side_ok st (xs @ r # ys)" and "inc \<notin> set (xs @ r # ys)"
  shows "side_ok (st(inc \<mapsto> x, r \<mapsto> y)) (xs @ ys)" "r \<notin> set (xs @ ys)" "inc \<notin> set (xs @ ys)"
    "r \<noteq> inc" "\<exists>m. st r = Some m \<and> quantities_ok m \<and> live m"
  using assms by (auto simp: side_ok_def)

text \<open>
  The first fill of an allocation, the store and the trades it leaves for the fills behind it, and
  the candidates that stay when the maker leaves the book.
\<close>

lemma fills_first:
  assumes "filter (eligible st t) xs = []" "eligible st t r" "st r = Some m" and "0 < n"
  defines "q \<equiv> min n (Ord_RemainingQuantity m)"
  shows "fills n (candidates st t (xs @ r # ys)) = (r, q) # fills (n - q) (candidates st t ys)"
  using assms by (simp add: candidates_append candidates_none) (simp add: candidates_def)

lemma fills_avoid: "r \<notin> set ys \<Longrightarrow> r \<notin> fst ` set (fills n (candidates st t ys))"
  using fills_keys [of n "candidates st t ys"] candidates_keys [of st t ys] by auto

lemma allocation_first:
  fixes n q :: int
  assumes "st inc = Some t" "st r = Some m" "r \<noteq> inc" and "r \<notin> set ys" "inc \<notin> set ys"
  defines "G \<equiv> fills n (candidates st t ys)" and "st' \<equiv> st(inc \<mapsto> taker_fill q t, r \<mapsto> maker_fill q m)"
  shows "after_fills inc ((r, q) # G) st = after_fills inc G st'"
    and "trades_of tids nows k st t ((r, q) # G) =
      buildTrade (tids k) (nows k) t m q # trades_of tids nows (Suc k) st' (taker_fill q t) G"
proof -
  note k = fills_avoid [OF assms(4), of n st t, folded G_def]
    fills_avoid [OF assms(5), of n st t, folded G_def]
  show "after_fills inc ((r, q) # G) st = after_fills inc G st'"
    unfolding st'_def by (rule after_fills_Cons [OF assms(1-3) k])
  show "trades_of tids nows k st t ((r, q) # G) =
      buildTrade (tids k) (nows k) t m q # trades_of tids nows (Suc k) st' (taker_fill q t) G"
    using trades_of_upd [OF k(2,1)] assms(2) unfolding st'_def by simp
qed

lemma candidates_left:
  fixes q :: int and x :: Order
  assumes "filter (eligible st t) xs = []" and "inc \<notin> set (xs @ ys)" "r \<notin> set (xs @ ys)"
  defines "st' \<equiv> st(inc \<mapsto> taker_fill q t, r \<mapsto> x)"
  shows "filter (eligible st' (taker_fill q t)) (xs @ ys) = filter (eligible st t) ys"
    and "candidates st' (taker_fill q t) (xs @ ys) = candidates st t ys"
  using filter_eligible_upd [OF assms(2,3)] candidates_upd [OF assms(2,3)] assms(1)
  unfolding st'_def by (simp_all add: candidates_append candidates_none)

lemma matchAgainstBook_refines:
  assumes "st inc = Some t" and "quantities_ok t" and "s = Ord_Side t"
    and "side_ok st (opposite s book)" and "inc \<notin> set (opposite s book)"
    and "F = fills (Ord_RemainingQuantity t) (candidates st t (opposite s book))"
  shows "matchAgainstBook tids nows book st inc trades =
    (set_opposite s (filter (\<lambda>r. 0 < Ord_RemainingQuantity (deref (after_fills inc F st) r))
                      (opposite s book)) book,
     after_fills inc F st,
     trades @ trades_of tids nows (length trades) st t F)"
  using assms
proof (induction "filter (eligible st t) (opposite s book)" arbitrary: st t book trades F)
  case Nil
  then have "F = []" by (simp add: candidates_none)
  moreover have "findCounterparty st (opposite s book) t = None"
    using Nil(1) by (simp add: findCounterparty_None filter_empty_conv [symmetric])
  ultimately show ?case
    using Nil by (subst matchAgainstBook_step)
      (simp add: removeInvalid_side side_ok_keep Let_def)
next
  case (Cons r E)
  show ?case
  proof (cases "0 < Ord_RemainingQuantity t")
    case False
    with Cons.prems(6) have "F = []" by (simp add: fills_nonpos)
    with False Cons.prems show ?thesis by (simp add: matchAgainstBook_done side_ok_keep)
  next
    case True
    from first_candidate [OF Cons.hyps(2) [symmetric]] obtain xs ys idx where
      cp: "findCounterparty st (opposite s book) t = Some idx" "opposite s book ! idx = r"
      and its: "opposite s book = xs @ r # ys" "removeOrderIndex (opposite s book) idx = xs @ ys"
      and el: "filter (eligible st t) xs = []" "eligible st t r" "E = filter (eligible st t) ys" .
    note split = side_ok_split [OF Cons.prems(4,5) [unfolded its(1)]]
    from split(5) obtain m where m: "st r = Some m" "quantities_ok m" "live m" by blast
    let ?q = "min (Ord_RemainingQuantity t) (Ord_RemainingQuantity m)"
    let ?st = "st(inc \<mapsto> taker_fill ?q t, r \<mapsto> maker_fill ?q m)"
    let ?F = "fills (Ord_RemainingQuantity t - ?q) (candidates st t ys)"
    note round = matchAgainstBook_round [OF Cons.prems(1) m(1) split(4) Cons.prems(2) True m(2,3)
        Cons.prems(3,4) cp, of tids nows trades, unfolded its(2)]
    have F: "F = (r, ?q) # ?F" using fills_first [OF el(1,2) m(1) True] Cons.prems(6) its(1) by simp
    have new: "r \<notin> set ys" "inc \<notin> set ys" using split(2,3) by simp_all
    note first = allocation_first [OF Cons.prems(1) m(1) split(4) new,
        where n = "Ord_RemainingQuantity t - ?q" and q = ?q, folded F]
    show ?thesis
    proof (cases "Ord_RemainingQuantity m = ?q")
      case full: True
      have "quantities_ok (taker_fill ?q t)"
        using quantities_ok_fill [of t ?q] Cons.prems(2) True m(3) by (simp add: live_def)
      moreover have "Ord_RemainingQuantity (deref (after_fills inc ?F ?st) r) = 0"
        using full split(4) fills_avoid [OF new(1)] by (simp add: deref_after_fills_other)
      ultimately show ?thesis
        unfolding round its(1) first
        using Cons.hyps(1) [where st = ?st and t = "taker_fill ?q t"
            and book = "set_opposite s (xs @ ys) book" and F = ?F]
          candidates_left [OF el(1) split(3,2)] el(3) split(1,3,4) Cons.prems(3) full by simp
    next
      case False
      then have "?F = []" "Ord_RemainingQuantity (taker_fill ?q t) \<le> 0"
        "0 < Ord_RemainingQuantity m - ?q" by (auto simp: fills_nonpos)
      with False split(4) show ?thesis
        using matchAgainstBook_done [of ?st] partial_fill_keeps [OF Cons.prems(4,5)]
        unfolding round first by simp
    qed
  qed
qed

section \<open>Consequences\<close>

lemma trades_of_nth:
  "length (trades_of tids nows n st t F) = length F"
  "k < length F \<Longrightarrow> trades_of tids nows n st t F ! k =
     buildTrade (tids (n + k)) (nows (n + k)) t (deref st (fst (F ! k))) (snd (F ! k))"
proof -
  show "length (trades_of tids nows n st t F) = length F"
    by (induction F arbitrary: n) auto
  show "k < length F \<Longrightarrow> trades_of tids nows n st t F ! k =
     buildTrade (tids (n + k)) (nows (n + k)) t (deref st (fst (F ! k))) (snd (F ! k))"
  proof (induction F arbitrary: n k)
    case (Cons f F)
    then show ?case by (cases f; cases k) auto
  qed simp
qed

lemma set_trades_ofD:
  "tr \<in> set (trades_of tids nows n st t F) \<Longrightarrow>
     \<exists>k r q. (r, q) \<in> set F \<and> tr = buildTrade (tids k) (nows k) t (deref st r) q"
  by (induction F arbitrary: n) fastforce+

text \<open>The candidate that got a fill, with the bounds of the fill.\<close>

lemma fill_of_candidate:
  assumes "(r, q) \<in> set (fills n (candidates st t items))"
  shows "r \<in> set items" "eligible st t r" "0 < q" "q \<le> n" "q \<le> Ord_RemainingQuantity (deref st r)"
  using fills_bounds [OF assms candidates_pos] fills_le_avail [OF assms]
  by (auto simp: candidates_def)

text \<open>The store after an allocation on a well-formed side.\<close>

lemma after_fills_lookup:
  assumes "distinct items" and "(r, q) \<in> set (fills n (candidates st t items))" and "r \<noteq> inc"
  shows "after_fills inc (fills n (candidates st t items)) st r = map_option (maker_fill q) (st r)"
  using assms fills_distinct [OF candidates_distinct [OF assms(1)]]
  by (simp add: after_fills_def)

lemma after_fills_inc:
  "st inc = Some t \<Longrightarrow> after_fills inc F st inc = Some (taker_fill (fill_total F) t)"
  by (simp add: after_fills_def)

lemma dom_after_fills: "dom (after_fills inc F st) = dom st"
  by (auto simp: after_fills_def split: if_splits option.splits)

lemma fill_total_le:
  "0 \<le> n \<Longrightarrow> fill_total (fills n (candidates st t items)) \<le> n"
  "0 \<le> n \<Longrightarrow> 0 \<le> fill_total (fills n (candidates st t items))"
proof -
  assume n: "0 \<le> n"
  have "0 \<le> fill_total (candidates st t items)"
    using candidates_pos [of st t items] by (intro fill_total_nonneg) fastforce
  with fill_total_fills [OF n candidates_pos, of st t items] n
  show "fill_total (fills n (candidates st t items)) \<le> n"
    "0 \<le> fill_total (fills n (candidates st t items))" by simp_all
qed

text \<open>A maker that keeps a remainder uses up the taker.\<close>

lemma leftover_means_done:
  assumes "eligible st t r" and "r \<in> set items" and "0 \<le> n"
    and "(r, Ord_RemainingQuantity (deref st r)) \<notin> set (fills n (candidates st t items))"
  shows "fill_total (fills n (candidates st t items)) = n"
proof (rule ccontr)
  assume "\<not> ?thesis"
  with fill_total_le(1) [OF assms(3), of st t items]
  have "fills n (candidates st t items) = candidates st t items"
    by (intro fills_exhausted candidates_pos) simp
  with assms(1,2,4) show False by (simp add: candidates_def)
qed

end
