(* ===== verification/Ledger_Invariant.thy ===== *)
theory Ledger_Invariant
  imports Ledger
begin

text \<open>
  The invariant of the ledger. Entries are never negative, the totals of cash and of shares fit
  into 64 bits, and what an account has reserved covers the \<^verbatim>\<open>LockedFunds\<close> of its orders:
  a BUY locks cash of its user, a SELL locks shares of its position. Under it none of the wrapped
  or clamped subtractions of \<^verbatim>\<open>ledger.go\<close> loses anything, so the operations move amounts exactly.

  \<open>escrow_book\<close> extends the account locale to a map of accounts: totals are kept by a freeze, a
  release, and by a consumption paired with a credit, in either order. It is interpreted for the
  balances and for the positions.
\<close>

section \<open>Maps of accounts\<close>

locale escrow_book = escrow av rs freeze consume credit thaw
  for av rs :: "'a \<Rightarrow> int" and freeze consume credit thaw :: "int \<Rightarrow> 'a \<Rightarrow> 'a" +
  fixes zero :: 'a
  assumes av_zero: "av zero = 0" and rs_zero: "rs zero = 0"
begin

definition entry :: "('k \<rightharpoonup> 'a) \<Rightarrow> 'k \<Rightarrow> 'a" where
  "entry m k = (case m k of None \<Rightarrow> zero | Some a \<Rightarrow> a)"

definition holdings :: "'a \<Rightarrow> int" where
  "holdings a = av a + rs a"

definition total :: "('k \<rightharpoonup> 'a) \<Rightarrow> int" where
  "total m = sum_map holdings m"

definition accounts_ok :: "('k \<rightharpoonup> 'a) \<Rightarrow> bool" where
  "accounts_ok m \<longleftrightarrow> finite (dom m) \<and> (\<forall>k a. m k = Some a \<longrightarrow> 0 \<le> av a \<and> 0 \<le> rs a) \<and>
     total m \<le> max_i64"

lemma entry_upd: "entry (m(k \<mapsto> a)) j = (if j = k then a else entry m j)"
  by (simp add: entry_def)

lemma entry_nonneg: "accounts_ok m \<Longrightarrow> 0 \<le> av (entry m k) \<and> 0 \<le> rs (entry m k)"
  by (auto simp: entry_def accounts_ok_def av_zero rs_zero split: option.split)

lemma total_upd:
  "finite (dom m) \<Longrightarrow> total (m(k \<mapsto> a)) = total m - holdings (entry m k) + holdings a"
  by (cases "m k") (simp_all add: total_def sum_map_upd entry_def holdings_def av_zero rs_zero)

lemma accounts_ok_finite: "accounts_ok m \<Longrightarrow> finite (dom m)"
  by (simp add: accounts_ok_def)

lemma holdings_nonneg: "accounts_ok m \<Longrightarrow> 0 \<le> holdings (entry m k)"
  using entry_nonneg [of m k] by (simp add: holdings_def)

lemma entry_le_total: "accounts_ok m \<Longrightarrow> holdings (entry m k) \<le> total m"
proof (cases "m k")
  case None
  assume "accounts_ok m"
  then have "0 \<le> total m"
    unfolding total_def by (intro sum_map_nonneg) (auto simp: accounts_ok_def holdings_def)
  with None show ?thesis by (simp add: entry_def holdings_def av_zero rs_zero)
next
  case (Some a)
  assume "accounts_ok m"
  then have "holdings a \<le> total m"
    unfolding total_def using Some
    by (intro sum_map_ge) (auto simp: accounts_ok_def holdings_def)
  with Some show ?thesis by (simp add: entry_def)
qed

lemma entry_sound: "accounts_ok m \<Longrightarrow> sound (entry m k)"
  using entry_nonneg [of m k] entry_le_total [of m k]
  by (simp add: sound_def accounts_ok_def holdings_def)

lemma two_entries_le_total:
  assumes "accounts_ok m" and "j \<noteq> k"
  shows "holdings (entry m j) + holdings (entry m k) \<le> total m"
proof -
  let ?m = "m(k \<mapsto> zero)"
  have fin: "finite (dom m)" using assms by (simp add: accounts_ok_def)
  have t: "total ?m = total m - holdings (entry m k)"
    using fin by (simp add: total_upd holdings_def av_zero rs_zero)
  have "accounts_ok ?m"
    using assms(1) holdings_nonneg [OF assms(1), of k] t
    by (auto simp: accounts_ok_def av_zero rs_zero)
  from entry_le_total [OF this, of j] assms(2) t show ?thesis by (simp add: entry_upd)
qed

text \<open>Replacing an entry by one that is not negative and holds as much.\<close>

lemma accounts_ok_upd:
  assumes "accounts_ok m" and "0 \<le> av a" "0 \<le> rs a" and "holdings a = holdings (entry m k)"
  shows "accounts_ok (m(k \<mapsto> a))" and "total (m(k \<mapsto> a)) = total m"
proof -
  show t: "total (m(k \<mapsto> a)) = total m"
    using assms by (simp add: total_upd accounts_ok_finite)
  show "accounts_ok (m(k \<mapsto> a))"
    using assms t by (auto simp: accounts_ok_def)
qed

lemma freeze_book:
  assumes "accounts_ok m" and "0 \<le> n" and "n \<le> av (entry m k)"
  shows "accounts_ok (m(k \<mapsto> freeze n (entry m k)))"
    and "total (m(k \<mapsto> freeze n (entry m k))) = total m"
proof -
  note f = freeze_exact [OF entry_sound [OF assms(1)] assms(2,3)]
  have "0 \<le> av (freeze n (entry m k))" "0 \<le> rs (freeze n (entry m k))"
    "holdings (freeze n (entry m k)) = holdings (entry m k)"
    using f assms entry_nonneg [OF assms(1), of k] by (simp_all add: holdings_def)
  from accounts_ok_upd [OF assms(1) this]
  show "accounts_ok (m(k \<mapsto> freeze n (entry m k)))"
    and "total (m(k \<mapsto> freeze n (entry m k))) = total m" by simp_all
qed

lemma thaw_book:
  assumes "accounts_ok m" and "0 \<le> n" and "n \<le> rs (entry m k)"
  shows "accounts_ok (m(k \<mapsto> thaw n (entry m k)))"
    and "total (m(k \<mapsto> thaw n (entry m k))) = total m"
proof -
  note f = thaw_exact [OF entry_sound [OF assms(1)] assms(2,3)]
  have "0 \<le> av (thaw n (entry m k))" "0 \<le> rs (thaw n (entry m k))"
    "holdings (thaw n (entry m k)) = holdings (entry m k)"
    using f assms entry_nonneg [OF assms(1), of k] by (simp_all add: holdings_def)
  from accounts_ok_upd [OF assms(1) this]
  show "accounts_ok (m(k \<mapsto> thaw n (entry m k)))"
    and "total (m(k \<mapsto> thaw n (entry m k))) = total m" by simp_all
qed

text \<open>Opening an empty account changes no entry.\<close>

lemma entry_open [simp]: "entry (m(k \<mapsto> entry m k)) = entry m"
  by (auto simp: fun_eq_iff entry_upd)

lemma open_book:
  assumes "accounts_ok m"
  shows "accounts_ok (m(k \<mapsto> entry m k))" and "total (m(k \<mapsto> entry m k)) = total m"
  using accounts_ok_upd [OF assms, of "entry m k" k] entry_nonneg [OF assms, of k] by simp_all

text \<open>Paying out of one account's reserve into the available part of another.\<close>

lemma consume_credit_book:
  fixes m :: "'k \<rightharpoonup> 'a" and j k :: 'k
  assumes "accounts_ok m" and "0 \<le> n" and "n \<le> rs (entry m k)" and "j \<noteq> k"
  defines "m' \<equiv> m(k \<mapsto> consume n (entry m k))"
  shows "accounts_ok (m'(j \<mapsto> credit n (entry m' j)))"
    and "total (m'(j \<mapsto> credit n (entry m' j))) = total m"
    and "rs (entry (m'(j \<mapsto> credit n (entry m' j))) i)
           = (if i = k then rs (entry m k) - n else rs (entry m i))"
proof -
  note c = consume_exact [OF entry_sound [OF assms(1)] assms(2,3)]
  have j: "entry m' j = entry m j" using assms(4) by (simp add: m'_def entry_upd)
  have fin: "finite (dom m')" using assms(1) by (simp add: m'_def accounts_ok_finite)
  have "holdings (entry m j) + holdings (entry m k) \<le> max_i64"
    using two_entries_le_total [OF assms(1,4)] assms(1) by (simp add: accounts_ok_def)
  with assms(1,3) entry_nonneg [OF assms(1), of k]
  have "av (entry m j) + rs (entry m j) + n \<le> max_i64" by (simp add: holdings_def)
  note d = credit_exact [OF entry_sound [OF assms(1), of j] assms(2) this]
  have "total m' = total m - n"
    using c assms(1) by (simp add: m'_def total_upd accounts_ok_finite holdings_def)
  then show t: "total (m'(j \<mapsto> credit n (entry m' j))) = total m"
    using fin d j by (simp add: total_upd holdings_def)
  show "accounts_ok (m'(j \<mapsto> credit n (entry m' j)))"
    using assms(1,2,3) t fin c d j entry_nonneg [OF assms(1), of j] entry_nonneg [OF assms(1), of k]
    by (auto simp: accounts_ok_def m'_def split: if_splits)
  show "rs (entry (m'(j \<mapsto> credit n (entry m' j))) i)
           = (if i = k then rs (entry m k) - n else rs (entry m i))"
    using c d j assms(4) by (auto simp: entry_upd m'_def)
qed

text \<open>The same, crediting first; the two accounts may be one.\<close>

lemma credit_consume_book:
  fixes m :: "'k \<rightharpoonup> 'a" and j k :: 'k
  assumes "accounts_ok m" and "0 \<le> n" and "n \<le> rs (entry m k)"
  defines "m' \<equiv> m(j \<mapsto> credit n (entry m j))"
  shows "accounts_ok (m'(k \<mapsto> consume n (entry m' k)))"
    and "total (m'(k \<mapsto> consume n (entry m' k))) = total m"
    and "rs (entry (m'(k \<mapsto> consume n (entry m' k))) i)
           = (if i = k then rs (entry m k) - n else rs (entry m i))"
proof -
  have fin: "finite (dom m)" "finite (dom m')"
    using assms(1) by (simp_all add: m'_def accounts_ok_finite)
  have nn: "0 \<le> av (entry m i)" "0 \<le> rs (entry m i)" for i
    using entry_nonneg [OF assms(1)] by simp_all
  have av_j: "av (entry m j) + n \<le> max_i64"
  proof (cases "j = k")
    case True
    then show ?thesis
      using entry_sound [OF assms(1), of k] assms(3) by (simp add: sound_def)
  next
    case False
    then show ?thesis
      using two_entries_le_total [OF assms(1) False] assms(1,3) nn [of k] nn(2) [of j]
      by (simp add: accounts_ok_def holdings_def)
  qed
  have cr: "av (credit n (entry m j)) = av (entry m j) + n"
    "rs (credit n (entry m j)) = rs (entry m j)"
    using av_j nn [of j] assms(2) by (simp_all add: av_credit rs_credit)
  have rk: "rs (entry m' i) = rs (entry m i)" for i
    using cr by (simp add: m'_def entry_upd)
  have sk: "rs (entry m k) \<le> max_i64"
    using entry_sound [OF assms(1), of k] by (simp add: sound_def)
  have co: "av (consume n (entry m' k)) = av (entry m' k)"
    "rs (consume n (entry m' k)) = rs (entry m k) - n"
    using assms(2,3) rk [of k] sk by (simp_all add: av_consume rs_consume)
  have "total m' = total m + n"
    using fin cr by (simp add: m'_def total_upd holdings_def)
  then show t: "total (m'(k \<mapsto> consume n (entry m' k))) = total m"
    using fin co rk [of k] by (simp add: total_upd holdings_def)
  have "0 \<le> av (entry m' k)"
    using cr nn assms(2) by (simp add: m'_def entry_upd)
  then show "accounts_ok (m'(k \<mapsto> consume n (entry m' k)))"
    using assms(1,2,3) t fin co cr nn by (auto simp: accounts_ok_def m'_def split: if_splits)
  show "rs (entry (m'(k \<mapsto> consume n (entry m' k))) i)
           = (if i = k then rs (entry m k) - n else rs (entry m i))"
    using co rk by (simp add: entry_upd)
qed

end

interpretation cashbook:
  escrow_book Bal_Available Bal_Reserved bal_freeze bal_consume bal_credit bal_thaw zeroBalance
  by unfold_locales (simp_all add: zeroBalance_def)

interpretation sharebook:
  escrow_book Pos_Available Pos_Reserved pos_freeze pos_consume pos_credit pos_thaw zeroPosition
  by unfold_locales (simp_all add: zeroPosition_def)

section \<open>The invariant\<close>

definition total_cash :: "Engine \<Rightarrow> int" where
  "total_cash e = sum_map (\<lambda>b. Bal_Available b + Bal_Reserved b) (balances e)"

definition total_shares :: "Engine \<Rightarrow> int" where
  "total_shares e = sum_map (\<lambda>p. Pos_Available p + Pos_Reserved p) (positions e)"

definition ord_key :: "Order \<Rightarrow> string" where
  "ord_key ord = positionKey (Ord_UserID ord) (Ord_EventID ord) (Ord_Outcome ord)"

definition lock_cash :: "string \<Rightarrow> Order \<Rightarrow> int" where
  "lock_cash u ord =
     (if Ord_Side ord = SideBuy \<and> Ord_UserID ord = u then Ord_LockedFunds ord else 0)"

definition lock_shares :: "string \<Rightarrow> Order \<Rightarrow> int" where
  "lock_shares k ord =
     (if Ord_Side ord \<noteq> SideBuy \<and> ord_key ord = k then Ord_LockedFunds ord else 0)"

definition ledger_ok :: "Engine \<Rightarrow> bool" where
  "ledger_ok e \<longleftrightarrow>
     finite (dom (orders e)) \<and>
     cashbook.accounts_ok (balances e) \<and> sharebook.accounts_ok (positions e) \<and>
     (\<forall>i ord. orders e i = Some ord \<longrightarrow> 0 \<le> Ord_LockedFunds ord) \<and>
     (\<forall>u. sum_map (lock_cash u) (orders e) \<le> Bal_Reserved (cashbook.entry (balances e) u)) \<and>
     (\<forall>k. sum_map (lock_shares k) (orders e) \<le> Pos_Reserved (sharebook.entry (positions e) k))"

lemma total_cash_book: "total_cash e = cashbook.total (balances e)"
  by (simp add: total_cash_def cashbook.total_def cashbook.holdings_def [abs_def])

lemma total_shares_book: "total_shares e = sharebook.total (positions e)"
  by (simp add: total_shares_def sharebook.total_def sharebook.holdings_def [abs_def])

lemma ledger_okD:
  assumes "ledger_ok e"
  shows "finite (dom (orders e))" "cashbook.accounts_ok (balances e)"
    "sharebook.accounts_ok (positions e)"
    "orders e i = Some ord \<Longrightarrow> 0 \<le> Ord_LockedFunds ord"
    "sum_map (lock_cash u) (orders e) \<le> Bal_Reserved (cashbook.entry (balances e) u)"
    "sum_map (lock_shares k) (orders e) \<le> Pos_Reserved (sharebook.entry (positions e) k)"
  using assms by (auto simp: ledger_ok_def)

lemma getOrCreateBalance_entry:
  "getOrCreateBalance u e =
     (cashbook.entry (balances e) u,
      e\<lparr>balances := (balances e)(u \<mapsto> cashbook.entry (balances e) u)\<rparr>)"
  by (auto simp: getOrCreateBalance_def cashbook.entry_def fun_upd_idem split: option.split)

lemma getOrCreatePosition_entry:
  "getOrCreatePosition u ev oc e =
     (sharebook.entry (positions e) (positionKey u ev oc),
      e\<lparr>positions := (positions e)
          (positionKey u ev oc \<mapsto> sharebook.entry (positions e) (positionKey u ev oc))\<rparr>)"
  by (auto simp: getOrCreatePosition_def sharebook.entry_def fun_upd_idem Let_def
      split: option.split)

text \<open>What an order locks is reserved in the account it draws on.\<close>

lemma locked_cash_reserved:
  assumes "ledger_ok e" and "orders e i = Some ord" and "Ord_Side ord = SideBuy"
  shows "Ord_LockedFunds ord \<le> Bal_Reserved (cashbook.entry (balances e) (Ord_UserID ord))"
    and "Ord_LockedFunds ord \<le> max_i64"
proof -
  have "lock_cash (Ord_UserID ord) ord \<le> sum_map (lock_cash (Ord_UserID ord)) (orders e)"
    using assms ledger_okD [OF assms(1)] by (intro sum_map_ge) (auto simp: lock_cash_def)
  with assms(3) ledger_okD(5) [OF assms(1), of "Ord_UserID ord"]
  show r: "Ord_LockedFunds ord \<le> Bal_Reserved (cashbook.entry (balances e) (Ord_UserID ord))"
    by (simp add: lock_cash_def)
  from cashbook.entry_sound [OF ledger_okD(2) [OF assms(1)], of "Ord_UserID ord"] r
  show "Ord_LockedFunds ord \<le> max_i64" by (simp add: cash.sound_def)
qed

lemma locked_shares_reserved:
  assumes "ledger_ok e" and "orders e i = Some ord" and "Ord_Side ord \<noteq> SideBuy"
  shows "Ord_LockedFunds ord \<le> Pos_Reserved (sharebook.entry (positions e) (ord_key ord))"
    and "Ord_LockedFunds ord \<le> max_i64"
proof -
  have "lock_shares (ord_key ord) ord \<le> sum_map (lock_shares (ord_key ord)) (orders e)"
    using assms ledger_okD [OF assms(1)] by (intro sum_map_ge) (auto simp: lock_shares_def)
  with assms(3) ledger_okD(6) [OF assms(1), of "ord_key ord"]
  show r: "Ord_LockedFunds ord \<le> Pos_Reserved (sharebook.entry (positions e) (ord_key ord))"
    by (simp add: lock_shares_def)
  from sharebook.entry_sound [OF ledger_okD(3) [OF assms(1)], of "ord_key ord"] r
  show "Ord_LockedFunds ord \<le> max_i64" by (simp add: share.sound_def)
qed

section \<open>Closed forms\<close>

lemma reserve_buy:
  fixes e :: Engine
  assumes "Ord_Side ord = SideBuy"
  defines "bal \<equiv> cashbook.entry (balances e) (Ord_UserID ord)"
    and "cost \<equiv> (if Ord_OrderType ord = OrderTypeMarket
                  then Bal_Available (cashbook.entry (balances e) (Ord_UserID ord))
                  else i64 (Ord_RemainingQuantity ord * Ord_Price ord))"
  shows "reserveOrderLocked ord e =
    (if cost > Bal_Available bal
     then (Some ErrInsufficientFunds, ord,
           e\<lparr>balances := (balances e)(Ord_UserID ord \<mapsto> bal)\<rparr>)
     else (None, ord\<lparr>Ord_LockedFunds := cost\<rparr>,
           e\<lparr>balances := (balances e)(Ord_UserID ord \<mapsto> bal_freeze cost bal)\<rparr>))"
  using assms(1)
  by (simp add: reserveOrderLocked_def getOrCreateBalance_entry putBalance_def Let_def
      bal_def cost_def)

lemma reserve_sell:
  fixes e :: Engine
  assumes "Ord_Side ord \<noteq> SideBuy"
  defines "pos \<equiv> sharebook.entry (positions e) (ord_key ord)"
  shows "reserveOrderLocked ord e =
    (if Pos_Available pos < Ord_RemainingQuantity ord
     then (Some ErrInsufficientShares, ord,
           e\<lparr>positions := (positions e)(ord_key ord \<mapsto> pos)\<rparr>)
     else (None, ord\<lparr>Ord_LockedFunds := Ord_RemainingQuantity ord\<rparr>,
           e\<lparr>positions := (positions e)
               (ord_key ord \<mapsto> pos_freeze (Ord_RemainingQuantity ord) pos)\<rparr>))"
  using assms(1)
  by (simp add: reserveOrderLocked_def getOrCreatePosition_entry putPosition_def Let_def
      pos_def ord_key_def)

lemma settle_form:
  "settleTradeLocked t e =
     (let cost = i64 (Trd_Quantity t * Trd_Price t); q = Trd_Quantity t;
          kb = positionKey (Trd_BuyerID t) (Trd_EventID t) (Trd_Outcome t);
          ks = positionKey (Trd_SellerID t) (Trd_EventID t) (Trd_Outcome t);
          b1 = (balances e)(Trd_BuyerID t \<mapsto>
                  bal_consume cost (cashbook.entry (balances e) (Trd_BuyerID t)));
          p1 = (positions e)(kb \<mapsto> pos_credit q (sharebook.entry (positions e) kb))
      in e\<lparr>orders := modify (Trd_MatchOrderID t) (settle_locked cost q)
                        (modify (Trd_OrderID t) (settle_locked cost q) (orders e)),
           balances := b1(Trd_SellerID t \<mapsto>
                          bal_credit cost (cashbook.entry b1 (Trd_SellerID t))),
           positions := p1(ks \<mapsto> pos_consume q (sharebook.entry p1 ks))\<rparr>)"
  by (simp add: settleTradeLocked_def getOrCreateBalance_entry getOrCreatePosition_entry
      putBalance_def putPosition_def Let_def)

lemma release_buy:
  assumes "orders e i = Some ord" and "Ord_Side ord = SideBuy" and "0 < Ord_LockedFunds ord"
  shows "releaseOrderLocked i e =
     e\<lparr>orders := (orders e)(i \<mapsto> ord\<lparr>Ord_LockedFunds := 0\<rparr>),
       balances := (balances e)(Ord_UserID ord \<mapsto>
         bal_thaw (Ord_LockedFunds ord) (cashbook.entry (balances e) (Ord_UserID ord)))\<rparr>"
  using assms
  by (simp add: releaseOrderLocked_def getOrCreateBalance_entry putBalance_def Let_def modify_Some)

lemma release_sell:
  assumes "orders e i = Some ord" and "Ord_Side ord \<noteq> SideBuy" and "0 < Ord_LockedFunds ord"
  shows "releaseOrderLocked i e =
     e\<lparr>orders := (orders e)(i \<mapsto> ord\<lparr>Ord_LockedFunds := 0\<rparr>),
       positions := (positions e)(ord_key ord \<mapsto>
         pos_thaw (Ord_LockedFunds ord) (sharebook.entry (positions e) (ord_key ord)))\<rparr>"
  using assms
  by (simp add: releaseOrderLocked_def getOrCreatePosition_entry putPosition_def Let_def
      modify_Some ord_key_def)

lemma release_none:
  "Ord_LockedFunds (deref (orders e) i) \<le> 0 \<Longrightarrow> releaseOrderLocked i e = e"
  by (simp add: releaseOrderLocked_def)

section \<open>Reserve and release keep the invariant\<close>

lemma reserve_refused:
  assumes "ledger_ok e" and "reserveOrderLocked ord e = (Some err, ord', e')"
  shows "ledger_ok e'" "total_cash e' = total_cash e" "total_shares e' = total_shares e"
    "ord' = ord" "orders e' = orders e" "markets e' = markets e"
proof -
  note L = ledger_okD [OF assms(1)]
  show "ledger_ok e'" "total_cash e' = total_cash e" "total_shares e' = total_shares e"
    "ord' = ord" "orders e' = orders e" "markets e' = markets e"
    using assms(2) L cashbook.open_book [OF L(2)] sharebook.open_book [OF L(3)]
    by (cases "Ord_Side ord = SideBuy";
        auto simp: reserve_buy reserve_sell ledger_ok_def total_cash_book total_shares_book
          split: if_splits)+
qed

text \<open>What the orders lock when one of them is added or rewritten, and the locks of each side.\<close>

lemma locks_insert:
  assumes "ledger_ok e" and "orders e i = None"
  shows "sum_map f ((orders e)(i \<mapsto> x)) = sum_map f (orders e) + f x"
  using ledger_okD(1) [OF assms(1)] assms(2) by (simp add: sum_map_upd)

lemma locks_replace:
  assumes "ledger_ok e" and "orders e i = Some ord"
  shows "sum_map f ((orders e)(i \<mapsto> x)) = sum_map f (orders e) - f ord + f x"
  using ledger_okD(1) [OF assms(1)] assms(2) by (simp add: sum_map_upd)

lemma locks_of_buy:
  assumes "Ord_Side ord = SideBuy"
  shows "lock_cash u ord = (if u = Ord_UserID ord then Ord_LockedFunds ord else 0)" "lock_shares k ord = 0"
  using assms by (auto simp: lock_cash_def lock_shares_def)

lemma locks_of_sell:
  assumes "Ord_Side ord \<noteq> SideBuy"
  shows "lock_shares k ord = (if k = ord_key ord then Ord_LockedFunds ord else 0)" "lock_cash u ord = 0"
  using assms by (auto simp: lock_cash_def lock_shares_def)

lemma ord_key_locked [simp]: "ord_key (ord\<lparr>Ord_LockedFunds := x\<rparr>) = ord_key ord"
  by (simp add: ord_key_def)

lemmas ledger_book = ledger_ok_def total_cash_book total_shares_book cashbook.entry_upd sharebook.entry_upd

lemma freeze_cash_ok:
  assumes ok: "ledger_ok e" and fresh: "orders e i = None" and side: "Ord_Side ord = SideBuy"
    and c: "0 \<le> c" "c \<le> Bal_Available (cashbook.entry (balances e) (Ord_UserID ord))"
  defines "e' \<equiv> e\<lparr>balances := (balances e)
      (Ord_UserID ord \<mapsto> bal_freeze c (cashbook.entry (balances e) (Ord_UserID ord)))\<rparr>"
  shows "ledger_ok (e'\<lparr>orders := (orders e')(i \<mapsto> ord\<lparr>Ord_LockedFunds := c\<rparr>)\<rparr>)"
    and "total_cash e' = total_cash e" and "total_shares e' = total_shares e"
proof -
  note L = ledger_okD [OF ok] and book = cashbook.freeze_book [OF ledger_okD(2) [OF ok] c]
  have "Bal_Reserved (bal_freeze c (cashbook.entry (balances e) (Ord_UserID ord))) =
      Bal_Reserved (cashbook.entry (balances e) (Ord_UserID ord)) + c"
    using cash.freeze_exact [OF cashbook.entry_sound [OF L(2)] c] by simp
  then show "ledger_ok (e'\<lparr>orders := (orders e')(i \<mapsto> ord\<lparr>Ord_LockedFunds := c\<rparr>)\<rparr>)"
    using L c side book by (auto simp: e'_def ledger_book locks_insert [OF ok fresh] locks_of_buy)
  show "total_cash e' = total_cash e" "total_shares e' = total_shares e"
    using book by (simp_all add: e'_def ledger_book)
qed

lemma freeze_shares_ok:
  assumes ok: "ledger_ok e" and fresh: "orders e i = None" and side: "Ord_Side ord \<noteq> SideBuy"
    and c: "0 \<le> c" "c \<le> Pos_Available (sharebook.entry (positions e) (ord_key ord))"
  defines "e' \<equiv> e\<lparr>positions := (positions e)
      (ord_key ord \<mapsto> pos_freeze c (sharebook.entry (positions e) (ord_key ord)))\<rparr>"
  shows "ledger_ok (e'\<lparr>orders := (orders e')(i \<mapsto> ord\<lparr>Ord_LockedFunds := c\<rparr>)\<rparr>)"
    and "total_cash e' = total_cash e" and "total_shares e' = total_shares e"
proof -
  note L = ledger_okD [OF ok] and book = sharebook.freeze_book [OF ledger_okD(3) [OF ok] c]
  have "Pos_Reserved (pos_freeze c (sharebook.entry (positions e) (ord_key ord))) =
      Pos_Reserved (sharebook.entry (positions e) (ord_key ord)) + c"
    using share.freeze_exact [OF sharebook.entry_sound [OF L(3)] c] by simp
  then show "ledger_ok (e'\<lparr>orders := (orders e')(i \<mapsto> ord\<lparr>Ord_LockedFunds := c\<rparr>)\<rparr>)"
    using L c side book by (auto simp: e'_def ledger_book locks_insert [OF ok fresh] locks_of_sell)
  show "total_cash e' = total_cash e" "total_shares e' = total_shares e"
    using book by (simp_all add: e'_def ledger_book)
qed

lemma reserve_accepted:
  assumes ok: "ledger_ok e" and fresh: "orders e i = None"
    and res: "reserveOrderLocked ord e = (None, ord', e')"
    and rem: "0 \<le> Ord_RemainingQuantity ord"
    and cost: "Ord_Side ord = SideBuy \<Longrightarrow> Ord_OrderType ord \<noteq> OrderTypeMarket \<Longrightarrow>
      0 \<le> Ord_RemainingQuantity ord * Ord_Price ord \<and>
      Ord_RemainingQuantity ord * Ord_Price ord \<le> max_i64"
  shows "ledger_ok (e'\<lparr>orders := (orders e')(i \<mapsto> ord')\<rparr>)"
    and "total_cash e' = total_cash e" and "total_shares e' = total_shares e"
proof -
  have "ledger_ok (e'\<lparr>orders := (orders e')(i \<mapsto> ord')\<rparr>) \<and> total_cash e' = total_cash e \<and>
      total_shares e' = total_shares e"
  proof (cases "Ord_Side ord = SideBuy")
    case True
    let ?b = "cashbook.entry (balances e) (Ord_UserID ord)"
    obtain c where "0 \<le> c" "c \<le> Bal_Available ?b" "ord' = ord\<lparr>Ord_LockedFunds := c\<rparr>"
      "e' = e\<lparr>balances := (balances e)(Ord_UserID ord \<mapsto> bal_freeze c ?b)\<rparr>"
      using res cost cashbook.entry_nonneg [OF ledger_okD(2) [OF ok], of "Ord_UserID ord"] True
      by (auto simp: reserve_buy split: if_splits)
    then show ?thesis using freeze_cash_ok [OF ok fresh True] by simp
  next
    case False
    then show ?thesis
      using res freeze_shares_ok [OF ok fresh False rem] by (auto simp: reserve_sell split: if_splits)
  qed
  then show "ledger_ok (e'\<lparr>orders := (orders e')(i \<mapsto> ord')\<rparr>)"
    and "total_cash e' = total_cash e" and "total_shares e' = total_shares e" by simp_all
qed

lemma release_orders:
  assumes "ledger_ok e" and i: "orders e i = Some ord"
  shows "orders (releaseOrderLocked i e) = (orders e)(i \<mapsto> ord\<lparr>Ord_LockedFunds := 0\<rparr>) \<and>
    markets (releaseOrderLocked i e) = markets e"
proof (cases "0 < Ord_LockedFunds ord")
  case True
  then show ?thesis
    by (cases "Ord_Side ord = SideBuy") (simp_all add: release_buy [OF i] release_sell [OF i])
next
  case False
  then have l: "Ord_LockedFunds ord = 0" using ledger_okD(4) [OF assms] by simp
  then have "ord\<lparr>Ord_LockedFunds := 0\<rparr> = ord" by (cases ord) simp
  moreover have "releaseOrderLocked i e = e" using i l by (intro release_none) simp
  ultimately show ?thesis using i by (simp add: fun_upd_idem)
qed

lemma release_buy_ok:
  assumes ok: "ledger_ok e" and i: "orders e i = Some ord" "Ord_Side ord = SideBuy" "0 < Ord_LockedFunds ord"
  shows "ledger_ok (releaseOrderLocked i e)" "total_cash (releaseOrderLocked i e) = total_cash e"
    "total_shares (releaseOrderLocked i e) = total_shares e"
proof -
  note L = ledger_okD [OF ok] and r = locked_cash_reserved(1) [OF ok i(1,2)]
  have nn: "0 \<le> Ord_LockedFunds ord" using i(3) by simp
  note book = cashbook.thaw_book [OF L(2) nn r]
  have "Bal_Reserved (bal_thaw (Ord_LockedFunds ord) (cashbook.entry (balances e) (Ord_UserID ord)))
      = Bal_Reserved (cashbook.entry (balances e) (Ord_UserID ord)) - Ord_LockedFunds ord"
    using cash.thaw_exact [OF cashbook.entry_sound [OF L(2)] nn r] by simp
  then show "ledger_ok (releaseOrderLocked i e)"
    using L i book by (auto simp: release_buy ledger_book locks_replace [OF ok i(1)] locks_of_buy)
  show "total_cash (releaseOrderLocked i e) = total_cash e"
    "total_shares (releaseOrderLocked i e) = total_shares e"
    using i book by (simp_all add: release_buy ledger_book)
qed

lemma release_sell_ok:
  assumes ok: "ledger_ok e" and i: "orders e i = Some ord" "Ord_Side ord \<noteq> SideBuy" "0 < Ord_LockedFunds ord"
  shows "ledger_ok (releaseOrderLocked i e)" "total_cash (releaseOrderLocked i e) = total_cash e"
    "total_shares (releaseOrderLocked i e) = total_shares e"
proof -
  note L = ledger_okD [OF ok] and r = locked_shares_reserved(1) [OF ok i(1,2)]
  have nn: "0 \<le> Ord_LockedFunds ord" using i(3) by simp
  note book = sharebook.thaw_book [OF L(3) nn r]
  have "Pos_Reserved (pos_thaw (Ord_LockedFunds ord) (sharebook.entry (positions e) (ord_key ord)))
      = Pos_Reserved (sharebook.entry (positions e) (ord_key ord)) - Ord_LockedFunds ord"
    using share.thaw_exact [OF sharebook.entry_sound [OF L(3)] nn r] by simp
  then show "ledger_ok (releaseOrderLocked i e)"
    using L i book by (auto simp: release_sell ledger_book locks_replace [OF ok i(1)] locks_of_sell)
  show "total_cash (releaseOrderLocked i e) = total_cash e"
    "total_shares (releaseOrderLocked i e) = total_shares e"
    using i book by (simp_all add: release_sell ledger_book)
qed

lemma release_ledger_ok:
  assumes ok: "ledger_ok e" and i: "orders e i = Some ord"
  shows "ledger_ok (releaseOrderLocked i e)"
    and "total_cash (releaseOrderLocked i e) = total_cash e"
    and "total_shares (releaseOrderLocked i e) = total_shares e"
    and "orders (releaseOrderLocked i e) = (orders e)(i \<mapsto> ord\<lparr>Ord_LockedFunds := 0\<rparr>)"
    and "markets (releaseOrderLocked i e) = markets e"
proof -
  have "ledger_ok (releaseOrderLocked i e) \<and> total_cash (releaseOrderLocked i e) = total_cash e \<and>
      total_shares (releaseOrderLocked i e) = total_shares e"
  proof (cases "0 < Ord_LockedFunds ord")
    case True
    with release_buy_ok [OF ok i] release_sell_ok [OF ok i] show ?thesis by blast
  next
    case False
    then have "releaseOrderLocked i e = e" using i by (intro release_none) simp
    with ok show ?thesis by simp
  qed
  then show "ledger_ok (releaseOrderLocked i e)" "total_cash (releaseOrderLocked i e) = total_cash e"
    "total_shares (releaseOrderLocked i e) = total_shares e" by simp_all
qed (simp_all add: release_orders [OF ok i])

section \<open>Settlement\<close>

text \<open>The order of a trade that buys and the order that sells.\<close>

definition buyOrd :: "Trade \<Rightarrow> string" where
  "buyOrd t = (if Trd_TakerSide t = SideBuy then Trd_OrderID t else Trd_MatchOrderID t)"

definition sellOrd :: "Trade \<Rightarrow> string" where
  "sellOrd t = (if Trd_TakerSide t = SideBuy then Trd_MatchOrderID t else Trd_OrderID t)"

definition trade_cost :: "Trade \<Rightarrow> int" where
  "trade_cost t = Trd_Quantity t * Trd_Price t"

text \<open>A trade between a BUY and a SELL order of the store, of two users.\<close>

definition trade_fits :: "store \<Rightarrow> Trade \<Rightarrow> bool" where
  "trade_fits st t \<longleftrightarrow>
     (\<exists>bo so. st (buyOrd t) = Some bo \<and> st (sellOrd t) = Some so \<and>
       Ord_Side bo = SideBuy \<and> Ord_Side so \<noteq> SideBuy \<and>
       Ord_UserID bo = Trd_BuyerID t \<and>
       ord_key so = positionKey (Trd_SellerID t) (Trd_EventID t) (Trd_Outcome t)) \<and>
     Trd_BuyerID t \<noteq> Trd_SellerID t \<and> 0 < Trd_Quantity t \<and> 0 \<le> Trd_Price t"

text \<open>What the trades of a list still take out of the lock of an order.\<close>

definition pending :: "Trade list \<Rightarrow> string \<Rightarrow> Order \<Rightarrow> int" where
  "pending ts i ord =
     (\<Sum>t\<leftarrow>ts. if Ord_Side ord = SideBuy then (if buyOrd t = i then trade_cost t else 0)
              else (if sellOrd t = i then Trd_Quantity t else 0))"

definition funded :: "store \<Rightarrow> Trade list \<Rightarrow> bool" where
  "funded st ts \<longleftrightarrow> (\<forall>i ord. st i = Some ord \<longrightarrow> pending ts i ord \<le> Ord_LockedFunds ord)"

lemma trade_cost_nonneg: "trade_fits st t \<Longrightarrow> 0 \<le> trade_cost t"
  by (simp add: trade_fits_def trade_cost_def)

lemma pending_Nil [simp]: "pending [] i ord = 0"
  by (simp add: pending_def)

lemma pending_Cons:
  "pending (t # ts) i ord =
     (if Ord_Side ord = SideBuy then (if buyOrd t = i then trade_cost t else 0)
      else (if sellOrd t = i then Trd_Quantity t else 0)) + pending ts i ord"
  by (simp add: pending_def)

lemma pending_append: "pending (ts @ us) i ord = pending ts i ord + pending us i ord"
  by (simp add: pending_def)

lemma pending_locked [simp]: "pending ts i (ord\<lparr>Ord_LockedFunds := x\<rparr>) = pending ts i ord"
  by (simp add: pending_def)

lemma pending_nonneg: "\<forall>t\<in>set ts. trade_fits st t \<Longrightarrow> 0 \<le> pending ts i ord"
  by (induction ts) (auto simp: pending_Cons trade_fits_def trade_cost_def)

text \<open>
  One settlement: the buyer pays exactly the cost out of the reserve, the seller delivers exactly
  the quantity, both locks shrink by as much, and the totals of cash and shares do not change.
\<close>

definition trade_funded :: "Engine \<Rightarrow> Trade \<Rightarrow> Order \<Rightarrow> Order \<Rightarrow> bool" where
  "trade_funded e t bo so \<longleftrightarrow> ledger_ok e \<and> trade_fits (orders e) t \<and>
     orders e (buyOrd t) = Some bo \<and> orders e (sellOrd t) = Some so \<and>
     trade_cost t \<le> Ord_LockedFunds bo \<and> Trd_Quantity t \<le> Ord_LockedFunds so"

lemma trade_fundedD:
  assumes "trade_funded e t bo so"
  shows "ledger_ok e" "orders e (buyOrd t) = Some bo" "orders e (sellOrd t) = Some so"
    "Ord_Side bo = SideBuy" "Ord_Side so \<noteq> SideBuy" "Ord_UserID bo = Trd_BuyerID t"
    "ord_key so = positionKey (Trd_SellerID t) (Trd_EventID t) (Trd_Outcome t)"
    "Trd_SellerID t \<noteq> Trd_BuyerID t" "0 \<le> Trd_Quantity t" "0 \<le> trade_cost t" "buyOrd t \<noteq> sellOrd t"
    "trade_cost t \<le> Ord_LockedFunds bo" "Trd_Quantity t \<le> Ord_LockedFunds so"
  using assms trade_cost_nonneg [of "orders e" t] by (auto simp: trade_funded_def trade_fits_def)

lemma funded_reserves:
  assumes "trade_funded e t bo so"
  shows "trade_cost t \<le> Bal_Reserved (cashbook.entry (balances e) (Trd_BuyerID t))"
    and "Trd_Quantity t \<le> Pos_Reserved (sharebook.entry (positions e) (ord_key so))"
    and "i64 (Trd_Quantity t * Trd_Price t) = trade_cost t"
    and "settle_locked (trade_cost t) (Trd_Quantity t) bo = bo\<lparr>Ord_LockedFunds := Ord_LockedFunds bo - trade_cost t\<rparr>"
    and "settle_locked (trade_cost t) (Trd_Quantity t) so = so\<lparr>Ord_LockedFunds := Ord_LockedFunds so - Trd_Quantity t\<rparr>"
proof -
  note T = trade_fundedD [OF assms]
  note b = locked_cash_reserved [OF T(1,2,4)] and s = locked_shares_reserved [OF T(1,3,5)]
  show "trade_cost t \<le> Bal_Reserved (cashbook.entry (balances e) (Trd_BuyerID t))"
    using T(6,12) b(1) by simp
  show "Trd_Quantity t \<le> Pos_Reserved (sharebook.entry (positions e) (ord_key so))"
    using T(13) s(1) by simp
  show "i64 (Trd_Quantity t * Trd_Price t) = trade_cost t"
    using T(10,12) b(2) by (simp add: trade_cost_def)
  show "settle_locked (trade_cost t) (Trd_Quantity t) bo = bo\<lparr>Ord_LockedFunds := Ord_LockedFunds bo - trade_cost t\<rparr>"
    "settle_locked (trade_cost t) (Trd_Quantity t) so = so\<lparr>Ord_LockedFunds := Ord_LockedFunds so - Trd_Quantity t\<rparr>"
    using T b(2) s(2) by (simp_all add: settle_locked_def Let_def)
qed

lemma settle_orders:
  assumes "trade_funded e t bo so"
  shows "orders (settleTradeLocked t e) = (orders e)
          (buyOrd t \<mapsto> bo\<lparr>Ord_LockedFunds := Ord_LockedFunds bo - trade_cost t\<rparr>,
           sellOrd t \<mapsto> so\<lparr>Ord_LockedFunds := Ord_LockedFunds so - Trd_Quantity t\<rparr>)"
proof -
  have "Trd_OrderID t = buyOrd t \<and> Trd_MatchOrderID t = sellOrd t \<or>
      Trd_OrderID t = sellOrd t \<and> Trd_MatchOrderID t = buyOrd t"
    by (simp add: buyOrd_def sellOrd_def)
  with trade_fundedD(2,3,11) [OF assms] funded_reserves(3-5) [OF assms] show ?thesis
    by (auto simp: settle_form Let_def modify_Some fun_upd_twist)
qed

lemma settle_cash:
  assumes "trade_funded e t bo so"
  defines "e' \<equiv> settleTradeLocked t e"
  shows "cashbook.accounts_ok (balances e')" "cashbook.total (balances e') = cashbook.total (balances e)"
    "Bal_Reserved (cashbook.entry (balances e') u) = Bal_Reserved (cashbook.entry (balances e) u) -
       (if u = Trd_BuyerID t then trade_cost t else 0)"
  using cashbook.consume_credit_book [OF ledger_okD(2) [OF trade_fundedD(1)] trade_fundedD(10)
      funded_reserves(1) trade_fundedD(8), OF assms(1) assms(1) assms(1) assms(1)]
    funded_reserves(3) [OF assms(1)]
  by (auto simp: e'_def settle_form Let_def)

lemma settle_shares:
  assumes "trade_funded e t bo so"
  defines "e' \<equiv> settleTradeLocked t e"
  shows "sharebook.accounts_ok (positions e')" "sharebook.total (positions e') = sharebook.total (positions e)"
    "Pos_Reserved (sharebook.entry (positions e') k) = Pos_Reserved (sharebook.entry (positions e) k) -
       (if k = ord_key so then Trd_Quantity t else 0)"
  using sharebook.credit_consume_book [OF ledger_okD(3) [OF trade_fundedD(1)] trade_fundedD(9)
      funded_reserves(2), OF assms(1) assms(1) assms(1),
      of "positionKey (Trd_BuyerID t) (Trd_EventID t) (Trd_Outcome t)"]
    funded_reserves(3) [OF assms(1)] trade_fundedD(7) [OF assms(1)]
  by (auto simp: e'_def settle_form Let_def)

lemma settle_exact:
  assumes "trade_funded e t bo so"
  shows "ledger_ok (settleTradeLocked t e)"
    and "total_cash (settleTradeLocked t e) = total_cash e"
    and "total_shares (settleTradeLocked t e) = total_shares e"
    and "markets (settleTradeLocked t e) = markets e"
proof -
  note T = trade_fundedD [OF assms] and ords = settle_orders [OF assms]
    and cash = settle_cash [OF assms] and shares = settle_shares [OF assms]
  note L = ledger_okD [OF T(1)]
  have lock: "sum_map f (orders (settleTradeLocked t e)) = sum_map f (orders e)
      - f bo + f (bo\<lparr>Ord_LockedFunds := Ord_LockedFunds bo - trade_cost t\<rparr>)
      - f so + f (so\<lparr>Ord_LockedFunds := Ord_LockedFunds so - Trd_Quantity t\<rparr>)" for f
    using L(1) T(2,3,11) by (simp add: ords sum_map_upd)
  show "ledger_ok (settleTradeLocked t e)"
    using L T cash(1,3) shares(1,3)
    by (auto simp: ledger_ok_def lock locks_of_buy locks_of_sell) (auto simp: ords split: if_splits)
  show "total_cash (settleTradeLocked t e) = total_cash e" "total_shares (settleTradeLocked t e) = total_shares e"
    using cash(2) shares(2) by (simp_all add: total_cash_book total_shares_book)
  show "markets (settleTradeLocked t e) = markets e" by (simp add: settle_form Let_def)
qed

lemma trade_fits_relock:
  assumes "trade_fits st u" and "\<And>i. st' i = map_option (\<lambda>ord. ord\<lparr>Ord_LockedFunds := f i ord\<rparr>) (st i)"
  shows "trade_fits st' u"
  using assms by (auto simp: trade_fits_def)

text \<open>All trades of a match, in order.\<close>

lemma settle_all:
  assumes "ledger_ok e" and "\<forall>t\<in>set ts. trade_fits (orders e) t" and "funded (orders e) ts"
  shows "ledger_ok (fold settleTradeLocked ts e) \<and>
    total_cash (fold settleTradeLocked ts e) = total_cash e \<and>
    total_shares (fold settleTradeLocked ts e) = total_shares e \<and>
    markets (fold settleTradeLocked ts e) = markets e \<and>
    orders (fold settleTradeLocked ts e) = (\<lambda>i. map_option
      (\<lambda>ord. ord\<lparr>Ord_LockedFunds := Ord_LockedFunds ord - pending ts i ord\<rparr>) (orders e i))"
  using assms
proof (induction ts arbitrary: e)
  case Nil
  have "(\<lambda>i. map_option (\<lambda>ord. ord\<lparr>Ord_LockedFunds := Ord_LockedFunds ord\<rparr>) (orders e i)) = orders e"
    by (auto simp: fun_eq_iff map_option_case split: option.split)
  with Nil show ?case by simp
next
  case (Cons t ts)
  let ?e = "settleTradeLocked t e"
  from Cons.prems(2) obtain bo so where bs: "orders e (buyOrd t) = Some bo"
    "orders e (sellOrd t) = Some so" "Ord_Side bo = SideBuy" "Ord_Side so \<noteq> SideBuy"
    by (auto simp: trade_fits_def)
  have ne: "buyOrd t \<noteq> sellOrd t" using bs by auto
  have pn: "0 \<le> pending ts i ord" for i ord
    using Cons.prems(2) by (intro pending_nonneg) auto
  have "trade_cost t \<le> Ord_LockedFunds bo" "Trd_Quantity t \<le> Ord_LockedFunds so"
    using Cons.prems(3) bs pn [of "buyOrd t" bo] pn [of "sellOrd t" so]
    by (fastforce simp: funded_def pending_Cons)+
  then have tf: "trade_funded e t bo so" using Cons.prems(1,2) bs by (simp add: trade_funded_def)
  note S = settle_exact [OF tf] and ords = settle_orders [OF tf]
  have step: "orders ?e i = map_option (\<lambda>ord. ord\<lparr>Ord_LockedFunds :=
      Ord_LockedFunds ord - (pending (t # ts) i ord - pending ts i ord)\<rparr>) (orders e i)" for i
    using ords bs ne
    by (cases "orders e i") (auto simp: pending_Cons)
  have fits': "\<forall>u\<in>set ts. trade_fits (orders ?e) u"
    using Cons.prems(2) step by (auto intro: trade_fits_relock)
  have funded': "funded (orders ?e) ts"
    using Cons.prems(3) step by (fastforce simp: funded_def)
  note IH = Cons.IH [OF S(1) fits' funded']
  have "(\<lambda>i. map_option (\<lambda>ord. ord\<lparr>Ord_LockedFunds := Ord_LockedFunds ord - pending ts i ord\<rparr>) (orders ?e i))
      = (\<lambda>i. map_option (\<lambda>ord. ord\<lparr>Ord_LockedFunds := Ord_LockedFunds ord - pending (t # ts) i ord\<rparr>) (orders e i))"
    by (auto simp: fun_eq_iff step option.map_comp comp_def)
  with IH S show ?case by simp
qed

end
