(* ===== verification/Engine_Invariant.thy ===== *)
theory Engine_Invariant
  imports Matching_Spec Ledger_Invariant
begin

text \<open>
  The invariant of the engine, \<open>engine_ok\<close>: the ledger is sound, every order of the store is
  filed under its ID with quantities that add up, an open order is still covered by what it has
  locked, and the books hold open limit orders of the right market and side, in price order. The
  critical section of \<^verbatim>\<open>matchOrder\<close> keeps it and neither creates nor destroys cash or shares,
  provided a market BUY can pay for what it takes (\<open>affordable\<close>).
\<close>

section \<open>The invariant\<close>

definition is_open :: "Order \<Rightarrow> bool" where
  "is_open ord \<longleftrightarrow> Ord_Status ord = StatusPending \<or> Ord_Status ord = StatusPartial"

text \<open>What an open order may still have to deliver is locked.\<close>

definition covered :: "Order \<Rightarrow> bool" where
  "covered ord \<longleftrightarrow>
     (if Ord_Side ord = SideBuy
      then Ord_OrderType ord = OrderTypeLimit \<longrightarrow>
             Ord_RemainingQuantity ord * Ord_Price ord \<le> Ord_LockedFunds ord
      else Ord_RemainingQuantity ord \<le> Ord_LockedFunds ord)"

definition order_ok :: "string \<Rightarrow> Order \<Rightarrow> bool" where
  "order_ok i ord \<longleftrightarrow> Ord_ID ord = i \<and> quantities_ok ord \<and>
     (Ord_Side ord = SideBuy \<or> Ord_Side ord = SideSell) \<and>
     (Ord_Outcome ord = OutcomeYes \<or> Ord_Outcome ord = OutcomeNo) \<and>
     (Ord_OrderType ord = OrderTypeLimit \<and> 0 < Ord_Price ord \<or>
      Ord_OrderType ord = OrderTypeMarket) \<and>
     (is_open ord \<longrightarrow> 0 < Ord_RemainingQuantity ord \<and> covered ord)"

definition resting :: "store \<Rightarrow> string \<Rightarrow> string \<Rightarrow> string \<Rightarrow> string \<Rightarrow> bool" where
  "resting st ev oc s r \<longleftrightarrow>
     (\<exists>ord. st r = Some ord \<and> is_open ord \<and> 0 < Ord_RemainingQuantity ord \<and>
        Ord_EventID ord = ev \<and> Ord_Outcome ord = oc \<and> Ord_Side ord = s \<and>
        Ord_OrderType ord = OrderTypeLimit)"

definition book_ok :: "store \<Rightarrow> string \<Rightarrow> string \<Rightarrow> OrderBook \<Rightarrow> bool" where
  "book_ok st ev oc book \<longleftrightarrow>
     distinct (Bids book) \<and> distinct (Asks book) \<and>
     (\<forall>r\<in>set (Bids book). resting st ev oc SideBuy r) \<and>
     (\<forall>r\<in>set (Asks book). resting st ev oc SideSell r) \<and>
     sorted_wrt (\<lambda>i j. Ord_Price (deref st i) \<ge> Ord_Price (deref st j)) (Bids book) \<and>
     sorted_wrt (\<lambda>i j. Ord_Price (deref st i) \<le> Ord_Price (deref st j)) (Asks book)"

definition books_ok :: "Engine \<Rightarrow> bool" where
  "books_ok e \<longleftrightarrow> (\<forall>ev m oc book. markets e ev = Some m \<longrightarrow> Book m oc = Some book \<longrightarrow>
     book_ok (orders e) ev oc book)"

definition orders_ok :: "Engine \<Rightarrow> bool" where
  "orders_ok e \<longleftrightarrow> (\<forall>i ord. orders e i = Some ord \<longrightarrow> order_ok i ord)"

definition engine_ok :: "Engine \<Rightarrow> bool" where
  "engine_ok e \<longleftrightarrow> ledger_ok e \<and> orders_ok e \<and> books_ok e"

text \<open>No book of the engine lists the order.\<close>

definition unlisted :: "string \<Rightarrow> Engine \<Rightarrow> bool" where
  "unlisted i e \<longleftrightarrow> (\<forall>ev m oc book. markets e ev = Some m \<longrightarrow> Book m oc = Some book \<longrightarrow>
     i \<notin> set (Bids book) \<and> i \<notin> set (Asks book))"

section \<open>Books and stores\<close>

text \<open>Two stores that agree on what a book looks at.\<close>

definition same_terms :: "Order \<Rightarrow> Order \<Rightarrow> bool" where
  "same_terms a b \<longleftrightarrow> Ord_ID a = Ord_ID b \<and> Ord_EventID a = Ord_EventID b \<and>
     Ord_UserID a = Ord_UserID b \<and> Ord_OrderType a = Ord_OrderType b \<and>
     Ord_Outcome a = Ord_Outcome b \<and> Ord_Side a = Ord_Side b \<and> Ord_Price a = Ord_Price b"

lemma sorted_price_cong:
  "(\<And>r. r \<in> set xs \<Longrightarrow> Ord_Price (deref st r) = Ord_Price (deref st' r)) \<Longrightarrow>
   sorted_wrt (\<lambda>i j. P (Ord_Price (deref st i)) (Ord_Price (deref st j))) xs \<longleftrightarrow>
   sorted_wrt (\<lambda>i j. P (Ord_Price (deref st' i)) (Ord_Price (deref st' j))) xs"
  by (induction xs) auto

text \<open>A book over a changed store, with some members dropped.\<close>

lemma book_ok_update:
  assumes "book_ok st ev oc book"
    and "distinct bids" "set bids \<subseteq> set (Bids book)"
    and "sorted_wrt (\<lambda>i j. Ord_Price (deref st i) \<ge> Ord_Price (deref st j)) bids"
    and "distinct asks" "set asks \<subseteq> set (Asks book)"
    and "sorted_wrt (\<lambda>i j. Ord_Price (deref st i) \<le> Ord_Price (deref st j)) asks"
    and keep: "\<And>r ord. r \<in> set bids \<union> set asks \<Longrightarrow> st r = Some ord \<Longrightarrow>
      \<exists>ord'. st' r = Some ord' \<and> same_terms ord ord' \<and> is_open ord' \<and> 0 < Ord_RemainingQuantity ord'"
  shows "book_ok st' ev oc \<lparr>Bids = bids, Asks = asks\<rparr>"
proof -
  have rest: "resting st' ev oc s r" if "r \<in> set bids \<union> set asks" "resting st ev oc s r" for r s
    using keep [OF that(1)] that(2) by (auto simp: resting_def same_terms_def)
  have price: "Ord_Price (deref st r) = Ord_Price (deref st' r)" if r: "r \<in> set bids \<union> set asks" for r
  proof -
    obtain ord where "st r = Some ord"
      using assms(1,3,6) r by (fastforce simp: book_ok_def resting_def)
    with keep [OF r this] show ?thesis by (auto simp: same_terms_def)
  qed
  have "sorted_wrt (\<lambda>i j. Ord_Price (deref st' i) \<ge> Ord_Price (deref st' j)) bids"
    using assms(4) sorted_price_cong [of bids st st' "\<lambda>a b. a \<ge> b"] price by simp
  moreover have "sorted_wrt (\<lambda>i j. Ord_Price (deref st' i) \<le> Ord_Price (deref st' j)) asks"
    using assms(7) sorted_price_cong [of asks st st' "\<lambda>a b. a \<le> b"] price by simp
  ultimately show ?thesis
    using assms(1-3,5,6) rest by (auto simp: book_ok_def)
qed

lemma book_ok_store:
  assumes "book_ok st ev oc book"
    and "\<And>r ord. r \<in> set (Bids book) \<union> set (Asks book) \<Longrightarrow> st r = Some ord \<Longrightarrow>
      \<exists>ord'. st' r = Some ord' \<and> same_terms ord ord' \<and> is_open ord' \<and> 0 < Ord_RemainingQuantity ord'"
  shows "book_ok st' ev oc book"
  using book_ok_update [of st ev oc book "Bids book" "Asks book" st'] assms
  by (cases book) (auto simp: book_ok_def)

text \<open>Inserting an open limit order.\<close>

lemma ordered_bids: "bid.ordered st xs \<longleftrightarrow>
    sorted_wrt (\<lambda>i j. Ord_Price (deref st i) \<ge> Ord_Price (deref st j)) xs"
  by (simp add: bid_less_def not_less)

lemma ordered_asks: "ask.ordered st xs \<longleftrightarrow>
    sorted_wrt (\<lambda>i j. Ord_Price (deref st i) \<le> Ord_Price (deref st j)) xs"
  by (simp add: ask_less_def not_less)

lemma distinct_sliceStable:
  "distinct (sliceStable (bid_less st) xs) = distinct xs"
  "distinct (sliceStable (ask_less st) xs) = distinct xs"
  by (simp_all add: bid.sliceStable_sort ask.sliceStable_sort)

lemma book_ok_addToBook:
  assumes "book_ok st ev oc book" and "resting st ev oc s i" and "s = SideBuy \<or> s = SideSell"
    and "i \<notin> set (Bids book)" "i \<notin> set (Asks book)"
  shows "book_ok st ev oc (addToBook st book i)"
proof -
  have s: "Ord_Side (deref st i) = s" using assms(2) by (auto simp: resting_def)
  show ?thesis
  proof (cases "s = SideBuy")
    case True
    have "sorted_wrt (\<lambda>i j. Ord_Price (deref st i) \<ge> Ord_Price (deref st j))
        (sliceStable (bid_less st) (Bids book @ [i]))"
      using bid.ordered_sliceStable [of st] by (simp add: ordered_bids [symmetric])
    with True s assms show ?thesis
      by (auto simp: addToBook_def book_ok_def bid.set_sliceStable distinct_sliceStable)
  next
    case False
    have "sorted_wrt (\<lambda>i j. Ord_Price (deref st i) \<le> Ord_Price (deref st j))
        (sliceStable (ask_less st) (Asks book @ [i]))"
      using ask.ordered_sliceStable [of st] by (simp add: ordered_asks [symmetric])
    with False s assms show ?thesis
      by (auto simp: addToBook_def book_ok_def ask.set_sliceStable distinct_sliceStable)
  qed
qed

section \<open>The cost of an allocation\<close>

definition cost_of :: "store \<Rightarrow> (string \<times> int) list \<Rightarrow> int" where
  "cost_of st F = (\<Sum>(r, q)\<leftarrow>F. q * Ord_Price (deref st r))"

text \<open>What an order of the store owes for the trades of an allocation.\<close>

definition owed :: "store \<Rightarrow> Order \<Rightarrow> (string \<times> int) list \<Rightarrow> string \<Rightarrow> Order \<Rightarrow> int" where
  "owed st t F i ord =
     (if i = Ord_ID t then
        (if Ord_Side ord \<noteq> Ord_Side t then 0
         else if Ord_Side t = SideBuy then cost_of st F else fill_total F)
      else if (Ord_Side ord = SideBuy) = (Ord_Side t = SideBuy) then 0
      else (case map_of F i of None \<Rightarrow> 0
            | Some q \<Rightarrow> if Ord_Side ord = SideBuy then q * Ord_Price (deref st i) else q))"

lemma cost_of_simps [simp]:
  "cost_of st [] = 0" "cost_of st ((r, q) # F) = q * Ord_Price (deref st r) + cost_of st F"
  by (simp_all add: cost_of_def)

lemma pending_trades_of:
  assumes "distinct (map fst F)" and "Ord_ID t \<notin> fst ` set F"
    and "\<forall>r\<in>fst ` set F. Ord_ID (deref st r) = r"
    and "i = Ord_ID t \<longrightarrow> Ord_Side ord = Ord_Side t"
  shows "pending (trades_of tids nows n st t F) i ord = owed st t F i ord"
  using assms
proof (induction F arbitrary: n)
  case (Cons f F)
  obtain r q where f: "f = (r, q)" by (cases f)
  have "r = i \<Longrightarrow> map_of F i = None"
    using Cons.prems(1) f by (auto simp: map_of_eq_None_iff)
  with Cons f show ?case
    by (auto simp: pending_Cons owed_def buyOrd_def sellOrd_def trade_cost_def buildTrade_def
        split: option.splits)
qed (simp add: owed_def)

lemma cost_of_le:
  "\<forall>(r, q)\<in>set F. 0 \<le> q \<and> Ord_Price (deref st r) \<le> p \<Longrightarrow> cost_of st F \<le> fill_total F * p"
  by (induction F) (auto simp: distrib_right intro!: add_mono mult_left_mono)

section \<open>matchOrder\<close>

text \<open>The allocation of an incoming order against the book of its market.\<close>

definition allocation :: "store \<Rightarrow> OrderBook \<Rightarrow> Order \<Rightarrow> (string \<times> int) list" where
  "allocation st book t =
     fills (Ord_RemainingQuantity t) (candidates st t (opposite (Ord_Side t) book))"

definition affordable :: "store \<Rightarrow> OrderBook \<Rightarrow> Order \<Rightarrow> bool" where
  "affordable st book t \<longleftrightarrow>
     (Ord_Side t = SideBuy \<and> Ord_OrderType t = OrderTypeMarket \<longrightarrow>
        cost_of st (allocation st book t) \<le> Ord_LockedFunds t)"

text \<open>An incoming order, stored and covered but not yet matched, and the book it meets.\<close>

definition incoming_ok :: "Engine \<Rightarrow> string \<Rightarrow> Order \<Rightarrow> Market \<Rightarrow> OrderBook \<Rightarrow> bool" where
  "incoming_ok e i t market book \<longleftrightarrow>
     orders e i = Some t \<and> is_open t \<and> unlisted i e \<and>
     markets e (Ord_EventID t) = Some market \<and> Book market (Ord_Outcome t) = Some book"

lemma book_side_ok:
  assumes "engine_ok e" and "incoming_ok e i t market book"
  shows "side_ok (orders e) (opposite s book)" "i \<notin> set (opposite s book)"
    "\<forall>r\<in>set (opposite s book). resting (orders e) (Ord_EventID t) (Ord_Outcome t)
        (if s = SideBuy then SideSell else SideBuy) r"
    "book_ok (orders e) (Ord_EventID t) (Ord_Outcome t) book"
proof -
  show b: "book_ok (orders e) (Ord_EventID t) (Ord_Outcome t) book"
    using assms by (auto simp: engine_ok_def books_ok_def incoming_ok_def)
  then show r: "\<forall>r\<in>set (opposite s book). resting (orders e) (Ord_EventID t) (Ord_Outcome t)
        (if s = SideBuy then SideSell else SideBuy) r"
    by (auto simp: book_ok_def opposite_def)
  show "i \<notin> set (opposite s book)"
    using assms(2) by (auto simp: incoming_ok_def unlisted_def opposite_def)
  have "distinct (opposite s book)" using b by (simp add: book_ok_def opposite_def)
  moreover have "\<exists>ord. orders e r = Some ord \<and> quantities_ok ord \<and> live ord"
    if rs: "r \<in> set (opposite s book)" for r
  proof -
    obtain ord where "orders e r = Some ord" "is_open ord" "0 < Ord_RemainingQuantity ord"
      using r rs by (auto simp: resting_def)
    with assms(1) show ?thesis
      by (auto simp: engine_ok_def orders_ok_def order_ok_def live_def is_open_def)
  qed
  ultimately show "side_ok (orders e) (opposite s book)" by (simp add: side_ok_def)
qed

lemma incoming_order:
  assumes "engine_ok e" and "incoming_ok e i t market book"
  shows "Ord_ID t = i" "quantities_ok t" "0 < Ord_RemainingQuantity t" "covered t"
    "Ord_Side t = SideBuy \<or> Ord_Side t = SideSell" "orders e i = Some t" "order_ok i t"
  using assms by (auto simp: engine_ok_def orders_ok_def order_ok_def incoming_ok_def)

text \<open>A maker of the allocation.\<close>

lemma allocation_maker:
  assumes ok: "engine_ok e" and inc: "incoming_ok e i t market book"
    and rq: "(r, q) \<in> set (allocation (orders e) book t)"
  obtains m where "orders e r = Some m" "order_ok r m" "is_open m" "r \<noteq> i"
    "Ord_EventID m = Ord_EventID t" "Ord_Outcome m = Ord_Outcome t"
    "Ord_Side m = (if Ord_Side t = SideBuy then SideSell else SideBuy)"
    "Ord_OrderType m = OrderTypeLimit" "0 < Ord_Price m" "Ord_UserID m \<noteq> Ord_UserID t"
    "0 < q" "q \<le> Ord_RemainingQuantity m" "q \<le> Ord_RemainingQuantity t" "canMatch t m"
    "r \<in> set (opposite (Ord_Side t) book)"
proof -
  note c = fill_of_candidate [OF rq [unfolded allocation_def]]
  note b = book_side_ok(1-3) [OF ok inc, of "Ord_Side t"]
  from b(3) c(1) obtain m where m: "orders e r = Some m" "is_open m"
    "Ord_EventID m = Ord_EventID t" "Ord_Outcome m = Ord_Outcome t"
    "Ord_Side m = (if Ord_Side t = SideBuy then SideSell else SideBuy)"
    "Ord_OrderType m = OrderTypeLimit"
    by (auto simp: resting_def)
  have "order_ok r m" using ok m(1) by (auto simp: engine_ok_def orders_ok_def)
  with m c b(2) show thesis
    by (intro that [of m]) (auto simp: order_ok_def eligible_def)
qed

text \<open>The store after the loop and the status update, and the orders it holds.\<close>

definition matched_store :: "store \<Rightarrow> OrderBook \<Rightarrow> string \<Rightarrow> Order \<Rightarrow> store" where
  "matched_store st book i t =
     (let F = allocation st book t; t1 = taker_fill (fill_total F) t
      in (after_fills i F st)(i \<mapsto> t1\<lparr>Ord_Status := fst (status_after t1)\<rparr>))"

definition matched_book :: "store \<Rightarrow> OrderBook \<Rightarrow> string \<Rightarrow> Order \<Rightarrow> OrderBook" where
  "matched_book st book i t =
     (let st2 = matched_store st book i t;
          book1 = set_opposite (Ord_Side t)
                    (filter (\<lambda>r. 0 < Ord_RemainingQuantity (deref st2 r))
                      (opposite (Ord_Side t) book)) book
      in if snd (status_after (taker_fill (fill_total (allocation st book t)) t))
         then addToBook st2 book1 i else book1)"

definition matched_trades ::
  "(nat \<Rightarrow> string) \<Rightarrow> (nat \<Rightarrow> int) \<Rightarrow> store \<Rightarrow> OrderBook \<Rightarrow> Order \<Rightarrow> Trade list" where
  "matched_trades tids nows st book t = trades_of tids nows 0 st t (allocation st book t)"

lemma status_after_status [simp]: "status_after (t\<lparr>Ord_Status := x\<rparr>) = status_after t"
  by (simp add: status_after_def)

lemma matchOrder_form:
  fixes e :: Engine and tids :: "nat \<Rightarrow> string" and nows :: "nat \<Rightarrow> int"
  assumes ok: "engine_ok e" and inc: "incoming_ok e i t market book"
  defines "e1 \<equiv> e\<lparr>orders := matched_store (orders e) book i t,
      markets := (markets e)(Ord_EventID t \<mapsto>
        setBook market (Ord_Outcome t) (matched_book (orders e) book i t))\<rparr>"
    and "trades \<equiv> matched_trades tids nows (orders e) book t"
    and "final \<equiv> Ord_Status (deref (matched_store (orders e) book i t) i)"
  shows "matchOrder_locked tids nows i e =
    (trades, if final = StatusFilled \<or> final = StatusCanceled
             then releaseOrderLocked i (fold settleTradeLocked trades e1)
             else fold settleTradeLocked trades e1)"
proof -
  note t = incoming_order [OF ok inc]
  note b = book_side_ok(1,2) [OF ok inc, of "Ord_Side t"]
  let ?F = "allocation (orders e) book t"
  let ?st = "after_fills i ?F (orders e)" and ?t = "taker_fill (fill_total ?F) t"
  have sti: "?st i = Some ?t" using t(6) by (rule after_fills_inc)
  have other: "filter (\<lambda>r. 0 < Ord_RemainingQuantity (deref ?st r)) (opposite (Ord_Side t) book) =
      filter (\<lambda>r. 0 < Ord_RemainingQuantity (deref (matched_store (orders e) book i t) r))
        (opposite (Ord_Side t) book)"
    using b(2) by (intro filter_cong) (auto simp: matched_store_def Let_def)
  have ms: "modify i (\<lambda>r. r\<lparr>Ord_Status := fst (status_after ?t)\<rparr>) ?st = matched_store (orders e) book i t"
    using sti by (simp add: modify_Some matched_store_def Let_def)
  have op: "Ord_Status t \<noteq> StatusCanceled" and mk: "markets e (Ord_EventID t) = Some market"
    "Book market (Ord_Outcome t) = Some book"
    using inc by (auto simp: incoming_ok_def is_open_def)
  have fin: "final = fst (status_after ?t)" by (simp add: final_def matched_store_def Let_def)
  show ?thesis
    using matchAgainstBook_refines [OF t(6,2) refl b refl, of tids nows "[]"] op mk t(6) sti ms other
    unfolding fin
    by (simp add: matchOrder_locked_def Let_def allocation_def [symmetric] case_prod_unfold
        matched_book_def matched_trades_def e1_def trades_def)
qed

section \<open>The trades of a match are covered\<close>

lemma matched_lookup:
  "matched_store st book i t j =
     (if j = i then
        (let t1 = taker_fill (fill_total (allocation st book t)) t
         in Some (t1\<lparr>Ord_Status := fst (status_after t1)\<rparr>))
      else (case map_of (allocation st book t) j of None \<Rightarrow> st j
            | Some q \<Rightarrow> map_option (maker_fill q) (st j)))"
  by (simp add: matched_store_def after_fills_def Let_def)

lemma same_terms_fills [simp]:
  "same_terms ord ord" "same_terms ord (maker_fill q ord)"
  "same_terms ord ((taker_fill q ord)\<lparr>Ord_Status := x\<rparr>)"
  "same_terms ord (ord\<lparr>Ord_LockedFunds := y\<rparr>)"
  by (simp_all add: same_terms_def)

text \<open>An order and its version after the match: same terms, same lock.\<close>

definition same_lock :: "Order \<Rightarrow> Order \<Rightarrow> bool" where
  "same_lock a b \<longleftrightarrow> same_terms a b \<and> Ord_LockedFunds a = Ord_LockedFunds b"

lemma matched_same_lock:
  "st i = Some t \<Longrightarrow> rel_option same_lock (st j) (matched_store st book i t j)"
  by (auto simp: matched_lookup same_lock_def Let_def option.rel_map intro: option.rel_refl
      split: option.split)

lemma dom_rel: "\<forall>j. rel_option R (m j) (m' j) \<Longrightarrow> dom m' = dom m"
proof -
  assume rel: "\<forall>j. rel_option R (m j) (m' j)"
  have "m' k = None \<longleftrightarrow> m k = None" for k
    using spec [OF rel, of k] by (cases "m k"; cases "m' k") auto
  then show ?thesis by (simp add: dom_def)
qed

lemma sum_map_rel:
  assumes rel: "\<forall>j. rel_option R (m j) (m' j)" and "\<And>a b. R a b \<Longrightarrow> f a = f b"
  shows "sum_map f m' = sum_map f m"
proof -
  have "f (the (m' k)) = f (the (m k))" if "k \<in> dom m" for k
    using spec [OF rel, of k] that assms(2) by (cases "m k"; cases "m' k") auto
  then show ?thesis unfolding sum_map_def dom_rel [OF rel] by (rule sum.cong [OF refl])
qed

lemma ledger_ok_same_lock:
  assumes "ledger_ok e" and "balances e' = balances e" and "positions e' = positions e"
    and rel: "\<forall>j. rel_option same_lock (orders e j) (orders e' j)"
  shows "ledger_ok e'"
proof -
  note L = ledger_okD [OF assms(1)]
  have "lock_cash u a = lock_cash u b" "lock_shares k a = lock_shares k b"
    if "same_lock a b" for u k a b
    using that by (auto simp: same_lock_def same_terms_def lock_cash_def lock_shares_def ord_key_def)
  then have "sum_map (lock_cash u) (orders e') = sum_map (lock_cash u) (orders e)"
    "sum_map (lock_shares k) (orders e') = sum_map (lock_shares k) (orders e)" for u k
    using sum_map_rel [OF rel] by blast+
  moreover note dom_rel [OF rel]
  moreover have "0 \<le> Ord_LockedFunds ord" if o': "orders e' i = Some ord" for i ord
    using spec [OF rel, of i] L(4) [of i] o' by (cases "orders e i") (auto simp: same_lock_def)
  ultimately show ?thesis
    using L assms(2,3) by (auto simp: ledger_ok_def)
qed

lemma allocation_keys:
  assumes "engine_ok e" and "incoming_ok e i t market book"
  shows "distinct (map fst (allocation (orders e) book t))"
    "i \<notin> fst ` set (allocation (orders e) book t)"
    "\<forall>r\<in>fst ` set (allocation (orders e) book t). Ord_ID (deref (orders e) r) = r"
proof -
  have "distinct (opposite (Ord_Side t) book)"
    using book_side_ok(1) [OF assms] by (simp add: side_ok_def)
  then show "distinct (map fst (allocation (orders e) book t))"
    unfolding allocation_def by (intro fills_distinct candidates_distinct)
  show "i \<notin> fst ` set (allocation (orders e) book t)"
    by (force elim!: allocation_maker [OF assms])
  show "\<forall>r\<in>fst ` set (allocation (orders e) book t). Ord_ID (deref (orders e) r) = r"
    by (force simp: order_ok_def elim!: allocation_maker [OF assms])
qed

lemma allocation_total:
  assumes "engine_ok e" and "incoming_ok e i t market book"
  shows "0 \<le> fill_total (allocation (orders e) book t)"
    "fill_total (allocation (orders e) book t) \<le> Ord_RemainingQuantity t"
  using fill_total_le [of "Ord_RemainingQuantity t"] incoming_order(3) [OF assms]
  by (simp_all add: allocation_def)

text \<open>A limit BUY never pays more per share than its limit.\<close>

lemma allocation_cost_limit:
  assumes "engine_ok e" and "incoming_ok e i t market book"
    and "Ord_Side t = SideBuy" and "Ord_OrderType t = OrderTypeLimit"
  shows "cost_of (orders e) (allocation (orders e) book t)
    \<le> fill_total (allocation (orders e) book t) * Ord_Price t"
proof (rule cost_of_le, clarify)
  fix r q assume "(r, q) \<in> set (allocation (orders e) book t)"
  then show "0 \<le> q \<and> Ord_Price (deref (orders e) r) \<le> Ord_Price t"
    using assms(3,4) by (elim allocation_maker [OF assms(1,2)]) (simp add: canMatch_def split: if_splits)
qed

text \<open>
  After the trades an order still covers what is left of it: the lock minus what it owes bounds
  the remaining quantity times its price, or the remaining quantity.
\<close>

lemma owed_taker:
  assumes ok: "engine_ok e" and inc: "incoming_ok e i t market book"
    and aff: "affordable (orders e) book t"
  shows "owed (orders e) t (allocation (orders e) book t) i t \<le> Ord_LockedFunds t"
    and "covered (taker_fill (fill_total (allocation (orders e) book t)) t
      \<lparr>Ord_LockedFunds := Ord_LockedFunds t - owed (orders e) t (allocation (orders e) book t) i t\<rparr>)"
proof -
  let ?F = "allocation (orders e) book t"
  note t = incoming_order [OF ok inc] and tot = allocation_total [OF ok inc]
  have "owed (orders e) t ?F i t \<le> Ord_LockedFunds t \<and>
      covered (taker_fill (fill_total ?F) t\<lparr>Ord_LockedFunds := Ord_LockedFunds t - owed (orders e) t ?F i t\<rparr>)"
  proof (cases "Ord_Side t = SideBuy \<and> Ord_OrderType t = OrderTypeLimit")
    case True
    then have p: "0 \<le> Ord_Price t" using t(7) by (simp add: order_ok_def)
    note c = allocation_cost_limit [OF ok inc conjunct1 [OF True] conjunct2 [OF True]]
    have "fill_total ?F * Ord_Price t \<le> Ord_RemainingQuantity t * Ord_Price t"
      using tot(2) p by (rule mult_right_mono)
    with True t(1,4) c show ?thesis
      by (simp add: owed_def covered_def left_diff_distrib)
  next
    case False
    with t tot aff show ?thesis
      by (auto simp: owed_def covered_def affordable_def order_ok_def)
  qed
  then show "owed (orders e) t ?F i t \<le> Ord_LockedFunds t"
    and "covered (taker_fill (fill_total ?F) t\<lparr>Ord_LockedFunds := Ord_LockedFunds t - owed (orders e) t ?F i t\<rparr>)"
    by simp_all
qed

lemma owed_maker:
  assumes ok: "engine_ok e" and inc: "incoming_ok e i t market book"
    and rq: "map_of (allocation (orders e) book t) r = Some q" and m: "orders e r = Some m"
  defines "d \<equiv> owed (orders e) t (allocation (orders e) book t) r m"
  shows "d \<le> Ord_LockedFunds m" and "covered (maker_fill q m\<lparr>Ord_LockedFunds := Ord_LockedFunds m - d\<rparr>)"
proof -
  have t: "Ord_ID t = i" using incoming_order [OF ok inc] by simp
  have "(r, q) \<in> set (allocation (orders e) book t)" using rq by (rule map_of_SomeD)
  then obtain mo: "order_ok r m" "is_open m" "r \<noteq> i" "Ord_OrderType m = OrderTypeLimit"
    "Ord_Side m = (if Ord_Side t = SideBuy then SideSell else SideBuy)"
    "0 < q" "q \<le> Ord_RemainingQuantity m" "0 < Ord_Price m"
    using m by (elim allocation_maker [OF ok inc]) auto
  then have cov: "covered m" by (simp add: order_ok_def)
  have "q * Ord_Price m \<le> Ord_RemainingQuantity m * Ord_Price m"
    using mo by (intro mult_right_mono) simp_all
  with cov mo(4) have "Ord_Side m = SideBuy \<Longrightarrow> q * Ord_Price m \<le> Ord_LockedFunds m"
    unfolding covered_def by (auto simp only: if_True intro: order_trans)
  then have "d \<le> Ord_LockedFunds m \<and> covered (maker_fill q m\<lparr>Ord_LockedFunds := Ord_LockedFunds m - d\<rparr>)"
    using mo rq m t cov
    by (auto simp: d_def owed_def covered_def left_diff_distrib split: if_splits)
  then show "d \<le> Ord_LockedFunds m" and "covered (maker_fill q m\<lparr>Ord_LockedFunds := Ord_LockedFunds m - d\<rparr>)"
    by simp_all
qed

lemma owed_other:
  assumes "engine_ok e" and "incoming_ok e i t market book"
    and "j \<noteq> i" and "map_of (allocation (orders e) book t) j = None"
  shows "owed (orders e) t (allocation (orders e) book t) j ord = 0"
  using assms incoming_order(1) [OF assms(1,2)] by (simp add: owed_def)

section \<open>Settling the match\<close>

lemma matched_fits:
  assumes ok: "engine_ok e" and inc: "incoming_ok e i t market book"
    and tr: "tr \<in> set (matched_trades tids nows (orders e) book t)"
  shows "trade_fits (matched_store (orders e) book i t) tr"
proof -
  note t = incoming_order [OF ok inc]
  from tr obtain k r q where rq: "(r, q) \<in> set (allocation (orders e) book t)"
    and trd: "tr = buildTrade (tids k) (nows k) t (deref (orders e) r) q"
    unfolding matched_trades_def using set_trades_ofD by blast
  obtain m where m: "orders e r = Some m" "order_ok r m" "r \<noteq> i" "Ord_EventID m = Ord_EventID t"
    "Ord_Outcome m = Ord_Outcome t" "0 < Ord_Price m" "Ord_UserID m \<noteq> Ord_UserID t" "0 < q"
    "Ord_Side m = (if Ord_Side t = SideBuy then SideSell else SideBuy)"
    using rq by (rule allocation_maker [OF ok inc])
  have tl: "\<exists>t'. matched_store (orders e) book i t i = Some t' \<and> same_terms t t'"
    by (simp add: matched_lookup Let_def)
  have ml: "\<exists>m'. matched_store (orders e) book i t r = Some m' \<and> same_terms m m'"
    using m(1,3) by (auto simp: matched_lookup split: option.split)
  show ?thesis
    using tl ml m t(1) t(5)
    by (auto simp: trade_fits_def trd buildTrade_def buyOrd_def sellOrd_def order_ok_def
        same_terms_def ord_key_def)
qed

lemma matched_pending:
  assumes ok: "engine_ok e" and inc: "incoming_ok e i t market book"
    and "matched_store (orders e) book i t j = Some ord"
  shows "pending (matched_trades tids nows (orders e) book t) j ord =
    owed (orders e) t (allocation (orders e) book t) j ord"
  unfolding matched_trades_def
  using allocation_keys [OF ok inc] incoming_order(1) [OF ok inc] assms(3)
  by (intro pending_trades_of) (auto simp: matched_lookup Let_def)

text \<open>Every order of the matched store, with the order it comes from.\<close>

lemma matched_cases:
  assumes inc: "incoming_ok e i t market book"
    and "matched_store (orders e) book i t j = Some ord'"
  obtains (taker) "j = i"
      "ord' = taker_fill (fill_total (allocation (orders e) book t)) t
         \<lparr>Ord_Status := fst (status_after (taker_fill (fill_total (allocation (orders e) book t)) t))\<rparr>"
  | (maker) q m where "j \<noteq> i" "map_of (allocation (orders e) book t) j = Some q"
      "orders e j = Some m" "ord' = maker_fill q m"
  | (bystander) "j \<noteq> i" "map_of (allocation (orders e) book t) j = None" "orders e j = Some ord'"
  using assms by (auto simp: matched_lookup Let_def split: if_splits option.splits)

lemma owed_taker_matched:
  "owed st t F j (taker_fill a t\<lparr>Ord_Status := s\<rparr>) = owed st t F j t"
  "owed st t F j (maker_fill q m) = owed st t F j m"
  by (simp_all add: owed_def split: option.split)

lemma matched_funded:
  assumes ok: "engine_ok e" and inc: "incoming_ok e i t market book"
    and aff: "affordable (orders e) book t"
  shows "funded (matched_store (orders e) book i t) (matched_trades tids nows (orders e) book t)"
  unfolding funded_def
proof (intro allI impI)
  fix j ord assume j: "matched_store (orders e) book i t j = Some ord"
  note pend = matched_pending [OF ok inc j, of tids nows]
  from inc j show "pending (matched_trades tids nows (orders e) book t) j ord \<le> Ord_LockedFunds ord"
  proof (cases rule: matched_cases)
    case taker
    with owed_taker(1) [OF ok inc aff] pend show ?thesis by (simp add: owed_taker_matched)
  next
    case (maker q m)
    with owed_maker(1) [OF ok inc maker(2,3)] pend show ?thesis by (simp add: owed_taker_matched)
  next
    case bystander
    with owed_other [OF ok inc bystander(1,2)] ok pend show ?thesis
      by (auto simp: engine_ok_def dest: ledger_okD(4))
  qed
qed

text \<open>The state after the settlements: only locks moved.\<close>

lemma matched_settled:
  fixes e :: Engine and tids :: "nat \<Rightarrow> string" and nows :: "nat \<Rightarrow> int"
    and mk :: "string \<rightharpoonup> Market"
  assumes ok: "engine_ok e" and inc: "incoming_ok e i t market book"
    and aff: "affordable (orders e) book t"
  defines "e1 \<equiv> e\<lparr>orders := matched_store (orders e) book i t, markets := mk\<rparr>"
  defines "e2 \<equiv> fold settleTradeLocked (matched_trades tids nows (orders e) book t) e1"
  shows "ledger_ok e2" "total_cash e2 = total_cash e" "total_shares e2 = total_shares e"
    "markets e2 = mk"
    "orders e2 j = map_option (\<lambda>ord. ord\<lparr>Ord_LockedFunds := Ord_LockedFunds ord -
        owed (orders e) t (allocation (orders e) book t) j ord\<rparr>) (matched_store (orders e) book i t j)"
proof -
  have "ledger_ok e1"
  proof (rule ledger_ok_same_lock)
    show "ledger_ok e" using ok by (simp add: engine_ok_def)
    show "\<forall>j. rel_option same_lock (orders e j) (orders e1 j)"
      unfolding e1_def using matched_same_lock [of "orders e" i t, OF incoming_order(6) [OF ok inc]]
      by simp
  qed (simp_all add: e1_def)
  note S = settle_all [OF this, of "matched_trades tids nows (orders e) book t"]
  have o1: "orders e1 = matched_store (orders e) book i t" by (simp add: e1_def)
  have "ledger_ok e2 \<and> total_cash e2 = total_cash e1 \<and> total_shares e2 = total_shares e1 \<and>
    markets e2 = markets e1 \<and>
    orders e2 = (\<lambda>j. map_option (\<lambda>ord. ord\<lparr>Ord_LockedFunds := Ord_LockedFunds ord -
      pending (matched_trades tids nows (orders e) book t) j ord\<rparr>) (orders e1 j))"
    unfolding e2_def using matched_fits [OF ok inc] matched_funded [OF ok inc aff]
    by (intro S ballI) (simp_all only: o1)
  then show "ledger_ok e2" "total_cash e2 = total_cash e" "total_shares e2 = total_shares e"
    "markets e2 = mk"
    "orders e2 j = map_option (\<lambda>ord. ord\<lparr>Ord_LockedFunds := Ord_LockedFunds ord -
        owed (orders e) t (allocation (orders e) book t) j ord\<rparr>) (matched_store (orders e) book i t j)"
    using matched_pending [OF ok inc, of j]
    by (auto simp: e1_def total_cash_def total_shares_def intro!: option.map_cong)
qed

section \<open>The invariant after the match\<close>

lemma status_after_rests:
  "snd (status_after t) \<longleftrightarrow> is_open (t\<lparr>Ord_Status := fst (status_after t)\<rparr>)"
  "snd (status_after t) \<Longrightarrow> Ord_RemainingQuantity t \<noteq> 0"
  "snd (status_after t) \<Longrightarrow> Ord_OrderType t = OrderTypeLimit \<or> Ord_OrderType t \<noteq> OrderTypeMarket"
  "\<not> snd (status_after t) \<Longrightarrow> fst (status_after t) = StatusFilled \<or> fst (status_after t) = StatusCanceled"
  by (auto simp: status_after_def is_open_def split: if_splits)

lemma covered_status [simp]: "covered (ord\<lparr>Ord_Status := x\<rparr>) = covered ord"
  "covered (ord\<lparr>Ord_Status := x, Ord_LockedFunds := y\<rparr>) = covered (ord\<lparr>Ord_LockedFunds := y\<rparr>)"
  by (simp_all add: covered_def)

lemma quantities_ok_frame [simp]:
  "quantities_ok (ord\<lparr>Ord_Status := x\<rparr>) = quantities_ok ord"
  "quantities_ok (ord\<lparr>Ord_LockedFunds := y\<rparr>) = quantities_ok ord"
  by (simp_all add: quantities_ok_def)

lemma is_open_locked [simp]: "is_open (ord\<lparr>Ord_LockedFunds := y\<rparr>) = is_open ord"
  by (simp add: is_open_def)

lemma matched_orders_ok:
  assumes ok: "engine_ok e" and inc: "incoming_ok e i t market book"
    and aff: "affordable (orders e) book t"
    and j: "matched_store (orders e) book i t j = Some ord"
  shows "order_ok j (ord\<lparr>Ord_LockedFunds := Ord_LockedFunds ord -
      owed (orders e) t (allocation (orders e) book t) j ord\<rparr>)"
  using inc j
proof (cases rule: matched_cases)
  case taker
  let ?t = "taker_fill (fill_total (allocation (orders e) book t)) t"
  note t = incoming_order [OF ok inc] and tot = allocation_total [OF ok inc]
  have q: "quantities_ok ?t" using quantities_ok_fill [of t, OF t(2) tot] by simp
  moreover have "is_open ord \<Longrightarrow> 0 < Ord_RemainingQuantity ?t"
    using status_after_rests(1,2) [of ?t] q taker(2) by (simp add: quantities_ok_def)
  ultimately show ?thesis
    using taker t owed_taker(2) [OF ok inc aff]
    by (simp add: order_ok_def owed_taker_matched)
next
  case (maker q m)
  then obtain mo: "order_ok j m" "is_open m" "0 < q" "q \<le> Ord_RemainingQuantity m"
    using map_of_SomeD [OF maker(2)] by (elim allocation_maker [OF ok inc]) auto
  then have "quantities_ok (maker_fill q m)"
    using quantities_ok_fill [of m q] by (simp add: order_ok_def)
  moreover have "is_open ord \<Longrightarrow> 0 < Ord_RemainingQuantity m - q"
    using maker(4) mo(4) by (simp add: maker_fill_def is_open_def split: if_splits)
  ultimately show ?thesis
    using maker mo owed_maker(2) [OF ok inc maker(2,3)]
    by (simp add: order_ok_def owed_taker_matched)
next
  case bystander
  with owed_other [OF ok inc bystander(1,2), of ord] ok show ?thesis
    by (simp add: engine_ok_def orders_ok_def)
qed

text \<open>A member of a book that keeps a remainder stays open.\<close>

lemma matched_member:
  assumes ok: "engine_ok e" and inc: "incoming_ok e i t market book"
    and r: "r \<noteq> i" "orders e r = Some ord" "is_open ord" "0 < Ord_RemainingQuantity ord"
    and left: "r \<in> fst ` set (allocation (orders e) book t) \<Longrightarrow>
      0 < Ord_RemainingQuantity (deref (matched_store (orders e) book i t) r)"
  shows "\<exists>ord'. matched_store (orders e) book i t r = Some ord' \<and> same_terms ord ord' \<and>
    is_open ord' \<and> 0 < Ord_RemainingQuantity ord'"
proof (cases "map_of (allocation (orders e) book t) r")
  case None
  with r show ?thesis by (simp add: matched_lookup)
next
  case (Some q)
  then have "r \<in> fst ` set (allocation (orders e) book t)" by (force dest: map_of_SomeD)
  from left [OF this] Some r show ?thesis
    by (auto simp: matched_lookup deref_def maker_fill_def is_open_def same_terms_def)
qed

lemma allocation_member:
  "r \<in> fst ` set (allocation st book t) \<Longrightarrow> r \<in> set (opposite (Ord_Side t) book)"
  unfolding allocation_def using fill_of_candidate(1) by force

lemma matched_book_ok:
  assumes ok: "engine_ok e" and inc: "incoming_ok e i t market book"
  shows "book_ok (matched_store (orders e) book i t) (Ord_EventID t) (Ord_Outcome t)
    (matched_book (orders e) book i t)"
proof -
  let ?st = "matched_store (orders e) book i t" and ?s = "Ord_Side t"
  let ?P = "\<lambda>r. 0 < Ord_RemainingQuantity (deref ?st r)"
  let ?t = "taker_fill (fill_total (allocation (orders e) book t)) t"
  define bids asks where "bids = (if ?s = SideBuy then Bids book else filter ?P (Bids book))"
    and "asks = (if ?s = SideBuy then filter ?P (Asks book) else Asks book)"
  note t = incoming_order [OF ok inc]
  have b: "book_ok (orders e) (Ord_EventID t) (Ord_Outcome t) book"
    using book_side_ok(4) [OF ok inc] .
  have i: "i \<notin> set (Bids book)" "i \<notin> set (Asks book)"
    using inc by (auto simp: incoming_ok_def unlisted_def)
  have b1: "book_ok ?st (Ord_EventID t) (Ord_Outcome t) \<lparr>Bids = bids, Asks = asks\<rparr>"
  proof (rule book_ok_update [OF b])
    fix r ord assume r: "r \<in> set bids \<union> set asks" "orders e r = Some ord"
    have "r \<noteq> i" using r i by (auto simp: bids_def asks_def split: if_splits)
    moreover have "is_open ord" "0 < Ord_RemainingQuantity ord"
      using r b by (auto simp: bids_def asks_def book_ok_def resting_def split: if_splits)
    moreover have "?P r" if "r \<in> fst ` set (allocation (orders e) book t)"
    proof -
      have "r \<notin> set (Bids book) \<or> r \<notin> set (Asks book)"
        using b by (auto simp: book_ok_def resting_def dest!: bspec)
      with allocation_member [OF that] r show ?thesis
        by (auto simp: opposite_def bids_def asks_def split: if_splits)
    qed
    ultimately show "\<exists>ord'. ?st r = Some ord' \<and> same_terms ord ord' \<and> is_open ord' \<and>
        0 < Ord_RemainingQuantity ord'"
      using matched_member [OF ok inc _ r(2)] by blast
  qed (use b in \<open>auto simp: book_ok_def bids_def asks_def sorted_wrt_filter\<close>)
  have bk: "matched_book (orders e) book i t =
      (if snd (status_after ?t) then addToBook ?st \<lparr>Bids = bids, Asks = asks\<rparr> i
       else \<lparr>Bids = bids, Asks = asks\<rparr>)"
    by (cases book) (simp add: matched_book_def Let_def set_opposite_def opposite_def bids_def asks_def)
  have rest: "resting ?st (Ord_EventID t) (Ord_Outcome t) ?s i" if "snd (status_after ?t)"
  proof -
    have "0 < Ord_RemainingQuantity ?t"
      using status_after_rests(2) [OF that] quantities_ok_fill [OF t(2) allocation_total [OF ok inc]]
      by (simp add: quantities_ok_def)
    with that status_after_rests(1,3) [of ?t] t(7) show ?thesis
      by (auto simp: resting_def matched_lookup Let_def order_ok_def)
  qed
  show ?thesis
    using b1 book_ok_addToBook [OF b1 rest t(5)] i
    by (auto simp: bk bids_def asks_def split: if_splits)
qed

text \<open>Books of other markets do not notice the match.\<close>

lemma matched_other_book:
  assumes ok: "engine_ok e" and inc: "incoming_ok e i t market book"
    and m: "markets e ev = Some m" "Book m oc = Some b"
    and ne: "ev \<noteq> Ord_EventID t \<or> oc \<noteq> Ord_Outcome t"
  shows "book_ok (matched_store (orders e) book i t) ev oc b"
proof (rule book_ok_store)
  show b: "book_ok (orders e) ev oc b" using ok m by (auto simp: engine_ok_def books_ok_def)
  fix r ord assume r: "r \<in> set (Bids b) \<union> set (Asks b)" "orders e r = Some ord"
  have ord: "is_open ord" "0 < Ord_RemainingQuantity ord" "Ord_EventID ord = ev" "Ord_Outcome ord = oc"
    using r b by (auto simp: book_ok_def resting_def)
  have "r \<notin> fst ` set (allocation (orders e) book t)"
    using r(2) ord(3,4) ne by (auto elim!: allocation_maker [OF ok inc])
  moreover have "r \<noteq> i" using inc r m by (auto simp: incoming_ok_def unlisted_def)
  ultimately show "\<exists>ord'. matched_store (orders e) book i t r = Some ord' \<and> same_terms ord ord' \<and>
      is_open ord' \<and> 0 < Ord_RemainingQuantity ord'"
    using matched_member [OF ok inc _ r(2)] ord by blast
qed

text \<open>A change of locks does not touch the books.\<close>

lemma book_ok_locks:
  assumes "book_ok st ev oc b"
    and "\<And>r. \<exists>x. st' r = map_option (\<lambda>ord. ord\<lparr>Ord_LockedFunds := x\<rparr>) (st r)"
  shows "book_ok st' ev oc b"
proof (rule book_ok_store [OF assms(1)])
  fix r ord assume r: "r \<in> set (Bids b) \<union> set (Asks b)" "st r = Some ord"
  have "is_open ord" "0 < Ord_RemainingQuantity ord"
    using r assms(1) by (auto simp: book_ok_def resting_def)
  with assms(2) [of r] r(2) show "\<exists>ord'. st' r = Some ord' \<and> same_terms ord ord' \<and>
      is_open ord' \<and> 0 < Ord_RemainingQuantity ord'" by auto
qed

lemma matched_books_ok:
  assumes ok: "engine_ok e" and inc: "incoming_ok e i t market book"
    and mk: "markets e' = (markets e)(Ord_EventID t \<mapsto>
        setBook market (Ord_Outcome t) (matched_book (orders e) book i t))"
    and st: "\<And>r. \<exists>x. orders e' r = map_option (\<lambda>ord. ord\<lparr>Ord_LockedFunds := x\<rparr>)
        (matched_store (orders e) book i t r)"
  shows "books_ok e'"
  unfolding books_ok_def
proof (intro allI impI, rule book_ok_locks [OF _ st])
  fix ev m oc b assume m: "markets e' ev = Some m" "Book m oc = Some b"
  have old: "markets e (Ord_EventID t) = Some market" "Book market (Ord_Outcome t) = Some book"
    using inc by (simp_all add: incoming_ok_def)
  show "book_ok (matched_store (orders e) book i t) ev oc b"
  proof (cases "ev = Ord_EventID t \<and> oc = Ord_Outcome t")
    case True
    with m mk old matched_book_ok [OF ok inc] show ?thesis by (auto simp: Book_setBook)
  next
    case False
    have "\<exists>m'. markets e ev = Some m' \<and> Book m' oc = Some b"
    proof (cases "ev = Ord_EventID t")
      case True
      with m mk old False show ?thesis by (auto simp: Book_setBook)
    next
      case False
      with m mk show ?thesis by simp
    qed
    with False show ?thesis using matched_other_book [OF ok inc] by blast
  qed
qed

text \<open>
  The critical section of \<^verbatim>\<open>matchOrder\<close> keeps the invariant and the totals of cash and shares.
\<close>

lemma matchOrder_locked_ok:
  fixes e :: Engine and tids :: "nat \<Rightarrow> string" and nows :: "nat \<Rightarrow> int"
  assumes ok: "engine_ok e" and inc: "incoming_ok e i t market book"
    and aff: "affordable (orders e) book t"
  defines "e' \<equiv> snd (matchOrder_locked tids nows i e)"
  shows "engine_ok e'" "total_cash e' = total_cash e" "total_shares e' = total_shares e"
proof -
  let ?st = "matched_store (orders e) book i t"
  let ?mk = "(markets e)(Ord_EventID t \<mapsto>
      setBook market (Ord_Outcome t) (matched_book (orders e) book i t))"
  define e2 where "e2 = fold settleTradeLocked (matched_trades tids nows (orders e) book t)
      (e\<lparr>orders := ?st, markets := ?mk\<rparr>)"
  define final where "final = Ord_Status (deref ?st i)"
  note S = matched_settled [OF ok inc aff, of tids nows ?mk, folded e2_def]
  have e': "e' = (if final = StatusFilled \<or> final = StatusCanceled then releaseOrderLocked i e2 else e2)"
    unfolding e'_def matchOrder_form [OF ok inc] by (simp add: final_def e2_def)
  have st2: "\<exists>x. orders e2 r = map_option (\<lambda>ord. ord\<lparr>Ord_LockedFunds := x\<rparr>) (?st r)" for r
    using S(5) [of r] by (cases "?st r") auto
  have oo2: "orders_ok e2"
    unfolding orders_ok_def using S(5) matched_orders_ok [OF ok inc aff] by auto
  have ok2: "engine_ok e2"
    using S(1) oo2 matched_books_ok [OF ok inc S(4) st2] by (simp add: engine_ok_def)
  have "?st i \<noteq> None" by (simp add: matched_lookup Let_def)
  then obtain t' where t': "orders e2 i = Some t'" and fin: "Ord_Status t' = final"
    using st2 [of i] by (auto simp: final_def)
  note R = release_ledger_ok [OF S(1) t']
  have "engine_ok (releaseOrderLocked i e2)" if "\<not> is_open t'"
  proof -
    have "\<exists>x. orders (releaseOrderLocked i e2) r =
        map_option (\<lambda>ord. ord\<lparr>Ord_LockedFunds := x\<rparr>) (orders e2 r)" for r
      unfolding R(4) using t'
      by (cases "orders e2 r") (auto intro: exI [of _ "Ord_LockedFunds (the (orders e2 r))"])
    then have "books_ok (releaseOrderLocked i e2)"
      using ok2 R(5) book_ok_locks [of "orders e2"] by (simp add: books_ok_def engine_ok_def)
    moreover have "orders_ok (releaseOrderLocked i e2)"
      using oo2 t' that unfolding orders_ok_def R(4) by (auto simp: order_ok_def)
    ultimately show ?thesis using R(1) by (simp add: engine_ok_def)
  qed
  with e' fin ok2 show "engine_ok e'" by (auto simp: is_open_def split: if_splits)
  from e' S(2,3) R(2,3) show "total_cash e' = total_cash e" "total_shares e' = total_shares e"
    by (simp_all split: if_splits)
qed

end
