(* ===== verification/Outbox.thy ===== *)
theory Outbox
  imports Engine_State
begin

text \<open>
  Event emission: \<open>emitEventP\<close> of \<^verbatim>\<open>engine.go\<close> and the outbox of \<^verbatim>\<open>outbox.go\<close>.

  The outcome of each Redis or file operation is an argument: \<open>IoOk\<close>, done and acknowledged;
  \<open>IoLost\<close>, an error and nothing done; \<open>IoAckLost\<close>, an error although it was done (a timeout
  after the server applied the command, a failed fsync after the write). A write to the journal is
  taken to be whole or not at all.

  The emit cycle holds \<^verbatim>\<open>emitMu\<close> from the append to the reset, so it is one atomic operation on
  the journal and the two targets.
\<close>

section \<open>Definitions\<close>

datatype io = IoOk | IoLost | IoAckLost

definition applied :: "io \<Rightarrow> bool" where
  "applied r \<longleftrightarrow> r \<noteq> IoLost"

text \<open>What the environment answers in one emit cycle.\<close>

record EmitIO =
  Em_uuid :: string
  Em_now :: int
  Em_append :: io
  Em_xadd :: io
  Em_publish :: io
  Em_reset :: io

definition outboxAppend :: "io \<Rightarrow> Json \<Rightarrow> Engine \<Rightarrow> bool \<times> Engine" where
  "outboxAppend r data e =
     (r = IoOk, if applied r then e\<lparr>journal := journal e @ [data]\<rparr> else e)"

definition outboxReset :: "io \<Rightarrow> Engine \<Rightarrow> bool \<times> Engine" where
  "outboxReset r e = (r = IoOk, if applied r then e\<lparr>journal := []\<rparr> else e)"

definition xaddEvent :: "io \<Rightarrow> Json \<Rightarrow> Engine \<Rightarrow> bool \<times> Engine" where
  "xaddEvent r data e =
     (r = IoOk, if applied r then e\<lparr>outStream := outStream e @ [data]\<rparr> else e)"

definition publishWS :: "io \<Rightarrow> Json \<Rightarrow> Engine \<Rightarrow> bool \<times> Engine" where
  "publishWS r data e =
     (r = IoOk, if applied r then e\<lparr>wsOut := wsOut e @ [data]\<rparr> else e)"

text \<open>
  \<^verbatim>\<open>publishEnvelope\<close>: the stream, then the channel when \<open>broadcast\<close> is set. The results are
  whether there was no error, and the state.
\<close>

definition publishEnvelope :: "io \<Rightarrow> io \<Rightarrow> Json \<Rightarrow> bool \<Rightarrow> Engine \<Rightarrow> bool \<times> Engine" where
  "publishEnvelope rx rp envBytes broadcast e =
     (let (ok, e1) = xaddEvent rx envBytes e
      in if \<not> ok then (False, e1)
         else if broadcast then publishWS rp envBytes e1
         else (True, e1))"

text \<open>
  \<^verbatim>\<open>emitEventP\<close>. Indexing the sequence counters out of range panics (\<open>None\<close>).
\<close>

definition stampEnvelope :: "EmitIO \<Rightarrow> int \<Rightarrow> string \<Rightarrow> Json \<Rightarrow> Engine \<Rightarrow> EventEnvelope" where
  "stampEnvelope io pid typ data e =
     NewEnvelope (Em_uuid io) (Em_now io) typ data pid
       (case partitionToken e pid of None \<Rightarrow> 0 | Some tok \<Rightarrow> tok)
       (partitionSeq e ! nat pid + 1)"

definition emitEventP ::
  "EmitIO \<Rightarrow> int \<Rightarrow> string \<Rightarrow> Json \<Rightarrow> bool \<Rightarrow> Engine \<Rightarrow> (bool \<times> Engine) option" where
  "emitEventP io pid typ data broadcast e =
     (if isReplaying pid e then Some (True, e)
      else if \<not> redisManager e then Some (True, e)
      else if pid < 0 \<or> pid \<ge> int (length (partitionSeq e)) then None
      else
        (let env = stampEnvelope io pid typ data e;
             e1 = e\<lparr>partitionSeq := (partitionSeq e)[nat pid := partitionSeq e ! nat pid + 1]\<rparr>
         in case marshalEnvelope env of
              None \<Rightarrow> Some (False, e1)
            | Some envBytes \<Rightarrow>
                (let (ok1, e2) = (if outbox e1 then outboxAppend (Em_append io) envBytes e1
                                  else (True, e1))
                 in if \<not> ok1 then Some (False, e2)
                    else
                      (let (ok2, e3) = publishEnvelope (Em_xadd io) (Em_publish io) envBytes broadcast e2
                       in if \<not> ok2 then Some (False, e3)
                          else Some (True, if outbox e3 then snd (outboxReset (Em_reset io) e3)
                                           else e3)))))"

text \<open>The entry point \<^verbatim>\<open>emitEvent\<close> of the tests works on partition 0.\<close>

definition emitEvent :: "EmitIO \<Rightarrow> string \<Rightarrow> Json \<Rightarrow> bool \<Rightarrow> Engine \<Rightarrow> (bool \<times> Engine) option" where
  "emitEvent io typ data broadcast e = emitEventP io 0 typ data broadcast e"

text \<open>
  \<^verbatim>\<open>republishEnvelope\<close>: a line that cannot be read, or not be written again, is skipped with a
  log message and counts as a success.
\<close>

definition republishEnvelope :: "io \<Rightarrow> io \<Rightarrow> Json \<Rightarrow> Engine \<Rightarrow> bool \<times> Engine" where
  "republishEnvelope rx rp line e =
     (case unmarshalEnvelope line of
        None \<Rightarrow> (True, e)
      | Some env \<Rightarrow>
          (case marshalEnvelope env of
             None \<Rightarrow> (True, e)
           | Some envBytes \<Rightarrow> publishEnvelope rx rp envBytes (Env_Type env = EventTradeExecuted) e))"

fun republishAll :: "(nat \<Rightarrow> io) \<Rightarrow> (nat \<Rightarrow> io) \<Rightarrow> nat \<Rightarrow> Json list \<Rightarrow> Engine \<Rightarrow> bool \<times> Engine" where
  "republishAll rx rp k [] e = (True, e)"
| "republishAll rx rp k (line # lines) e =
     (let (ok, e1) = republishEnvelope (rx k) (rp k) line e
      in if ok then republishAll rx rp (Suc k) lines e1 else (False, e1))"

text \<open>\<^verbatim>\<open>Recover\<close>; \<open>readable\<close> is whether the journal file could be read.\<close>

definition Recover :: "bool \<Rightarrow> (nat \<Rightarrow> io) \<Rightarrow> (nat \<Rightarrow> io) \<Rightarrow> io \<Rightarrow> Engine \<Rightarrow> bool \<times> Engine" where
  "Recover readable rx rp rr e =
     (if \<not> readable then (False, e)
      else if journal e = [] then (True, e)
      else
        (let (ok, e1) = republishAll rx rp 0 (journal e) e
         in if ok then outboxReset rr e1 else (False, e1)))"

section \<open>Frame\<close>

text \<open>What the matching side of the engine looks at: the fields emission leaves alone.\<close>

definition same_core :: "Engine \<Rightarrow> Engine \<Rightarrow> bool" where
  "same_core e e' \<longleftrightarrow> markets e' = markets e \<and> orders e' = orders e \<and>
     balances e' = balances e \<and> positions e' = positions e \<and> replaying e' = replaying e"

lemma same_core_refl [simp]: "same_core e e"
  by (simp add: same_core_def)

lemma same_core_trans: "same_core e e' \<Longrightarrow> same_core e' e'' \<Longrightarrow> same_core e e''"
  by (simp add: same_core_def)

definition same_setup :: "Engine \<Rightarrow> Engine \<Rightarrow> bool" where
  "same_setup e e' \<longleftrightarrow> same_core e e' \<and> metrics e' = metrics e \<and>
     length (partitionSeq e') = length (partitionSeq e) \<and> router e' = router e \<and>
     partitions e' = partitions e \<and> partitionToken e' = partitionToken e \<and>
     redisManager e' = redisManager e \<and> outbox e' = outbox e"

lemma same_setup_refl [simp]: "same_setup e e"
  by (simp add: same_setup_def)

lemma same_setup_trans: "same_setup e e' \<Longrightarrow> same_setup e' e'' \<Longrightarrow> same_setup e e''"
  by (auto simp: same_setup_def intro: same_core_trans)

lemma io_steps_setup [simp]:
  "same_setup e (snd (outboxAppend r x e))" "same_setup e (snd (outboxReset r e))"
  "same_setup e (snd (xaddEvent r x e))" "same_setup e (snd (publishWS r x e))"
  by (simp_all add: same_setup_def same_core_def outboxAppend_def outboxReset_def xaddEvent_def
      publishWS_def)

lemma publishEnvelope_setup [simp]: "same_setup e (snd (publishEnvelope rx rp x b e))"
  by (auto simp: publishEnvelope_def Let_def case_prod_unfold
      intro: same_setup_trans [OF io_steps_setup(3) io_steps_setup(4)])

lemma emitEventP_frame:
  assumes "emitEventP io pid typ data broadcast e = Some (ok, e')"
  shows "same_setup e e'"
proof -
  let ?e1 = "e\<lparr>partitionSeq := (partitionSeq e)[nat pid := partitionSeq e ! nat pid + 1]\<rparr>"
  have "same_setup e ?e1" by (simp add: same_setup_def same_core_def)
  with assms show ?thesis
    by (auto simp: emitEventP_def Let_def case_prod_unfold split: if_splits option.splits
        intro!: io_steps_setup publishEnvelope_setup elim!: same_setup_trans
        intro: same_setup_trans [OF io_steps_setup(1) publishEnvelope_setup]
          same_setup_trans [OF publishEnvelope_setup io_steps_setup(2)]
          same_setup_trans [OF io_steps_setup(1)
            same_setup_trans [OF publishEnvelope_setup io_steps_setup(2)]])
qed

lemma emitEventP_total:
  assumes "0 \<le> pid" and "pid < int (length (partitionSeq e))"
  shows "\<exists>ok e'. emitEventP io pid typ data broadcast e = Some (ok, e')"
  using assms by (auto simp: emitEventP_def Let_def case_prod_unfold split: option.split)

lemma emitEventP_replaying: "isReplaying pid e \<Longrightarrow> emitEventP io pid typ data b e = Some (True, e)"
  by (simp add: emitEventP_def)

lemma republishAll_frame:
  "republishAll rx rp k lines e = (ok, e') \<Longrightarrow> same_setup e e' \<and> journal e' = journal e"
proof (induction lines arbitrary: k e)
  case (Cons line lines)
  obtain ok1 e1 where r: "republishEnvelope (rx k) (rp k) line e = (ok1, e1)"
    by (cases "republishEnvelope (rx k) (rp k) line e")
  have "journal (snd (publishEnvelope a b x c e)) = journal e" for a b x c
    by (simp add: publishEnvelope_def xaddEvent_def publishWS_def Let_def)
  then have "same_setup e e1 \<and> journal e1 = journal e"
    using r by (auto simp: republishEnvelope_def split: option.splits
        dest!: arg_cong [of _ "(ok1, e1)" snd])
  with Cons r show ?case by (auto split: if_splits intro: same_setup_trans)
qed simp

section \<open>Delivery\<close>

text \<open>An emit cycle that is not suppressed.\<close>

definition emits :: "int \<Rightarrow> Engine \<Rightarrow> bool" where
  "emits pid e \<longleftrightarrow> \<not> isReplaying pid e \<and> redisManager e \<and> outbox e \<and>
     0 \<le> pid \<and> pid < int (length (partitionSeq e))"

lemma emitEventP_open:
  assumes "emits pid e" and "marshalEnvelope (stampEnvelope io pid typ data e) = Some x"
  defines "e1 \<equiv> e\<lparr>partitionSeq := (partitionSeq e)[nat pid := partitionSeq e ! nat pid + 1]\<rparr>"
  shows "emitEventP io pid typ data b e =
    (let (ok1, e2) = outboxAppend (Em_append io) x e1
     in if \<not> ok1 then Some (False, e2)
        else (let (ok2, e3) = publishEnvelope (Em_xadd io) (Em_publish io) x b e2
              in if \<not> ok2 then Some (False, e3)
                 else Some (True, snd (outboxReset (Em_reset io) e3))))"
  using assms(1,2)
  by (simp add: emits_def emitEventP_def e1_def Let_def outboxAppend_def publishEnvelope_def
      xaddEvent_def publishWS_def)

text \<open>
C29: An event whose journal write was acknowledged is never lost by its own emit cycle: whatever
Redis does with the two commands, afterwards the envelope is on the event stream or still in the
journal; and a cycle that reports success has put it on the stream and, when it is to be
broadcast, on the WebSocket channel.
\<close>

theorem emitEventP_at_least_once:
  assumes "emits pid e" and "marshalEnvelope (stampEnvelope io pid typ data e) = Some x"
    and "Em_append io = IoOk"
  shows "\<exists>ok e'. emitEventP io pid typ data b e = Some (ok, e') \<and>
    (x \<in> set (outStream e') \<or> x \<in> set (journal e')) \<and>
    (ok \<longrightarrow> x \<in> set (outStream e') \<and> (b \<longrightarrow> x \<in> set (wsOut e')))"
  using assms
  by (cases "Em_xadd io"; cases "Em_publish io")
    (auto simp: emitEventP_open outboxAppend_def publishEnvelope_def xaddEvent_def publishWS_def
      outboxReset_def applied_def)

text \<open>
The exact effect of an emit cycle in which every operation succeeds: the envelope carries the
next sequence number of its partition and the partition's fencing token, that counter alone
advances, the stream grows by this envelope, the channel only for a broadcast, and the whole
journal is cut to nothing.
\<close>

theorem emitEventP_success:
  assumes "emits pid e" and "marshalEnvelope (stampEnvelope io pid typ data e) = Some x"
    and "Em_append io = IoOk" "Em_xadd io = IoOk" "Em_publish io = IoOk" "Em_reset io = IoOk"
  shows "(emitEventP io pid typ data b e = Some (True, e
    \<lparr>partitionSeq := (partitionSeq e)
        [nat pid := Env_Sequence (stampEnvelope io pid typ data e)],
     outStream := outStream e @ [x], wsOut := wsOut e @ (if b then [x] else []), journal := []\<rparr>)) \<and>
    (Env_Sequence (stampEnvelope io pid typ data e) = partitionSeq e ! nat pid + 1) \<and>
    (Env_FencingToken (stampEnvelope io pid typ data e) =
      (case partitionToken e pid of None \<Rightarrow> 0 | Some tok \<Rightarrow> tok))"
  using assms
  by (simp_all add: emitEventP_open outboxAppend_def publishEnvelope_def xaddEvent_def publishWS_def
      outboxReset_def applied_def stampEnvelope_def NewEnvelope_def)

section \<open>Recovery\<close>

text \<open>What a journal line is published as; \<open>None\<close> when it is skipped.\<close>

definition readable_line :: "Json \<Rightarrow> Json option" where
  "readable_line line = (case unmarshalEnvelope line of None \<Rightarrow> None | Some env \<Rightarrow> marshalEnvelope env)"

text \<open>A line that the engine wrote is published unchanged.\<close>

lemma readable_line_written:
  assumes "marshalEnvelope env = Some x" and "in_i64 (Env_PartitionID env)" and "Env_Data env \<noteq> JBad"
  shows "readable_line x = Some x"
  using envelope_json_roundtrip [OF assms] assms(1) by (simp add: readable_line_def)

lemma republishEnvelope_stream:
  assumes "republishEnvelope rx rp line e = (ok, e')"
  shows "set (outStream e) \<subseteq> set (outStream e')"
    and "ok \<Longrightarrow> outStream e' = outStream e @ (case readable_line line of None \<Rightarrow> [] | Some y \<Rightarrow> [y])"
  using assms
  by (auto simp: republishEnvelope_def publishEnvelope_def xaddEvent_def publishWS_def applied_def
      readable_line_def Let_def split: option.splits if_splits)

lemma republishAll_stream:
  "republishAll rx rp k lines e = (ok, e') \<Longrightarrow>
     set (outStream e) \<subseteq> set (outStream e') \<and>
     (ok \<longrightarrow> outStream e' = outStream e @ List.map_filter readable_line lines)"
proof (induction lines arbitrary: k e)
  case (Cons line lines)
  obtain ok1 e1 where r: "republishEnvelope (rx k) (rp k) line e = (ok1, e1)"
    by (cases "republishEnvelope (rx k) (rp k) line e")
  note S = republishEnvelope_stream [OF r]
  show ?case
  proof (cases ok1)
    case True
    with Cons.prems r have "republishAll rx rp (Suc k) lines e1 = (ok, e')" by simp
    from Cons.IH [OF this] S True show ?thesis
      by (auto split: option.splits)
  next
    case False
    with Cons.prems r S show ?thesis by simp
  qed
qed simp


section \<open>An earlier event can be cut off\<close>

text \<open>
The reset of a later, successful emit also drops envelopes that an earlier cycle could not
publish. With Redis down for one event and up again for the next, the first event is neither on
the stream nor in the journal, although nothing crashed.
\<close>

theorem outbox_drops_unpublished:
  assumes e: "emits pid e" "x \<notin> set (outStream e)"
    and m1: "marshalEnvelope (stampEnvelope io1 pid typ1 d1 e) = Some x"
    and io1: "Em_append io1 = IoOk" "Em_xadd io1 = IoLost"
    and r1: "emitEventP io1 pid typ1 d1 b1 e = Some (ok1, e1)"
    and m2: "marshalEnvelope (stampEnvelope io2 pid typ2 d2 e1) = Some y" "y \<noteq> x"
    and io2: "Em_append io2 = IoOk" "Em_xadd io2 = IoOk" "Em_publish io2 = IoOk" "Em_reset io2 = IoOk"
  shows "\<not> ok1 \<and> x \<in> set (journal e1) \<and>
    (\<exists>e2. emitEventP io2 pid typ2 d2 b2 e1 = Some (True, e2) \<and> x \<notin> set (outStream e2) \<and>
      journal e2 = [])"
proof -
  from emitEventP_open [OF e(1) m1] r1 io1 have e1: "\<not> ok1"
    "e1 = e\<lparr>partitionSeq := (partitionSeq e)[nat pid := partitionSeq e ! nat pid + 1],
           journal := journal e @ [x]\<rparr>"
    by (auto simp: outboxAppend_def publishEnvelope_def xaddEvent_def applied_def)
  have "emits pid e1" using e(1) e1(2) by (simp add: emits_def isReplaying_def)
  from emitEventP_open [OF this m2(1)] io2 e e1 m2(2) show ?thesis
    by (simp add: outboxAppend_def publishEnvelope_def xaddEvent_def publishWS_def outboxReset_def
        applied_def)
qed

section \<open>A concrete run\<close>

text \<open>A fresh engine, one that owns partition 0, and two answers of the environment.\<close>

definition freshEngine :: Engine where
  "freshEngine = the (newEngine True (Some []))"

definition okIO :: "string \<Rightarrow> EmitIO" where
  "okIO u = \<lparr>Em_uuid = u, Em_now = 0, Em_append = IoOk, Em_xadd = IoOk, Em_publish = IoOk,
     Em_reset = IoOk\<rparr>"

definition downIO :: "string \<Rightarrow> EmitIO" where
  "downIO u = (okIO u)\<lparr>Em_xadd := IoLost\<rparr>"

lemma freshEngine_emits: "emits 0 freshEngine"
  by (simp add: emits_def freshEngine_def newEngine_def isReplaying_def)

lemma marshalTime_0: "marshalTime 0 = Some (JTime (rfc3339 0) 0)"
proof -
  have "civil_of_days 0 = (1970, 1, 1)" by code_simp
  then show ?thesis by (simp add: marshalTime_def)
qed

lemma marshal_at_0:
  assumes "Em_now io = 0"
  obtains x r where "marshalEnvelope (stampEnvelope io pid typ d e) = Some x"
    "x = JObj ((''id'', JStr (Em_uuid io)) # r)"
  using assms
  by (simp add: marshalEnvelope_def stampEnvelope_def NewEnvelope_def marshalTime_0)

lemma exampleIO_now [simp]: "Em_now (okIO u) = 0" "Em_now (downIO u) = 0"
  "Em_uuid (okIO u) = u" "Em_uuid (downIO u) = u"
  by (simp_all add: okIO_def downIO_def)

theorem emitEventP_at_least_once_witness:
  "\<exists>x ok e'. marshalEnvelope (stampEnvelope (downIO ''u'') 0 EventTradeExecuted JNull freshEngine) = Some x \<and>
     emitEventP (downIO ''u'') 0 EventTradeExecuted JNull True freshEngine = Some (ok, e') \<and>
     (x \<in> set (outStream e') \<or> x \<in> set (journal e'))"
proof -
  obtain x where x: "marshalEnvelope (stampEnvelope (downIO ''u'') 0 EventTradeExecuted JNull freshEngine) = Some x"
    by (rule marshal_at_0 [of "downIO ''u''" 0 EventTradeExecuted JNull freshEngine]) auto
  from emitEventP_at_least_once [OF freshEngine_emits x, of True] x show ?thesis
    by (auto simp: downIO_def okIO_def)
qed

theorem emitEventP_success_witness:
  "\<exists>x e'. emitEventP (okIO ''u'') 0 EventTradeExecuted JNull True freshEngine = Some (True, e') \<and>
     outStream e' = [x] \<and> wsOut e' = [x] \<and> journal e' = [] \<and> partitionSeq e' = [1]"
proof -
  obtain x where x: "marshalEnvelope (stampEnvelope (okIO ''u'') 0 EventTradeExecuted JNull freshEngine) = Some x"
    by (rule marshal_at_0 [of "okIO ''u''" 0 EventTradeExecuted JNull freshEngine]) auto
  have "partitionSeq freshEngine = [0]" "outStream freshEngine = []" "wsOut freshEngine = []"
    by (simp_all add: freshEngine_def newEngine_def)
  moreover note emitEventP_success [OF freshEngine_emits x, of True]
  ultimately show ?thesis
    by (intro exI [of _ x]) (simp add: okIO_def del: exI)
qed

theorem outbox_drops_unpublished_witness:
  "\<exists>x e1 e2. emitEventP (downIO ''u'') 0 EventTradeExecuted JNull True freshEngine = Some (False, e1) \<and>
     x \<in> set (journal e1) \<and>
     emitEventP (okIO ''v'') 0 EventTradeExecuted JNull True e1 = Some (True, e2) \<and>
     x \<notin> set (outStream e2) \<and> journal e2 = []"
proof -
  obtain x r where x: "marshalEnvelope (stampEnvelope (downIO ''u'') 0 EventTradeExecuted JNull freshEngine) = Some x"
    "x = JObj ((''id'', JStr ''u'') # r)"
    by (rule marshal_at_0 [of "downIO ''u''" 0 EventTradeExecuted JNull freshEngine]) auto
  obtain ok1 e1 where e1: "emitEventP (downIO ''u'') 0 EventTradeExecuted JNull True freshEngine = Some (ok1, e1)"
    using emitEventP_total [of 0 freshEngine "downIO ''u''" EventTradeExecuted JNull True]
      freshEngine_emits by (auto simp: emits_def)
  obtain y r' where y: "marshalEnvelope (stampEnvelope (okIO ''v'') 0 EventTradeExecuted JNull e1) = Some y"
    "y = JObj ((''id'', JStr ''v'') # r')"
    by (rule marshal_at_0 [of "okIO ''v''" 0 EventTradeExecuted JNull e1]) auto
  have "x \<notin> set (outStream freshEngine)" by (simp add: freshEngine_def newEngine_def)
  from outbox_drops_unpublished [where ?b2.0 = True, OF freshEngine_emits this x(1) _ _ e1 y(1)] x(2) y(2) e1
  show ?thesis by (auto simp: downIO_def okIO_def)
qed


end
