(* ===== verification/Engine_Handlers.thy ===== *)
theory Engine_Handlers
  imports Matching Outbox
begin

text \<open>
  The command handlers of \<^verbatim>\<open>internal/engine/engine.go\<close> (and \<open>handleUserCreated\<close> of
  \<^verbatim>\<open>ledger.go\<close>): decoding of the request, the checks in the order of the source, the critical
  sections, the emitted events and the response.

  A handler takes the answers of its environment as a \<open>HandlerIO\<close> record (fresh UUIDs, clock
  readings, the outcome of every Redis and journal operation, the iteration order of the Go maps
  it ranges over) and returns the response and the new engine, or \<open>None\<close> where the Go code panics.
  The sections between a lock and the unlock are definitions of their own (\<open>admit_locked\<close>,
  \<open>matchOrder_locked\<close>, \<open>cancel_locked\<close>).
\<close>

section \<open>Responses\<close>

record EngineResponse =
  Res_Success :: bool
  Res_Error :: string
  Res_RequestID :: string
  Res_Data :: Json

definition failure :: "string \<Rightarrow> EngineResponse" where
  "failure message = \<lparr>Res_Success = False, Res_Error = message, Res_RequestID = [], Res_Data = JBad\<rparr>"

text \<open>The argument is what \<^verbatim>\<open>json.Marshal\<close> made of the value; only a time can fail.\<close>

definition timeError :: string where
  "timeError = ''json: error calling MarshalJSON for type time.Time''"

definition successJSON :: "Json option \<Rightarrow> EngineResponse" where
  "successJSON value =
     (case value of
        None \<Rightarrow> failure timeError
      | Some data \<Rightarrow> \<lparr>Res_Success = True, Res_Error = [], Res_RequestID = [], Res_Data = data\<rparr>)"

definition ErrEventNotFound :: string where "ErrEventNotFound = ''event not found''"
definition ErrOrderNotFound :: string where "ErrOrderNotFound = ''order not found''"
definition ErrOrderNotCancelable :: string where
  "ErrOrderNotCancelable = ''order cannot be canceled''"

definition reserve_message :: "reserve_error \<Rightarrow> string" where
  "reserve_message err =
     (case err of ErrInsufficientFunds \<Rightarrow> ''insufficient balance for order''
      | ErrInsufficientShares \<Rightarrow> ''insufficient shares for order'')"

section \<open>Requests\<close>

text \<open>The anonymous structs of the handlers; each decodes the members it has a field for.\<close>

record Request =
  Req_OrderID :: string
  Req_EventID :: string
  Req_UserID :: string
  Req_OrderType :: string
  Req_Outcome :: string
  Req_Side :: string
  Req_Quantity :: int
  Req_Price :: int

definition zeroRequest :: Request where
  "zeroRequest = \<lparr>Req_OrderID = [], Req_EventID = [], Req_UserID = [], Req_OrderType = [],
     Req_Outcome = [], Req_Side = [], Req_Quantity = 0, Req_Price = 0\<rparr>"

text \<open>The field table of a struct that has the fields \<open>fs\<close>.\<close>

definition set_Request_field :: "string list \<Rightarrow> string \<Rightarrow> Json \<Rightarrow> Request \<Rightarrow> Request option" where
  "set_Request_field fs k v r =
     (if eq_fold k ''orderId'' \<and> ''orderId'' \<in> set fs
        then map_option (\<lambda>x. r\<lparr>Req_OrderID := x\<rparr>) (dec_string v (Req_OrderID r))
      else if eq_fold k ''eventId'' \<and> ''eventId'' \<in> set fs
        then map_option (\<lambda>x. r\<lparr>Req_EventID := x\<rparr>) (dec_string v (Req_EventID r))
      else if eq_fold k ''userId'' \<and> ''userId'' \<in> set fs
        then map_option (\<lambda>x. r\<lparr>Req_UserID := x\<rparr>) (dec_string v (Req_UserID r))
      else if eq_fold k ''orderType'' \<and> ''orderType'' \<in> set fs
        then map_option (\<lambda>x. r\<lparr>Req_OrderType := x\<rparr>) (dec_string v (Req_OrderType r))
      else if eq_fold k ''outcome'' \<and> ''outcome'' \<in> set fs
        then map_option (\<lambda>x. r\<lparr>Req_Outcome := x\<rparr>) (dec_string v (Req_Outcome r))
      else if eq_fold k ''side'' \<and> ''side'' \<in> set fs
        then map_option (\<lambda>x. r\<lparr>Req_Side := x\<rparr>) (dec_string v (Req_Side r))
      else if eq_fold k ''quantity'' \<and> ''quantity'' \<in> set fs
        then map_option (\<lambda>x. r\<lparr>Req_Quantity := x\<rparr>) (dec_i64 v (Req_Quantity r))
      else if eq_fold k ''price'' \<and> ''price'' \<in> set fs
        then map_option (\<lambda>x. r\<lparr>Req_Price := x\<rparr>) (dec_i64 v (Req_Price r))
      else Some r)"

definition decodeRequest :: "string list \<Rightarrow> Json \<Rightarrow> Request option" where
  "decodeRequest fs payload = unmarshal (set_Request_field fs) payload zeroRequest"

definition order_fields :: "string list" where
  "order_fields = [''orderId'', ''eventId'', ''userId'', ''orderType'', ''outcome'', ''side'',
     ''quantity'', ''price'']"

record HandlerIO =
  H_uuid :: string
  H_now :: int
  H_emit :: EmitIO
  H_tids :: "nat \<Rightarrow> string"
  H_nows :: "nat \<Rightarrow> int"
  H_trade :: "nat \<Rightarrow> EmitIO"
  H_levels :: "nat \<Rightarrow> int list"
  H_orders :: "string list"

section \<open>Markets and users\<close>

definition handleCreateEvent :: "Json \<Rightarrow> Engine \<Rightarrow> EngineResponse \<times> Engine" where
  "handleCreateEvent payload e =
     (case decodeRequest [''eventId''] payload of
        None \<Rightarrow> (failure ''invalid payload'', e)
      | Some req \<Rightarrow>
          if Req_EventID req = [] then (failure ''eventId is required'', e)
          else
            (case markets e (Req_EventID req) of
               Some m \<Rightarrow> (successJSON (Some (JObj [(''status'', JStr ''already_exists'')])), e)
             | None \<Rightarrow> (successJSON (Some (JObj [(''status'', JStr ''created'')])),
                 e\<lparr>markets := (markets e)(Req_EventID req \<mapsto> NewMarket)\<rparr>)))"

definition handleUserCreated :: "Json \<Rightarrow> Engine \<Rightarrow> EngineResponse \<times> Engine" where
  "handleUserCreated payload e =
     (case decodeRequest [''userId''] payload of
        None \<Rightarrow> (failure ''invalid payload'', e)
      | Some req \<Rightarrow>
          if Req_UserID req = [] then (failure ''userId is required'', e)
          else
            (successJSON (Some (JObj [(''status'', JStr ''ok'')])),
             (case balances e (Req_UserID req) of
                Some b \<Rightarrow> e
              | None \<Rightarrow> e\<lparr>balances := (balances e)(Req_UserID req \<mapsto>
                    zeroBalance\<lparr>Bal_Available := DefaultStartingBalance\<rparr>)\<rparr>)))"

section \<open>Creating an order\<close>

text \<open>The order object a request describes; \<open>oid\<close> is the request's ID or a fresh one.\<close>

definition requestOrder :: "string \<Rightarrow> int \<Rightarrow> Request \<Rightarrow> Order" where
  "requestOrder oid now req =
     \<lparr>Ord_ID = oid, Ord_EventID = Req_EventID req, Ord_UserID = Req_UserID req,
      Ord_OrderType = Req_OrderType req, Ord_Outcome = Req_Outcome req, Ord_Side = Req_Side req,
      Ord_Quantity = Req_Quantity req, Ord_FilledQuantity = 0,
      Ord_RemainingQuantity = Req_Quantity req, Ord_Price = Req_Price req,
      Ord_Status = StatusPending, Ord_LockedFunds = 0, Ord_CreatedAt = now\<rparr>"

text \<open>The first critical section of \<^verbatim>\<open>handleCreateOrderCore\<close>.\<close>

datatype admission = Duplicate Order | NoEvent | NoFunds reserve_error | Admitted Order

definition admit_locked :: "Order \<Rightarrow> Engine \<Rightarrow> admission \<times> Engine" where
  "admit_locked ord e =
     (case orders e (Ord_ID ord) of
        Some existing \<Rightarrow> (Duplicate existing, e)
      | None \<Rightarrow>
          (case markets e (Ord_EventID ord) of
             None \<Rightarrow> (NoEvent, e)
           | Some market \<Rightarrow>
               (case reserveOrderLocked ord e of
                  (Some err, ord', e1) \<Rightarrow> (NoFunds err, e1)
                | (None, ord', e1) \<Rightarrow>
                    (Admitted ord', e1\<lparr>orders := (orders e1)(Ord_ID ord' \<mapsto> ord')\<rparr>))))"

text \<open>The clean-up when the new order could not be announced.\<close>

definition dropOrder :: "string \<Rightarrow> Engine \<Rightarrow> Engine" where
  "dropOrder i e = e\<lparr>orders := (orders e)(i := None)\<rparr>"

definition publishTrade :: "EmitIO \<Rightarrow> int \<Rightarrow> Trade \<Rightarrow> Engine \<Rightarrow> (bool \<times> Engine) option" where
  "publishTrade io pid trade e =
     (case marshalTrade trade of
        None \<Rightarrow> Some (False, e)
      | Some data \<Rightarrow> emitEventP io pid EventTradeExecuted data True e)"

text \<open>The loop over the trades at the end of \<^verbatim>\<open>matchOrder\<close>; a failed publication is only logged.\<close>

fun publishTrades :: "(nat \<Rightarrow> EmitIO) \<Rightarrow> int \<Rightarrow> nat \<Rightarrow> Trade list \<Rightarrow> Engine \<Rightarrow> Engine option" where
  "publishTrades ios pid k [] e = Some e"
| "publishTrades ios pid k (trade # trades) e =
     (let e1 = e\<lparr>metrics := (metrics e)\<lparr>TradesExecuted := TradesExecuted (metrics e) + 1\<rparr>\<rparr>
      in case publishTrade (ios k) pid trade e1 of
           None \<Rightarrow> None
         | Some (ok, e2) \<Rightarrow> publishTrades ios pid (Suc k) trades e2)"

definition matchOrder ::
  "HandlerIO \<Rightarrow> string \<Rightarrow> int \<Rightarrow> Engine \<Rightarrow> (Trade list \<times> Engine) option" where
  "matchOrder io i pid e =
     (let (trades, e1) = matchOrder_locked (H_tids io) (H_nows io) i e
      in if isReplaying pid e1 then Some (trades, e1)
         else
           (let e2 = (if Ord_Status (deref (orders e1) i) = StatusFilled
                      then e1\<lparr>metrics := (metrics e1)\<lparr>OrdersFilled := OrdersFilled (metrics e1) + 1\<rparr>\<rparr>
                      else e1)
            in case publishTrades (H_trade io) pid 0 trades e2 of
                 None \<Rightarrow> None
               | Some e3 \<Rightarrow> Some (trades, e3)))"

text \<open>
  \<^verbatim>\<open>json.Marshal\<close> of a Go map writes the keys in sorted order.
\<close>

definition orderReply :: "Order \<Rightarrow> Json" where
  "orderReply ord = JObj [(''filledQuantity'', JInt (Ord_FilledQuantity ord)),
     (''orderId'', JStr (Ord_ID ord)),
     (''remainingQuantity'', JInt (Ord_RemainingQuantity ord)),
     (''status'', JStr (Ord_Status ord))]"

definition statusReply :: "string \<Rightarrow> string \<Rightarrow> Json" where
  "statusReply oid status = JObj [(''orderId'', JStr oid), (''status'', JStr status)]"

definition announceOrder :: "HandlerIO \<Rightarrow> int \<Rightarrow> Order \<Rightarrow> Engine \<Rightarrow> (EngineResponse \<times> Engine) option" where
  "announceOrder io pid ord e =
     (case marshalOrder ord of
        None \<Rightarrow> Some (failure ''failed to serialize order'', dropOrder (Ord_ID ord) e)
      | Some orderData \<Rightarrow>
          (case emitEventP (H_emit io) pid EventOrderCreated orderData False e of
             None \<Rightarrow> None
           | Some (False, e1) \<Rightarrow>
               Some (failure ''failed to stream order creation'', dropOrder (Ord_ID ord) e1)
           | Some (True, e1) \<Rightarrow>
               (case matchOrder io (Ord_ID ord) pid e1 of
                  None \<Rightarrow> None
                | Some (trades, e2) \<Rightarrow>
                    Some (successJSON (Some (orderReply (deref (orders e2) (Ord_ID ord)))),
                      e2\<lparr>metrics := (metrics e2)
                           \<lparr>OrdersProcessed := OrdersProcessed (metrics e2) + 1\<rparr>\<rparr>))))"

definition handleCreateOrderCore ::
  "HandlerIO \<Rightarrow> int \<Rightarrow> Json \<Rightarrow> Engine \<Rightarrow> (EngineResponse \<times> Engine) option" where
  "handleCreateOrderCore io pid payload e =
     (case decodeRequest order_fields payload of
        None \<Rightarrow> Some (failure ''invalid payload'', e)
      | Some req \<Rightarrow>
          if Req_Quantity req \<le> 0
          then Some (failure ''quantity must be greater than zero'', e)
          else
            (let oid = (if Req_OrderID req = [] then H_uuid io else Req_OrderID req);
                 order = requestOrder oid (H_now io) req
             in case validateOrder order of
                  Some msg \<Rightarrow> Some (failure msg, e)
                | None \<Rightarrow>
                    (case admit_locked order e of
                       (Duplicate existing, e1) \<Rightarrow>
                         Some (successJSON (Some
                           (statusReply (Ord_ID existing) (Ord_Status existing))), e1)
                     | (NoEvent, e1) \<Rightarrow> Some (failure ErrEventNotFound, e1)
                     | (NoFunds err, e1) \<Rightarrow> Some (failure (reserve_message err), e1)
                     | (Admitted ord, e1) \<Rightarrow> announceOrder io pid ord e1)))"

definition handleCreateOrderP ::
  "HandlerIO \<Rightarrow> int \<Rightarrow> Json \<Rightarrow> Engine \<Rightarrow> (EngineResponse \<times> Engine) option" where
  "handleCreateOrderP io pid payload e =
     (case handleCreateOrderCore io pid payload e of
        None \<Rightarrow> None
      | Some (resp, e1) \<Rightarrow>
          Some (resp,
            if isReplaying pid e1 then e1
            else if Res_Success resp
            then e1\<lparr>metrics := (metrics e1)\<lparr>OrdersAccepted := OrdersAccepted (metrics e1) + 1\<rparr>\<rparr>
            else e1\<lparr>metrics := (metrics e1)\<lparr>OrdersRejected := OrdersRejected (metrics e1) + 1\<rparr>\<rparr>))"

definition handleCreateOrder :: "HandlerIO \<Rightarrow> Json \<Rightarrow> Engine \<Rightarrow> (EngineResponse \<times> Engine) option" where
  "handleCreateOrder io payload e = handleCreateOrderP io 0 payload e"

section \<open>Canceling an order\<close>

text \<open>
  The critical section: \<open>Inl\<close> is the error text. A nil book is dereferenced (\<open>None\<close>).
\<close>

definition cancel_locked :: "string \<Rightarrow> string \<Rightarrow> Engine \<Rightarrow> (string + Engine) option" where
  "cancel_locked oid ev e =
     (case orders e oid of
        None \<Rightarrow> Some (Inl ErrOrderNotFound)
      | Some order \<Rightarrow>
          if ev \<noteq> [] \<and> Ord_EventID order \<noteq> ev then Some (Inl ''order does not belong to event'')
          else if Ord_Status order = StatusFilled \<or> Ord_Status order = StatusCanceled \<or>
                  Ord_Status order = StatusRejected
            then Some (Inl ErrOrderNotCancelable)
          else
            (case markets e (Ord_EventID order) of
               None \<Rightarrow> Some (Inl ErrEventNotFound)
             | Some market \<Rightarrow>
                 (case Book market (Ord_Outcome order) of
                    None \<Rightarrow> None
                  | Some book \<Rightarrow>
                      (let book' = (if Ord_Side order = SideBuy
                             then book\<lparr>Bids := fst (removeOrderFromSlice (orders e) (Bids book) (Ord_ID order))\<rparr>
                             else book\<lparr>Asks := fst (removeOrderFromSlice (orders e) (Asks book) (Ord_ID order))\<rparr>);
                           e1 = e\<lparr>markets := (markets e)
                                    (Ord_EventID order \<mapsto> setBook market (Ord_Outcome order) book'),
                                  orders := modify oid (\<lambda>r. r\<lparr>Ord_Status := StatusCanceled\<rparr>) (orders e)\<rparr>
                       in Some (Inr (releaseOrderLocked oid e1))))))"

definition handleCancelOrderP ::
  "HandlerIO \<Rightarrow> int \<Rightarrow> Json \<Rightarrow> Engine \<Rightarrow> (EngineResponse \<times> Engine) option" where
  "handleCancelOrderP io pid payload e =
     (case decodeRequest [''orderId'', ''eventId''] payload of
        None \<Rightarrow> Some (failure ''invalid payload'', e)
      | Some req \<Rightarrow>
          if Req_OrderID req = [] then Some (failure ''orderId is required'', e)
          else
            (case cancel_locked (Req_OrderID req) (Req_EventID req) e of
               None \<Rightarrow> None
             | Some (Inl msg) \<Rightarrow> Some (failure msg, e)
             | Some (Inr e1) \<Rightarrow>
                 (let oid = Ord_ID (deref (orders e1) (Req_OrderID req));
                      e2 = (if isReplaying pid e1 then e1
                            else e1\<lparr>metrics := (metrics e1)
                                      \<lparr>OrdersCanceled := OrdersCanceled (metrics e1) + 1\<rparr>\<rparr>)
                  in case emitEventP (H_emit io) pid EventOrderCanceled
                            (JObj [(''orderId'', JStr oid)]) False e2 of
                       None \<Rightarrow> None
                     | Some (ok, e3) \<Rightarrow>
                         Some (successJSON (Some (statusReply oid StatusCanceled)), e3))))"

definition handleCancelOrder :: "HandlerIO \<Rightarrow> Json \<Rightarrow> Engine \<Rightarrow> (EngineResponse \<times> Engine) option" where
  "handleCancelOrder io payload e = handleCancelOrderP io 0 payload e"

end
