(* ===== verification/Engine_Queries.thy ===== *)
theory Engine_Queries
  imports Engine_Handlers
begin

text \<open>
  The read-only commands of \<^verbatim>\<open>engine.go\<close>: the depth of a market (\<open>aggregateBids\<close>,
  \<open>aggregateAsks\<close>, \<open>handleGetDepth\<close>) and the open orders of a user (\<open>handleGetOpenOrders\<close>).

  Both range over Go maps, whose iteration order is arbitrary: the order is an argument, a list of
  the keys. The depth is proved not to depend on it. \<^verbatim>\<open>sort.Slice\<close> is not stable; on price levels,
  which have pairwise different prices, every sorting algorithm gives the same list, so
  \<open>sliceStable\<close> stands for it.
\<close>

section \<open>Definitions\<close>

text \<open>The levels of a side: price to quantity and number of orders.\<close>

definition depth_counted :: "Order \<Rightarrow> bool" where
  "depth_counted ord \<longleftrightarrow>
     \<not> (Ord_Status ord \<noteq> StatusPending \<and> Ord_Status ord \<noteq> StatusPartial) \<and>
     \<not> Ord_RemainingQuantity ord \<le> 0"

fun addLevels :: "store \<Rightarrow> string list \<Rightarrow> (int \<rightharpoonup> int \<times> int) \<Rightarrow> (int \<rightharpoonup> int \<times> int)" where
  "addLevels st [] levels = levels"
| "addLevels st (i # is) levels =
     (let ord = deref st i in
      if \<not> depth_counted ord then addLevels st is levels
      else
        (let (q, c) = (case levels (Ord_Price ord) of None \<Rightarrow> (0, 0) | Some l \<Rightarrow> l)
         in addLevels st is (levels(Ord_Price ord \<mapsto>
              (i64 (q + Ord_RemainingQuantity ord), i64 (c + 1))))))"

definition levelEntry :: "(int \<rightharpoonup> int \<times> int) \<Rightarrow> int \<Rightarrow> OrderBookEntry" where
  "levelEntry levels price =
     (case levels price of
        None \<Rightarrow> \<lparr>Ent_Price = price, Ent_Quantity = 0, Ent_Total = 0, Ent_OrderCount = 0\<rparr>
      | Some (q, c) \<Rightarrow>
          \<lparr>Ent_Price = price, Ent_Quantity = q, Ent_Total = i64 (price * q), Ent_OrderCount = c\<rparr>)"

definition desc_price :: "OrderBookEntry \<Rightarrow> OrderBookEntry \<Rightarrow> bool" where
  "desc_price a b \<longleftrightarrow> Ent_Price a > Ent_Price b"

definition asc_price :: "OrderBookEntry \<Rightarrow> OrderBookEntry \<Rightarrow> bool" where
  "asc_price a b \<longleftrightarrow> Ent_Price a < Ent_Price b"

definition aggregateBids :: "int list \<Rightarrow> store \<Rightarrow> string list \<Rightarrow> OrderBookEntry list" where
  "aggregateBids iter st ids =
     sliceStable desc_price (map (levelEntry (addLevels st ids Map.empty)) iter)"

definition aggregateAsks :: "int list \<Rightarrow> store \<Rightarrow> string list \<Rightarrow> OrderBookEntry list" where
  "aggregateAsks iter st ids =
     sliceStable asc_price (map (levelEntry (addLevels st ids Map.empty)) iter)"

definition marshalEntry :: "OrderBookEntry \<Rightarrow> Json" where
  "marshalEntry en = JObj [(''price'', JInt (Ent_Price en)), (''quantity'', JInt (Ent_Quantity en)),
     (''total'', JInt (Ent_Total en)), (''orderCount'', JInt (Ent_OrderCount en))]"

definition marshalSide :: "DepthSide \<Rightarrow> Json" where
  "marshalSide s = JObj [(''bids'', JArr (map marshalEntry (Dep_Bids s))),
     (''asks'', JArr (map marshalEntry (Dep_Asks s)))]"

definition marshalDepth :: "Depth \<Rightarrow> Json" where
  "marshalDepth d = JObj [(''eventId'', JStr (Dep_EventID d)),
     (''yes'', marshalSide (Dep_Yes d)), (''no'', marshalSide (Dep_No d))]"

definition marketDepth :: "(nat \<Rightarrow> int list) \<Rightarrow> string \<Rightarrow> store \<Rightarrow> Market \<Rightarrow> Depth" where
  "marketDepth iter ev st market =
     \<lparr>Dep_EventID = ev,
      Dep_Yes = \<lparr>Dep_Bids = aggregateBids (iter 0) st (Bids (YES market)),
                 Dep_Asks = aggregateAsks (iter 1) st (Asks (YES market))\<rparr>,
      Dep_No = \<lparr>Dep_Bids = aggregateBids (iter 2) st (Bids (NO market)),
                Dep_Asks = aggregateAsks (iter 3) st (Asks (NO market))\<rparr>\<rparr>"

definition handleGetDepth :: "HandlerIO \<Rightarrow> Json \<Rightarrow> Engine \<Rightarrow> EngineResponse" where
  "handleGetDepth io payload e =
     (case decodeRequest [''eventId''] payload of
        None \<Rightarrow> failure ''invalid payload''
      | Some req \<Rightarrow>
          (case markets e (Req_EventID req) of
             None \<Rightarrow> failure ErrEventNotFound
           | Some market \<Rightarrow>
               successJSON (Some (marshalDepth
                 (marketDepth (H_levels io) (Req_EventID req) (orders e) market)))))"

text \<open>The orders a user has open on an event, in the map's iteration order, then by creation time.\<close>

definition openOrders :: "string list \<Rightarrow> string \<Rightarrow> string \<Rightarrow> store \<Rightarrow> Order list" where
  "openOrders iter ev u st =
     sliceStable (\<lambda>a b. Ord_CreatedAt a < Ord_CreatedAt b)
       (filter (\<lambda>ord. \<not> Ord_EventID ord \<noteq> ev \<and> \<not> Ord_UserID ord \<noteq> u \<and>
            \<not> (Ord_Status ord \<noteq> StatusPending \<and> Ord_Status ord \<noteq> StatusPartial))
          (List.map_filter st iter))"

definition marshalOrders :: "Order list \<Rightarrow> Json option" where
  "marshalOrders ords =
     (if \<exists>ord\<in>set ords. marshalOrder ord = None then None
      else Some (JArr (map (the \<circ> marshalOrder) ords)))"

definition handleGetOpenOrders :: "HandlerIO \<Rightarrow> Json \<Rightarrow> Engine \<Rightarrow> EngineResponse" where
  "handleGetOpenOrders io payload e =
     (case decodeRequest [''eventId'', ''userId''] payload of
        None \<Rightarrow> failure ''invalid payload''
      | Some req \<Rightarrow>
          successJSON (marshalOrders
            (openOrders (H_orders io) (Req_EventID req) (Req_UserID req) (orders e))))"

section \<open>Sorting levels and orders\<close>

text \<open>
  A comparison by a key: elements with different keys are comparable. Then a list with pairwise
  different keys has only one sorted arrangement, whatever order it starts from.
\<close>

locale keyed_order = slice_order lt for lt :: "'a \<Rightarrow> 'a \<Rightarrow> bool" +
  fixes key :: "'a \<Rightarrow> 'k"
  assumes lt_total: "key x \<noteq> key y \<Longrightarrow> lt x y \<or> lt y x"
begin

lemma strict_ordered: "ordered xs \<Longrightarrow> distinct (map key xs) \<Longrightarrow> sorted_wrt lt xs"
  using lt_total by (induction xs) (auto simp: image_iff)

lemma strict_sliceStable:
  assumes "distinct (map key xs)"
  shows "sorted_wrt lt (sliceStable lt xs)"
proof (rule strict_ordered [OF ordered_sliceStable])
  have "mset (map key (sliceStable lt xs)) = mset (map key xs)"
    by (simp add: mset_sliceStable)
  with assms show "distinct (map key (sliceStable lt xs))"
    using mset_eq_imp_distinct_iff by blast
qed

lemma strict_unique:
  "sorted_wrt lt xs \<Longrightarrow> sorted_wrt lt ys \<Longrightarrow> set xs = set ys \<Longrightarrow> xs = ys"
proof (induction xs arbitrary: ys)
  case (Cons x xs)
  then obtain y zs where ys: "ys = y # zs" by (cases ys) auto
  have "x = y"
    using Cons.prems ys lt_asym by (metis list.set_intros(1) set_ConsD sorted_wrt.simps(2))
  moreover have "x \<notin> set xs" "y \<notin> set zs"
    using Cons.prems ys lt_asym by (auto dest!: bspec)
  ultimately show ?case
    using Cons ys by (metis insert_ident list.simps(15) sorted_wrt.simps(2))
qed simp

lemma sliceStable_unique:
  "distinct (map key xs) \<Longrightarrow> distinct (map key ys) \<Longrightarrow> set xs = set ys \<Longrightarrow>
     sliceStable lt xs = sliceStable lt ys"
  by (intro strict_unique strict_sliceStable) (simp_all add: set_sliceStable)

end

interpretation bidlevels: keyed_order desc_price Ent_Price
  by unfold_locales (auto simp: desc_price_def)

interpretation asklevels: keyed_order asc_price Ent_Price
  by unfold_locales (auto simp: asc_price_def)

interpretation bytime: ranked "\<lambda>a b. Ord_CreatedAt a < Ord_CreatedAt b" Ord_CreatedAt
  by unfold_locales simp

section \<open>The depth of a side\<close>

text \<open>The specification: what a level must report.\<close>

definition at_price :: "store \<Rightarrow> string list \<Rightarrow> int \<Rightarrow> Order list" where
  "at_price st ids p =
     filter (\<lambda>ord. depth_counted ord \<and> Ord_Price ord = p) (map (deref st) ids)"

definition level_spec :: "store \<Rightarrow> string list \<Rightarrow> int \<Rightarrow> OrderBookEntry" where
  "level_spec st ids p =
     (let q = i64 (\<Sum>ord\<leftarrow>at_price st ids p. Ord_RemainingQuantity ord)
      in \<lparr>Ent_Price = p, Ent_Quantity = q, Ent_Total = i64 (p * q),
          Ent_OrderCount = i64 (int (length (at_price st ids p)))\<rparr>)"

definition level_prices :: "store \<Rightarrow> string list \<Rightarrow> int set" where
  "level_prices st ids = {p. at_price st ids p \<noteq> []}"

lemma i64_add_left: "i64 (i64 a + b) = i64 (a + b)"
proof -
  have "i64 a + b + 2 ^ 63 = (a + 2 ^ 63) mod 2 ^ 64 + b" by (simp add: i64_def)
  then have "(i64 a + b + 2 ^ 63) mod 2 ^ 64 = (a + 2 ^ 63 + b) mod 2 ^ 64"
    by (simp only: mod_add_left_eq)
  also have "a + 2 ^ 63 + b = a + b + (2 ^ 63 :: int)" by simp
  finally show ?thesis by (simp only: i64_def [of "i64 a + b"] i64_def [of "a + b"])
qed

lemma at_price_simps [simp]:
  "at_price st [] p = []"
  "at_price st (i # is) p = (if depth_counted (deref st i) \<and> Ord_Price (deref st i) = p
     then deref st i # at_price st is p else at_price st is p)"
  by (simp_all add: at_price_def)

lemma addLevels_lookup:
  "addLevels st ids levels p =
     (if at_price st ids p = [] then levels p
      else Some (case levels p of
          None \<Rightarrow> (i64 (\<Sum>ord\<leftarrow>at_price st ids p. Ord_RemainingQuantity ord),
                   i64 (int (length (at_price st ids p))))
        | Some (q, c) \<Rightarrow> (i64 (q + (\<Sum>ord\<leftarrow>at_price st ids p. Ord_RemainingQuantity ord)),
                   i64 (c + int (length (at_price st ids p))))))"
proof (induction ids arbitrary: levels)
  case (Cons i "is")
  then show ?case
    by (auto simp: Let_def i64_add_left add.assoc split: option.split)
qed simp

lemma levels_dom: "dom (addLevels st ids Map.empty) = level_prices st ids"
  by (auto simp: addLevels_lookup level_prices_def dom_def split: if_splits)

lemma levelEntry_spec: "p \<in> level_prices st ids \<Longrightarrow>
    levelEntry (addLevels st ids Map.empty) p = level_spec st ids p"
  by (simp add: levelEntry_def addLevels_lookup level_prices_def level_spec_def Let_def)

text \<open>An iteration order of the level map.\<close>

definition iterates :: "int list \<Rightarrow> store \<Rightarrow> string list \<Rightarrow> bool" where
  "iterates iter st ids \<longleftrightarrow> distinct iter \<and> set iter = dom (addLevels st ids Map.empty)"

lemma level_entries:
  assumes "iterates iter st ids"
  shows "map (levelEntry (addLevels st ids Map.empty)) iter = map (level_spec st ids) iter"
  using assms by (auto simp: iterates_def levels_dom levelEntry_spec)

lemma Ent_Price_spec [simp]: "Ent_Price (level_spec st ids p) = p"
  by (simp add: level_spec_def Let_def)

lemma distinct_level_keys: "iterates iter st ids \<Longrightarrow> distinct (map Ent_Price (map (level_spec st ids) iter))"
  by (simp add: iterates_def comp_def)

lemma set_level_entries:
  "iterates iter st ids \<Longrightarrow> set (map (level_spec st ids) iter) = level_spec st ids ` level_prices st ids"
  by (simp add: iterates_def levels_dom)

text \<open>
The bids of a depth report: one entry per price at which an open order rests, prices strictly
falling, and each entry holds the total remaining quantity and the number of the open orders at
its price. The report does not depend on the iteration order of the map that collects the levels.
\<close>

theorem aggregateBids_correct:
  assumes "iterates iter st ids"
  shows "(sorted_wrt (\<lambda>a b. Ent_Price a > Ent_Price b) (aggregateBids iter st ids)) \<and>
    (set (aggregateBids iter st ids) = level_spec st ids ` level_prices st ids) \<and>
    (iterates iter' st ids \<longrightarrow> aggregateBids iter' st ids = aggregateBids iter st ids)"
proof -
  have agg: "aggregateBids it st ids = sliceStable desc_price (map (level_spec st ids) it)"
    if "iterates it st ids" for it
    by (simp only: aggregateBids_def level_entries [OF that])
  have g1: "sorted_wrt (\<lambda>a b. Ent_Price a > Ent_Price b) (aggregateBids iter st ids)"
    using bidlevels.strict_sliceStable [OF distinct_level_keys [OF assms]]
    by (simp add: agg [OF assms] desc_price_def [abs_def])
  have g2: "set (aggregateBids iter st ids) = level_spec st ids ` level_prices st ids"
    by (simp only: agg [OF assms] bidlevels.set_sliceStable set_level_entries [OF assms])
  have g3: "aggregateBids iter' st ids = aggregateBids iter st ids" if "iterates iter' st ids"
    unfolding agg [OF that] agg [OF assms]
    by (rule bidlevels.sliceStable_unique)
      (simp_all only: distinct_level_keys set_level_entries that assms)
  from g1 g2 g3 show ?thesis by blast
qed

text \<open>
The asks of a depth report, in the same way with prices strictly rising.
\<close>

theorem aggregateAsks_correct:
  assumes "iterates iter st ids"
  shows "(sorted_wrt (\<lambda>a b. Ent_Price a < Ent_Price b) (aggregateAsks iter st ids)) \<and>
    (set (aggregateAsks iter st ids) = level_spec st ids ` level_prices st ids) \<and>
    (iterates iter' st ids \<longrightarrow> aggregateAsks iter' st ids = aggregateAsks iter st ids)"
proof -
  have agg: "aggregateAsks it st ids = sliceStable asc_price (map (level_spec st ids) it)"
    if "iterates it st ids" for it
    by (simp only: aggregateAsks_def level_entries [OF that])
  have g1: "sorted_wrt (\<lambda>a b. Ent_Price a < Ent_Price b) (aggregateAsks iter st ids)"
    using asklevels.strict_sliceStable [OF distinct_level_keys [OF assms]]
    by (simp add: agg [OF assms] asc_price_def [abs_def])
  have g2: "set (aggregateAsks iter st ids) = level_spec st ids ` level_prices st ids"
    by (simp only: agg [OF assms] asklevels.set_sliceStable set_level_entries [OF assms])
  have g3: "aggregateAsks iter' st ids = aggregateAsks iter st ids" if "iterates iter' st ids"
    unfolding agg [OF that] agg [OF assms]
    by (rule asklevels.sliceStable_unique)
      (simp_all only: distinct_level_keys set_level_entries that assms)
  from g1 g2 g3 show ?thesis by blast
qed

text \<open>
\<^verbatim>\<open>handleGetOpenOrders\<close> lists exactly the orders of the user on the event that are pending
or partially filled, oldest first.
\<close>

theorem openOrders_correct:
  assumes "set iter = dom st" and "distinct iter"
  shows "(set (openOrders iter ev u st) =
      {ord. (\<exists>i. st i = Some ord) \<and> Ord_EventID ord = ev \<and> Ord_UserID ord = u \<and>
         (Ord_Status ord = StatusPending \<or> Ord_Status ord = StatusPartial)}) \<and>
    (sorted_wrt (\<lambda>a b. Ord_CreatedAt a \<le> Ord_CreatedAt b) (openOrders iter ev u st))"
proof -
  have "set (List.map_filter st iter) = {ord. \<exists>i. st i = Some ord}"
    using assms(1) by (force simp: List.map_filter_def dom_def)
  then have g1: "set (openOrders iter ev u st) =
      {ord. (\<exists>i. st i = Some ord) \<and> Ord_EventID ord = ev \<and> Ord_UserID ord = u \<and>
         (Ord_Status ord = StatusPending \<or> Ord_Status ord = StatusPartial)}"
    unfolding openOrders_def bytime.set_sliceStable by auto
  have g2: "sorted_wrt (\<lambda>a b. Ord_CreatedAt a \<le> Ord_CreatedAt b) (openOrders iter ev u st)"
    using bytime.ordered_sliceStable unfolding openOrders_def by (simp add: not_less)
  from g1 g2 show ?thesis by blast
qed

section \<open>Concrete books\<close>

text \<open>Two bids of one price and one of a higher price.\<close>

definition sampleOrder :: "string \<Rightarrow> string \<Rightarrow> string \<Rightarrow> int \<Rightarrow> int \<Rightarrow> Order" where
  "sampleOrder i u side q p = zeroOrder\<lparr>Ord_ID := i, Ord_EventID := ''ev'', Ord_UserID := u,
     Ord_OrderType := OrderTypeLimit, Ord_Outcome := OutcomeYes, Ord_Side := side,
     Ord_Quantity := q, Ord_RemainingQuantity := q, Ord_Price := p, Ord_Status := StatusPending\<rparr>"

definition sampleStore :: store where
  "sampleStore = Map.empty(''a'' \<mapsto> sampleOrder ''a'' ''u1'' SideBuy 5 40,
     ''b'' \<mapsto> sampleOrder ''b'' ''u2'' SideBuy 7 50, ''c'' \<mapsto> sampleOrder ''c'' ''u1'' SideBuy 2 40)"

lemma sampleStore_iterates: "iterates [40, 50] sampleStore [''b'', ''a'', ''c'']"
  by (auto simp: iterates_def sampleStore_def sampleOrder_def depth_counted_def Let_def)

theorem aggregateBids_correct_witness:
  "aggregateBids [40, 50] sampleStore [''b'', ''a'', ''c''] =
     [\<lparr>Ent_Price = 50, Ent_Quantity = 7, Ent_Total = 350, Ent_OrderCount = 1\<rparr>,
      \<lparr>Ent_Price = 40, Ent_Quantity = 7, Ent_Total = 280, Ent_OrderCount = 2\<rparr>] \<and>
   sorted_wrt (\<lambda>a b. Ent_Price a > Ent_Price b) (aggregateBids [40, 50] sampleStore [''b'', ''a'', ''c''])"
  using aggregateBids_correct [OF sampleStore_iterates]
  by (simp add: aggregateBids_def sliceStable_def desc_price_def levelEntry_def sampleStore_def
      sampleOrder_def depth_counted_def Let_def)

theorem aggregateAsks_correct_witness:
  "map Ent_Price (aggregateAsks [40, 50] sampleStore [''b'', ''a'', ''c'']) = [40, 50] \<and>
   sorted_wrt (\<lambda>a b. Ent_Price a < Ent_Price b) (aggregateAsks [40, 50] sampleStore [''b'', ''a'', ''c''])"
  using aggregateAsks_correct [OF sampleStore_iterates]
  by (simp add: aggregateAsks_def sliceStable_def asc_price_def levelEntry_def sampleStore_def
      sampleOrder_def depth_counted_def Let_def)

theorem openOrders_correct_witness:
  "sampleOrder ''a'' ''u1'' SideBuy 5 40 \<in> set (openOrders [''a'', ''b'', ''c''] ''ev'' ''u1'' sampleStore)"
proof -
  have "set [''a'', ''b'', ''c''] = dom sampleStore" by (auto simp: sampleStore_def)
  from openOrders_correct [OF this, of "''ev''" "''u1''"] show ?thesis
    by (auto simp: sampleStore_def sampleOrder_def)
qed

end
