(* ===== verification/Redis_Commands.thy ===== *)
theory Redis_Commands
  imports Engine_Handlers
begin

text \<open>
  The command side of \<^verbatim>\<open>pkg/redis/manager.go\<close>: command envelopes, their routing to a partition
  stream, the append with its bounded retries, the fan-out to every partition, and the wait for
  the correlated reply.

  Redis is a parameter only through what its commands answered: each \<^verbatim>\<open>XADD\<close> has an \<^typ>\<open>io\<close>
  outcome, \<^verbatim>\<open>INCR\<close> a number or an error. The streams are state: a stream holds the entries in the
  order in which Redis accepted them.
\<close>

section \<open>Commands\<close>

definition CreateOrderCommand :: string where [predix_const]: "CreateOrderCommand = ''CREATE_ORDER''"
definition CancelOrderCommand :: string where [predix_const]: "CancelOrderCommand = ''CANCEL_ORDER''"
definition GetDepthCommand :: string where [predix_const]: "GetDepthCommand = ''GET_DEPTH''"
definition GetOpenOrdersCommand :: string where
  [predix_const]: "GetOpenOrdersCommand = ''GET_OPEN_ORDERS''"
definition CreateEventCommand :: string where [predix_const]: "CreateEventCommand = ''CREATE_EVENT''"
definition UserCreatedCommand :: string where [predix_const]: "UserCreatedCommand = ''USER_CREATED''"

record CommandEnvelope =
  Cmd_CommandID :: string
  Cmd_Type :: string
  Cmd_EventID :: string
  Cmd_RequestID :: string
  Cmd_Sequence :: "64 word"
  Cmd_Timestamp :: int
  Cmd_Payload :: Json

definition zeroCommand :: CommandEnvelope where
  "zeroCommand = \<lparr>Cmd_CommandID = [], Cmd_Type = [], Cmd_EventID = [], Cmd_RequestID = [],
     Cmd_Sequence = 0, Cmd_Timestamp = 0, Cmd_Payload = JBad\<rparr>"

text \<open>A field tagged \<^verbatim>\<open>omitempty\<close> is left out when it is the empty string.\<close>

definition omitempty :: "string \<Rightarrow> string \<Rightarrow> (string \<times> Json) list" where
  "omitempty k v = (if v = [] then [] else [(k, JStr v)])"

definition marshalCommand :: "CommandEnvelope \<Rightarrow> Json option" where
  "marshalCommand c =
     (case marshalTime (Cmd_Timestamp c) of None \<Rightarrow> None
      | Some ts \<Rightarrow> Some (JObj (
          [(''commandId'', JStr (Cmd_CommandID c)), (''type'', JStr (Cmd_Type c))]
          @ omitempty ''eventId'' (Cmd_EventID c) @ omitempty ''requestId'' (Cmd_RequestID c)
          @ [(''sequence'', JInt (uint (Cmd_Sequence c))), (''timestamp'', ts),
             (''payload'', rawJson (Cmd_Payload c))])))"

definition set_Command_field :: "string \<Rightarrow> Json \<Rightarrow> CommandEnvelope \<Rightarrow> CommandEnvelope option" where
  "set_Command_field k v r =
     (if eq_fold k ''commandId''
        then map_option (\<lambda>x. r\<lparr>Cmd_CommandID := x\<rparr>) (dec_string v (Cmd_CommandID r))
      else if eq_fold k ''type''
        then map_option (\<lambda>x. r\<lparr>Cmd_Type := x\<rparr>) (dec_string v (Cmd_Type r))
      else if eq_fold k ''eventId''
        then map_option (\<lambda>x. r\<lparr>Cmd_EventID := x\<rparr>) (dec_string v (Cmd_EventID r))
      else if eq_fold k ''requestId''
        then map_option (\<lambda>x. r\<lparr>Cmd_RequestID := x\<rparr>) (dec_string v (Cmd_RequestID r))
      else if eq_fold k ''sequence''
        then map_option (\<lambda>x. r\<lparr>Cmd_Sequence := x\<rparr>) (dec_u64 v (Cmd_Sequence r))
      else if eq_fold k ''timestamp''
        then map_option (\<lambda>x. r\<lparr>Cmd_Timestamp := x\<rparr>) (dec_time v (Cmd_Timestamp r))
      else if eq_fold k ''payload'' then Some (r\<lparr>Cmd_Payload := v\<rparr>)
      else Some r)"

definition unmarshalCommand :: "Json \<Rightarrow> CommandEnvelope option" where
  "unmarshalCommand j = unmarshal set_Command_field j zeroCommand"

section \<open>Routing\<close>

text \<open>A nil router is \<open>None\<close>.\<close>

definition streamFor :: "Router option \<Rightarrow> int \<Rightarrow> string" where
  "streamFor ro p = (case ro of None \<Rightarrow> ''commands'' | Some r \<Rightarrow> Stream r p)"

definition groupFor :: "Router option \<Rightarrow> int \<Rightarrow> string" where
  "groupFor ro p = (case ro of None \<Rightarrow> ''engines'' | Some r \<Rightarrow> Group r p)"

definition seqKeyFor :: "Router option \<Rightarrow> int \<Rightarrow> string" where
  "seqKeyFor ro p = (case ro of None \<Rightarrow> ''commands:sequence'' | Some r \<Rightarrow> SequenceKey r p)"

definition partitionFor :: "Router option \<Rightarrow> string \<Rightarrow> int" where
  "partitionFor ro ev =
     (case ro of None \<Rightarrow> 0 | Some r \<Rightarrow> if ev = [] then 0 else Partition r ev)"

text \<open>\<^verbatim>\<open>createEnvelope\<close>: \<open>incr\<close> is what \<^verbatim>\<open>INCR\<close> answered, \<open>None\<close> an error.\<close>

definition createEnvelope ::
  "64 word option \<Rightarrow> string \<Rightarrow> int \<Rightarrow> string \<Rightarrow> string \<Rightarrow> Json \<Rightarrow> CommandEnvelope" where
  "createEnvelope incr uuid now typ ev payload =
     \<lparr>Cmd_CommandID = uuid, Cmd_Type = typ, Cmd_EventID = ev, Cmd_RequestID = uuid,
      Cmd_Sequence = (case incr of None \<Rightarrow> 0 | Some n \<Rightarrow> n), Cmd_Timestamp = now,
      Cmd_Payload = payload\<rparr>"

section \<open>Appending commands\<close>

record StreamEntry =
  SE_clientId :: string
  SE_command :: "Json option"

type_synonym streams = "string \<Rightarrow> StreamEntry list"

definition xaddCommand :: "io \<Rightarrow> string \<Rightarrow> StreamEntry \<Rightarrow> streams \<Rightarrow> bool \<times> streams" where
  "xaddCommand r key en ss = (r = IoOk, if applied r then ss(key := ss key @ [en]) else ss)"

definition MaxAppendRetries :: nat where
  "MaxAppendRetries = 3"

text \<open>
  The retry loop of \<^verbatim>\<open>appendCommand\<close>. Its callers pass a background context, which is never
  done, so the loop leaves only on success or when the attempts are used up.
\<close>

fun appendLoop :: "(nat \<Rightarrow> io) \<Rightarrow> nat \<Rightarrow> nat \<Rightarrow> string \<Rightarrow> StreamEntry \<Rightarrow> streams \<Rightarrow> bool \<times> streams" where
  "appendLoop rs attempt 0 key en ss = (False, ss)"
| "appendLoop rs attempt (Suc n) key en ss =
     (let (ok, ss1) = xaddCommand (rs attempt) key en ss
      in if ok then (True, ss1) else appendLoop rs (Suc attempt) n key en ss1)"

definition appendCommand ::
  "(nat \<Rightarrow> io) \<Rightarrow> Router option \<Rightarrow> string \<Rightarrow> CommandEnvelope \<Rightarrow> int \<Rightarrow> streams \<Rightarrow> bool \<times> streams" where
  "appendCommand rs ro clientID env pid ss =
     (case marshalCommand env of
        None \<Rightarrow> (False, ss)
      | Some envBytes \<Rightarrow>
          appendLoop rs 0 MaxAppendRetries (streamFor ro pid)
            \<lparr>SE_clientId = clientID, SE_command = Some envBytes\<rparr> ss)"

definition SendCommand ::
  "io \<Rightarrow> Router option \<Rightarrow> 64 word option \<Rightarrow> string \<Rightarrow> int \<Rightarrow> string \<Rightarrow> string \<Rightarrow> Json \<Rightarrow> streams \<Rightarrow>
     bool \<times> streams" where
  "SendCommand r ro incr uuid now ev typ payload ss =
     (case marshalCommand (createEnvelope incr uuid now typ ev payload) of
        None \<Rightarrow> (False, ss)
      | Some envBytes \<Rightarrow>
          xaddCommand r (streamFor ro (partitionFor ro ev))
            \<lparr>SE_clientId = [], SE_command = Some envBytes\<rparr> ss)"

text \<open>
  \<^verbatim>\<open>SendCommandFanout\<close>: one envelope per partition, from \<open>p\<close> on, with the answers of the
  environment for each; the first error ends the loop.
\<close>

record FanIO =
  F_incr :: "64 word option"
  F_uuid :: string
  F_now :: int
  F_xadd :: io

fun fanoutFrom ::
  "(nat \<Rightarrow> FanIO) \<Rightarrow> Router \<Rightarrow> string \<Rightarrow> Json \<Rightarrow> nat \<Rightarrow> nat \<Rightarrow> streams \<Rightarrow> bool \<times> streams" where
  "fanoutFrom ios r typ payload p 0 ss = (True, ss)"
| "fanoutFrom ios r typ payload p (Suc n) ss =
     (case marshalCommand (createEnvelope (F_incr (ios p)) (F_uuid (ios p)) (F_now (ios p))
             typ [] payload) of
        None \<Rightarrow> (False, ss)
      | Some envBytes \<Rightarrow>
          (let (ok, ss1) = xaddCommand (F_xadd (ios p)) (Stream r (int p))
                 \<lparr>SE_clientId = [], SE_command = Some envBytes\<rparr> ss
           in if ok then fanoutFrom ios r typ payload (Suc p) n ss1 else (False, ss1)))"

definition SendCommandFanout ::
  "(nat \<Rightarrow> FanIO) \<Rightarrow> Router option \<Rightarrow> string \<Rightarrow> Json \<Rightarrow> streams \<Rightarrow> bool \<times> streams" where
  "SendCommandFanout ios ro typ payload ss =
     (case ro of
        None \<Rightarrow> SendCommand (F_xadd (ios 0)) None (F_incr (ios 0)) (F_uuid (ios 0)) (F_now (ios 0))
                  [] typ payload ss
      | Some r \<Rightarrow> fanoutFrom ios r typ payload 0 (nat (Partitions r)) ss)"

section \<open>Awaiting the reply\<close>

definition marshalResponse :: "EngineResponse \<Rightarrow> Json" where
  "marshalResponse r = JObj ([(''success'', JBool (Res_Success r))]
     @ omitempty ''error'' (Res_Error r) @ omitempty ''requestId'' (Res_RequestID r)
     @ (if Res_Data r = JBad then [] else [(''data'', Res_Data r)]))"

fun dec_bool :: "Json \<Rightarrow> bool \<Rightarrow> bool option" where
  "dec_bool (JBool b) old = Some b"
| "dec_bool JNull old = Some old"
| "dec_bool _ old = None"

definition set_Response_field :: "string \<Rightarrow> Json \<Rightarrow> EngineResponse \<Rightarrow> EngineResponse option" where
  "set_Response_field k v r =
     (if eq_fold k ''success''
        then map_option (\<lambda>x. r\<lparr>Res_Success := x\<rparr>) (dec_bool v (Res_Success r))
      else if eq_fold k ''error''
        then map_option (\<lambda>x. r\<lparr>Res_Error := x\<rparr>) (dec_string v (Res_Error r))
      else if eq_fold k ''requestId''
        then map_option (\<lambda>x. r\<lparr>Res_RequestID := x\<rparr>) (dec_string v (Res_RequestID r))
      else if eq_fold k ''data'' then Some (r\<lparr>Res_Data := v\<rparr>)
      else Some r)"

definition unmarshalResponse :: "Json \<Rightarrow> EngineResponse option" where
  "unmarshalResponse j = unmarshal set_Response_field j
     \<lparr>Res_Success = False, Res_Error = [], Res_RequestID = [], Res_Data = JBad\<rparr>"

text \<open>What the \<^verbatim>\<open>select\<close> of \<^verbatim>\<open>awaitResponse\<close> takes in each round.\<close>

datatype await_event = Message Json | ChannelClosed | ContextDone | TimerFired

datatype await_error = ErrChannelClosed | ErrBadReply | ErrContext | ErrTimeout

text \<open>The loop; \<open>None\<close> while the rounds seen so far have not ended it.\<close>

fun awaitResponse :: "string \<Rightarrow> await_event list \<Rightarrow> (await_error + EngineResponse) option" where
  "awaitResponse requestID [] = None"
| "awaitResponse requestID (Message payload # evs) =
     (case unmarshalResponse payload of
        None \<Rightarrow> Some (Inl ErrBadReply)
      | Some resp \<Rightarrow>
          if Res_RequestID resp \<noteq> requestID then awaitResponse requestID evs
          else Some (Inr resp))"
| "awaitResponse requestID (ChannelClosed # evs) = Some (Inl ErrChannelClosed)"
| "awaitResponse requestID (ContextDone # evs) = Some (Inl ErrContext)"
| "awaitResponse requestID (TimerFired # evs) = Some (Inl ErrTimeout)"

text \<open>\<^verbatim>\<open>SendAndAwaitWithTimeout\<close>, once the subscription is confirmed (\<open>subscribed\<close>).\<close>

definition SendAndAwait ::
  "bool \<Rightarrow> (nat \<Rightarrow> io) \<Rightarrow> Router option \<Rightarrow> 64 word option \<Rightarrow> string \<Rightarrow> int \<Rightarrow> string \<Rightarrow> string \<Rightarrow> string \<Rightarrow>
     Json \<Rightarrow> await_event list \<Rightarrow> streams \<Rightarrow> (await_error + EngineResponse) option \<times> bool \<times> streams" where
  "SendAndAwait subscribed rs ro incr uuid now clientID ev typ payload evs ss =
     (if \<not> subscribed then (None, False, ss)
      else
        (let pid = partitionFor ro ev;
             env = createEnvelope incr uuid now typ ev payload;
             (ok, ss1) = appendCommand rs ro clientID env pid ss
         in if \<not> ok then (None, False, ss1)
            else (awaitResponse (Cmd_RequestID env) evs, True, ss1)))"

section \<open>Properties\<close>

lemma marshalTime_Some: "marshalTime t = Some x \<Longrightarrow> x = JTime (rfc3339 t) t"
  by (auto simp: marshalTime_def Let_def split: prod.splits if_splits)

text \<open>
What the API writes to a command stream, the engine reads back: decoding an encoded command
envelope gives the envelope, also where empty fields are left out of the text.
\<close>

theorem command_json_roundtrip:
  assumes "marshalCommand c = Some j" and "Cmd_Payload c \<noteq> JBad"
  shows "unmarshalCommand j = Some c"
proof -
  have u: "uint (Cmd_Sequence c) < 2 ^ 64"
    using uint_lt2p [of "Cmd_Sequence c"] by simp
  from assms u show ?thesis
    by (cases "Cmd_EventID c = []"; cases "Cmd_RequestID c = []")
      (auto simp: marshalCommand_def unmarshalCommand_def set_Command_field_def eq_fold_eval
        zeroCommand_def rawJson_def omitempty_def dest!: marshalTime_Some split: option.splits)
qed

lemma appendLoop_copies:
  "\<exists>k\<le>n. appendLoop rs a n key en ss = (\<exists>j<n. rs (a + j) = IoOk, ss(key := ss key @ replicate k en)) \<and>
     ((\<exists>j<n. rs (a + j) = IoOk) \<longrightarrow> 1 \<le> k)"
proof (induction n arbitrary: a ss)
  case (Suc n)
  show ?case
  proof (cases "rs a = IoOk")
    case True
    then have "\<exists>j<Suc n. rs (a + j) = IoOk" by (intro exI [of _ 0]) simp
    with True show ?thesis
      by (intro exI [of _ 1]) (simp add: xaddCommand_def applied_def fun_upd_def)
  next
    case False
    let ?k = "if applied (rs a) then 1 else 0"
    let ?ss = "snd (xaddCommand (rs a) key en ss)"
    have ex: "(\<exists>j<Suc n. rs (a + j) = IoOk) \<longleftrightarrow> (\<exists>j<n. rs (Suc a + j) = IoOk)"
      using False by (auto simp: less_Suc_eq_0_disj)
    obtain k where k: "k \<le> n"
      "appendLoop rs (Suc a) n key en ?ss =
        (\<exists>j<n. rs (Suc a + j) = IoOk, ?ss(key := ?ss key @ replicate k en))"
      "(\<exists>j<n. rs (Suc a + j) = IoOk) \<longrightarrow> 1 \<le> k"
      using Suc.IH [of "Suc a" ?ss] by blast
    have "appendLoop rs a (Suc n) key en ss = appendLoop rs (Suc a) n key en ?ss"
      using False by (simp add: xaddCommand_def)
    moreover have "?ss(key := ?ss key @ replicate k en) = ss(key := ss key @ replicate (?k + k) en)"
      by (simp add: xaddCommand_def)
    ultimately show ?thesis
      using k ex by (intro exI [of _ "?k + k"]) (auto simp: xaddCommand_def)
  qed
qed (auto intro!: exI [of _ 0])

text \<open>
A durable append reports success exactly when one of its three attempts was acknowledged. A
successful append has written the command at least once and at most three times, to the stream of
its partition and to no other; a failed one may have written it up to three times.
\<close>

theorem appendCommand_at_least_once:
  assumes "marshalCommand env = Some x"
  shows "\<exists>k\<le>MaxAppendRetries. appendCommand rs ro cl env pid ss =
      (\<exists>j<MaxAppendRetries. rs j = IoOk,
       ss(streamFor ro pid := ss (streamFor ro pid) @
            replicate k \<lparr>SE_clientId = cl, SE_command = Some x\<rparr>)) \<and>
    (fst (appendCommand rs ro cl env pid ss) \<longrightarrow> 1 \<le> k)"
  using appendLoop_copies [of MaxAppendRetries rs 0 "streamFor ro pid"
      "\<lparr>SE_clientId = cl, SE_command = Some x\<rparr>" ss] assms
  by (auto simp: appendCommand_def)

text \<open>
All commands of one event meet in one stream, that of a partition the router has.
\<close>

theorem commands_of_event_one_stream:
  assumes "ro = Some r" and "0 < Partitions r" and "Partitions r \<le> max_i64"
  shows "(0 \<le> partitionFor ro ev \<and> partitionFor ro ev < Partitions r) \<and>
    (ev \<noteq> [] \<longrightarrow> streamFor ro (partitionFor ro ev) = StreamForEvent r ev) \<and>
    (streamFor ro (partitionFor ro ev) \<in> set (PartitionStreams r))"
proof -
  have rng: "0 \<le> partitionFor ro ev \<and> partitionFor ro ev < Partitions r"
    using assms Partition_range [of r ev] by (simp add: partitionFor_def)
  have g2: "ev \<noteq> [] \<Longrightarrow> streamFor ro (partitionFor ro ev) = StreamForEvent r ev"
    by (simp add: assms(1) streamFor_def partitionFor_def StreamForEvent_def)
  have g3: "streamFor ro (partitionFor ro ev) \<in> set (PartitionStreams r)"
    using rng assms(1) by (auto simp: PartitionStreams_eq streamFor_def image_iff
        intro!: bexI [of _ "partitionFor ro ev"])
  from rng g2 g3 show ?thesis by blast
qed

lemma fanoutFrom_ok:
  "fanoutFrom ios r typ payload p n ss = (True, ss') \<Longrightarrow>
     (\<forall>q. p \<le> q \<and> q < p + n \<longrightarrow> (\<exists>x. marshalCommand (createEnvelope (F_incr (ios q)) (F_uuid (ios q))
            (F_now (ios q)) typ [] payload) = Some x \<and>
          ss' (Stream r (int q)) = ss (Stream r (int q)) @ [\<lparr>SE_clientId = [], SE_command = Some x\<rparr>])) \<and>
     (\<forall>key. (\<forall>q. p \<le> q \<and> q < p + n \<longrightarrow> key \<noteq> Stream r (int q)) \<longrightarrow> ss' key = ss key)"
proof (induction n arbitrary: p ss)
  case (Suc n)
  obtain x where x: "marshalCommand (createEnvelope (F_incr (ios p)) (F_uuid (ios p)) (F_now (ios p))
      typ [] payload) = Some x"
    using Suc.prems by (auto split: option.splits)
  let ?en = "\<lparr>SE_clientId = [], SE_command = Some x\<rparr>"
  let ?ss = "ss(Stream r (int p) := ss (Stream r (int p)) @ [?en])"
  have "fanoutFrom ios r typ payload (Suc p) n ?ss = (True, ss')"
    using Suc.prems x by (auto simp: xaddCommand_def applied_def split: if_splits)
  note IH = Suc.IH [OF this]
  have "ss' (Stream r (int p)) = ss (Stream r (int p)) @ [?en]"
    using IH by (auto simp: Stream_inj)
  moreover have "\<exists>x. marshalCommand (createEnvelope (F_incr (ios q)) (F_uuid (ios q))
            (F_now (ios q)) typ [] payload) = Some x \<and>
          ss' (Stream r (int q)) = ss (Stream r (int q)) @ [\<lparr>SE_clientId = [], SE_command = Some x\<rparr>]"
    if "Suc p \<le> q" "q < p + Suc n" for q
    using conjunct1 [OF IH, rule_format, of q] that by (auto simp: Stream_inj)
  ultimately have "\<exists>x. marshalCommand (createEnvelope (F_incr (ios q)) (F_uuid (ios q))
            (F_now (ios q)) typ [] payload) = Some x \<and>
          ss' (Stream r (int q)) = ss (Stream r (int q)) @ [\<lparr>SE_clientId = [], SE_command = Some x\<rparr>]"
    if "p \<le> q" "q < p + Suc n" for q
    using that x by (cases "q = p") auto
  moreover have "ss' key = ss key" if "\<forall>q. p \<le> q \<and> q < p + Suc n \<longrightarrow> key \<noteq> Stream r (int q)" for key
    using conjunct2 [OF IH, rule_format, of key] that by auto
  ultimately show ?case by blast
qed simp

text \<open>
A fan-out that reports success has appended exactly one copy of the command to the stream of
every partition, and nothing to any other stream.
\<close>

theorem SendCommandFanout_complete:
  assumes "SendCommandFanout ios (Some r) typ payload ss = (True, ss')"
  shows "(\<forall>p. 0 \<le> p \<and> p < Partitions r \<longrightarrow>
      (\<exists>x. ss' (Stream r p) = ss (Stream r p) @ [\<lparr>SE_clientId = [], SE_command = Some x\<rparr>])) \<and>
    (\<forall>key. key \<notin> set (PartitionStreams r) \<longrightarrow> ss' key = ss key)"
proof -
  have f: "fanoutFrom ios r typ payload 0 (nat (Partitions r)) ss = (True, ss')"
    using assms by (simp add: SendCommandFanout_def)
  have g1: "\<forall>p. 0 \<le> p \<and> p < Partitions r \<longrightarrow>
      (\<exists>x. ss' (Stream r p) = ss (Stream r p) @ [\<lparr>SE_clientId = [], SE_command = Some x\<rparr>])"
  proof (intro allI impI)
    fix p assume p: "0 \<le> p \<and> p < Partitions r"
    with conjunct1 [OF fanoutFrom_ok [OF f], rule_format, of "nat p"]
    show "\<exists>x. ss' (Stream r p) = ss (Stream r p) @ [\<lparr>SE_clientId = [], SE_command = Some x\<rparr>]"
      by (auto simp: nat_less_eq_zless)
  qed
  have g2: "\<forall>key. key \<notin> set (PartitionStreams r) \<longrightarrow> ss' key = ss key"
  proof (intro allI impI)
    fix key assume "key \<notin> set (PartitionStreams r)"
    then have "key \<noteq> Stream r (int q)" if "q < nat (Partitions r)" for q
      using that by (force simp: PartitionStreams_eq)
    with conjunct2 [OF fanoutFrom_ok [OF f], rule_format, of key] show "ss' key = ss key" by simp
  qed
  from g1 g2 show ?thesis by blast
qed

lemma awaitResponse_skip:
  "\<forall>ev\<in>set pre. \<exists>p resp. ev = Message p \<and> unmarshalResponse p = Some resp \<and> Res_RequestID resp \<noteq> rid \<Longrightarrow>
     awaitResponse rid (pre @ evs) = awaitResponse rid evs"
  by (induction pre) auto

text \<open>
The caller of a command only ever gets the reply to its own request: a returned response
carries the request's ID and was received on the channel, and replies to other requests that
arrive before it are skipped.
\<close>

theorem awaitResponse_correlated:
  "awaitResponse rid evs = Some (Inr resp) \<longleftrightarrow>
     (\<exists>pre p post. evs = pre @ Message p # post \<and> unmarshalResponse p = Some resp \<and>
        Res_RequestID resp = rid \<and>
        (\<forall>ev\<in>set pre. \<exists>p' resp'. ev = Message p' \<and> unmarshalResponse p' = Some resp' \<and>
           Res_RequestID resp' \<noteq> rid))"
    (is "?L \<longleftrightarrow> ?R")
proof
  assume ?L
  then show ?R
  proof (induction rid evs rule: awaitResponse.induct)
    case (2 rid payload evs)
    then obtain resp' where r: "unmarshalResponse payload = Some resp'"
      by (auto split: option.splits)
    show ?case
    proof (cases "Res_RequestID resp' = rid")
      case True
      with 2(2) r show ?thesis by (intro exI [of _ "[]"]) auto
    next
      case False
      with 2(1) [OF r False] 2(2) r obtain pre p post where "evs = pre @ Message p # post"
        "unmarshalResponse p = Some resp" "Res_RequestID resp = rid"
        "\<forall>ev\<in>set pre. \<exists>p' resp'. ev = Message p' \<and> unmarshalResponse p' = Some resp' \<and>
           Res_RequestID resp' \<noteq> rid" by auto
      with False r show ?thesis by (intro exI [of _ "Message payload # pre"]) auto
    qed
  qed simp_all
next
  assume ?R
  then show ?L by (auto simp: awaitResponse_skip)
qed

section \<open>Concrete commands\<close>

definition sampleCommand :: CommandEnvelope where
  "sampleCommand = createEnvelope (Some 7) ''req'' 0 CreateEventCommand ''ev''
     (JObj [(''eventId'', JStr ''ev'')])"

definition sampleFan :: "nat \<Rightarrow> FanIO" where
  "sampleFan = (\<lambda>p. \<lparr>F_incr = None, F_uuid = ''u'', F_now = 0, F_xadd = IoOk\<rparr>)"

definition sampleReply :: "string \<Rightarrow> EngineResponse" where
  "sampleReply rid = (successJSON (Some JNull))\<lparr>Res_RequestID := rid\<rparr>"

lemma marshal_at_time_0: "Cmd_Timestamp c = 0 \<Longrightarrow> \<exists>x. marshalCommand c = Some x"
  by (simp add: marshalCommand_def marshalTime_0)

lemma sampleCommand_marshals: "\<exists>x. marshalCommand sampleCommand = Some x"
  by (rule marshal_at_time_0) (simp add: sampleCommand_def createEnvelope_def)

theorem command_json_roundtrip_witness:
  "\<exists>j. marshalCommand sampleCommand = Some j \<and> unmarshalCommand j = Some sampleCommand"
proof -
  obtain j where j: "marshalCommand sampleCommand = Some j" using sampleCommand_marshals by blast
  from command_json_roundtrip [OF j] j show ?thesis
    by (simp add: sampleCommand_def createEnvelope_def)
qed

theorem appendCommand_at_least_once_witness:
  "\<exists>x k. marshalCommand sampleCommand = Some x \<and> 1 \<le> k \<and> k \<le> MaxAppendRetries \<and>
     appendCommand (\<lambda>n. if n = 0 then IoAckLost else IoOk) None ''cl'' sampleCommand 0 (\<lambda>_. []) =
       (True, (\<lambda>_. [])(''commands'' := replicate k \<lparr>SE_clientId = ''cl'', SE_command = Some x\<rparr>))"
proof -
  obtain x where x: "marshalCommand sampleCommand = Some x" using sampleCommand_marshals by blast
  have "\<exists>j<MaxAppendRetries. (if j = 0 then IoAckLost else IoOk) = IoOk"
    by (intro exI [of _ 1]) (simp add: MaxAppendRetries_def)
  with appendCommand_at_least_once [OF x, of "\<lambda>n. if n = 0 then IoAckLost else IoOk" None "''cl''" 0
      "\<lambda>_. []"] x show ?thesis
    by (auto simp: streamFor_def)
qed

theorem commands_of_event_one_stream_witness:
  "streamFor (Some (NewRouter 4 ''c'')) (partitionFor (Some (NewRouter 4 ''c'')) ''ev'')
     \<in> set (PartitionStreams (NewRouter 4 ''c''))"
  by (rule commands_of_event_one_stream [OF refl, THEN conjunct2, THEN conjunct2]) (simp_all add: NewRouter_def)

theorem SendCommandFanout_complete_witness:
  "\<exists>ss' x. SendCommandFanout sampleFan (Some (NewRouter 2 ''c'')) UserCreatedCommand JNull (\<lambda>_. []) = (True, ss') \<and>
     ss' (Stream (NewRouter 2 ''c'') 1) = [\<lparr>SE_clientId = [], SE_command = Some x\<rparr>]"
proof -
  let ?r = "NewRouter 2 ''c''"
  obtain x where x: "marshalCommand (createEnvelope None ''u'' 0 UserCreatedCommand [] JNull) = Some x"
    using marshal_at_time_0 [of "createEnvelope None ''u'' 0 UserCreatedCommand [] JNull"]
    by (auto simp: createEnvelope_def)
  have "Partitions ?r = 2" by (simp add: NewRouter_def)
  then obtain ss' where ss': "SendCommandFanout sampleFan (Some ?r) UserCreatedCommand JNull (\<lambda>_. []) = (True, ss')"
    using x by (auto simp: SendCommandFanout_def sampleFan_def xaddCommand_def numeral_2_eq_2)
  from SendCommandFanout_complete [OF this] ss' \<open>Partitions ?r = 2\<close> show ?thesis
    by (force simp: NewRouter_def)
qed

theorem awaitResponse_correlated_witness:
  "awaitResponse ''me'' [Message (marshalResponse (sampleReply ''you'')),
      Message (marshalResponse (sampleReply ''me''))] = Some (Inr (sampleReply ''me''))"
proof -
  have r: "unmarshalResponse (marshalResponse (sampleReply ''me'')) = Some (sampleReply ''me'')"
    "unmarshalResponse (marshalResponse (sampleReply ''you'')) = Some (sampleReply ''you'')"
    by (simp_all add: unmarshalResponse_def marshalResponse_def sampleReply_def successJSON_def
        set_Response_field_def omitempty_def eq_fold_eval)
  show ?thesis
    unfolding awaitResponse_correlated
    by (rule exI [of _ "[Message (marshalResponse (sampleReply ''you''))]"],
        rule exI [of _ "marshalResponse (sampleReply ''me'')"], rule exI [of _ "[]"])
      (auto simp: r, auto simp: sampleReply_def)
qed

end
