(* ===== verification/Engine_Dispatch.thy ===== *)
theory Engine_Dispatch
  imports Engine_Queries Redis_Commands
begin

text \<open>
  The dispatch of commands: \<open>handleMessage\<close>, \<open>processStreamEntry\<close> and the batches of
  \<open>consumeMessages\<close> (\<^verbatim>\<open>engine.go\<close>), and the replay of a partition's command stream
  (\<^verbatim>\<open>replay.go\<close>). Live consumption and replay run the same handlers; what differs is the
  \<open>replaying\<close> flag of the partition.
\<close>

section \<open>Dispatch\<close>

definition handleMessage ::
  "HandlerIO \<Rightarrow> int \<Rightarrow> string \<Rightarrow> Json \<Rightarrow> Engine \<Rightarrow> (EngineResponse \<times> Engine) option" where
  "handleMessage io pid typ payload e =
     (if typ = CreateOrderCommand then handleCreateOrderP io pid payload e
      else if typ = CancelOrderCommand then handleCancelOrderP io pid payload e
      else if typ = GetDepthCommand then Some (handleGetDepth io payload e, e)
      else if typ = GetOpenOrdersCommand then Some (handleGetOpenOrders io payload e, e)
      else if typ = CreateEventCommand then Some (handleCreateEvent payload e)
      else if typ = UserCreatedCommand then Some (handleUserCreated payload e)
      else Some (failure ''unknown message type'', e))"

text \<open>
  \<^verbatim>\<open>processStreamEntry\<close>: besides the engine it yields the reply that is published, if any, with
  its channel. The entry is acknowledged on every path.
\<close>

definition processStreamEntry ::
  "HandlerIO \<Rightarrow> int \<Rightarrow> StreamEntry \<Rightarrow> Engine \<Rightarrow> ((string \<times> Json) option \<times> Engine) option" where
  "processStreamEntry io pid entry e =
     (case SE_command entry of
        None \<Rightarrow> Some (None, e)
      | Some rawCommand \<Rightarrow>
          (case unmarshalCommand rawCommand of
             None \<Rightarrow> Some (None, e)
           | Some env \<Rightarrow>
               if Cmd_Type env = [] then Some (None, e)
               else
                 (case handleMessage io pid (Cmd_Type env) (Cmd_Payload env) e of
                    None \<Rightarrow> None
                  | Some (response, e1) \<Rightarrow>
                      if SE_clientId entry = [] then Some (None, e1)
                      else
                        (let response' = (if Cmd_RequestID env \<noteq> []
                               then response\<lparr>Res_RequestID := Cmd_RequestID env\<rparr> else response)
                         in Some (Some (SE_clientId entry, marshalResponse response'), e1)))))"

text \<open>
  The loop bodies of \<^verbatim>\<open>consumeMessages\<close>: a list of entries is processed in order; \<open>ios\<close> gives the
  \<open>k\<close>-th entry its answers of the environment. The result holds the replies and the next \<open>k\<close>.
\<close>

fun processEntries ::
  "(nat \<Rightarrow> HandlerIO) \<Rightarrow> int \<Rightarrow> nat \<Rightarrow> StreamEntry list \<Rightarrow> Engine \<Rightarrow>
     ((string \<times> Json) list \<times> nat \<times> Engine) option" where
  "processEntries ios pid k [] e = Some ([], k, e)"
| "processEntries ios pid k (entry # entries) e =
     (case processStreamEntry (ios k) pid entry e of
        None \<Rightarrow> None
      | Some (reply, e1) \<Rightarrow>
          (case processEntries ios pid (Suc k) entries e1 of
             None \<Rightarrow> None
           | Some (replies, k', e2) \<Rightarrow>
               Some ((case reply of None \<Rightarrow> [] | Some r \<Rightarrow> [r]) @ replies, k', e2)))"

text \<open>
  The answers of Redis to the group reads: a batch, an error after which the loop goes on, or the
  cancellation of the context, which ends it. The loop runs over the answers it is given; a list
  without \<open>ReadCanceled\<close> is a loop that has not ended yet.
\<close>

datatype group_read = ReadBatch "StreamEntry list" | ReadError | ReadCanceled

fun readLoop ::
  "(nat \<Rightarrow> HandlerIO) \<Rightarrow> int \<Rightarrow> nat \<Rightarrow> group_read list \<Rightarrow> Engine \<Rightarrow> ((string \<times> Json) list \<times> Engine) option" where
  "readLoop ios pid k [] e = Some ([], e)"
| "readLoop ios pid k (ReadCanceled # reads) e = Some ([], e)"
| "readLoop ios pid k (ReadError # reads) e = readLoop ios pid k reads e"
| "readLoop ios pid k (ReadBatch entries # reads) e =
     (case processEntries ios pid k entries e of
        None \<Rightarrow> None
      | Some (replies, k', e1) \<Rightarrow>
          map_option (\<lambda>(rs, e2). (replies @ rs, e2)) (readLoop ios pid k' reads e1))"

text \<open>
  \<^verbatim>\<open>consumeMessages\<close>; \<open>group_ok\<close> is whether the consumer group could be set up, \<open>claimed\<close> what
  \<^verbatim>\<open>XAUTOCLAIM\<close> returned (an error is an empty result).
\<close>

definition consumeMessages ::
  "(nat \<Rightarrow> HandlerIO) \<Rightarrow> int \<Rightarrow> bool \<Rightarrow> StreamEntry list \<Rightarrow> group_read list \<Rightarrow> Engine \<Rightarrow>
     ((string \<times> Json) list \<times> Engine) option" where
  "consumeMessages ios pid group_ok claimed reads e =
     (if \<not> group_ok then Some ([], e)
      else (case processEntries ios pid 0 claimed e of
              None \<Rightarrow> None
            | Some (replies, k, e1) \<Rightarrow>
                map_option (\<lambda>(rs, e2). (replies @ rs, e2)) (readLoop ios pid k reads e1)))"

section \<open>Replay\<close>

definition applyCommand :: "HandlerIO \<Rightarrow> int \<Rightarrow> CommandEnvelope \<Rightarrow> Engine \<Rightarrow> Engine option" where
  "applyCommand io pid env e =
     (if Cmd_Type env = [] then Some e
      else map_option snd (handleMessage io pid (Cmd_Type env) (Cmd_Payload env) e))"

fun replayEntries :: "(nat \<Rightarrow> HandlerIO) \<Rightarrow> int \<Rightarrow> nat \<Rightarrow> StreamEntry list \<Rightarrow> Engine \<Rightarrow> Engine option" where
  "replayEntries ios pid k [] e = Some e"
| "replayEntries ios pid k (entry # entries) e =
     (case (case SE_command entry of
              None \<Rightarrow> Some e
            | Some raw \<Rightarrow>
                (case unmarshalCommand raw of
                   None \<Rightarrow> Some e
                 | Some env \<Rightarrow> applyCommand (ios k) pid env e)) of
        None \<Rightarrow> None
      | Some e1 \<Rightarrow> replayEntries ios pid (Suc k) entries e1)"

text \<open>\<^verbatim>\<open>replayCommandLog\<close>; \<open>entries\<close> is what \<^verbatim>\<open>XRANGE\<close> returned, \<open>None\<close> an error.\<close>

definition replayCommandLog ::
  "(nat \<Rightarrow> HandlerIO) \<Rightarrow> int \<Rightarrow> StreamEntry list option \<Rightarrow> Engine \<Rightarrow> (bool \<times> Engine) option" where
  "replayCommandLog ios pid entries e =
     (if \<not> redisManager e then Some (True, e)
      else
        (case entries of
           None \<Rightarrow> Some (False, e)
         | Some es \<Rightarrow>
             (case replayEntries ios pid 0 es (e\<lparr>replaying := (replaying e)(pid \<mapsto> True)\<rparr>) of
                None \<Rightarrow> None
              | Some e1 \<Rightarrow> Some (True, e1\<lparr>replaying := (replaying e1)(pid := None)\<rparr>))))"

lemma command_distinct [simp]:
  "CreateOrderCommand \<noteq> CancelOrderCommand" "CreateOrderCommand \<noteq> GetDepthCommand"
  "CreateOrderCommand \<noteq> GetOpenOrdersCommand" "CreateOrderCommand \<noteq> CreateEventCommand"
  "CreateOrderCommand \<noteq> UserCreatedCommand" "CancelOrderCommand \<noteq> GetDepthCommand"
  "CancelOrderCommand \<noteq> GetOpenOrdersCommand" "CancelOrderCommand \<noteq> CreateEventCommand"
  "CancelOrderCommand \<noteq> UserCreatedCommand" "GetDepthCommand \<noteq> GetOpenOrdersCommand"
  "GetDepthCommand \<noteq> CreateEventCommand" "GetDepthCommand \<noteq> UserCreatedCommand"
  "GetOpenOrdersCommand \<noteq> CreateEventCommand" "GetOpenOrdersCommand \<noteq> UserCreatedCommand"
  "CreateEventCommand \<noteq> UserCreatedCommand"
  by (simp_all add: predix_const)

end
