(* ===== verification/Engine_Safety.thy ===== *)
theory Engine_Safety
  imports Engine_Invariant Engine_Dispatch
begin

text \<open>
  Every command keeps the invariant \<open>engine_ok\<close>, and no command but the first \<^verbatim>\<open>USER_CREATED\<close>
  of a user changes the total of cash; the total of shares never changes. The commands are taken
  apart into the critical sections of the handlers; each section keeps the invariant on its own,
  so the result does not depend on how the sections of different partitions interleave.

  Two limits of the code are hypotheses: the cost of a limit BUY fits into 64 bits
  (\<open>bounded_cost\<close>), and a market BUY can pay for what it takes (\<open>market_covered\<close>).
\<close>

section \<open>The invariant and the frame\<close>

lemma same_core_ok:
  assumes "same_core e e'"
  shows "engine_ok e' = engine_ok e" "total_cash e' = total_cash e" "total_shares e' = total_shares e"
    "unlisted i e' = unlisted i e" "incoming_ok e' i t m b = incoming_ok e i t m b"
  using assms
  by (simp_all add: same_core_def engine_ok_def ledger_ok_def orders_ok_def books_ok_def
      total_cash_def total_shares_def unlisted_def incoming_ok_def)

lemma same_core_metrics [simp]: "same_core e (e\<lparr>metrics := x\<rparr>)" "same_core e (e\<lparr>replaying := y\<rparr>) \<longleftrightarrow> y = replaying e"
  by (auto simp: same_core_def)

lemma emit_same_core: "emitEventP io pid typ d b e = Some (ok, e') \<Longrightarrow> same_core e e'"
  using emitEventP_frame by (auto simp: same_setup_def)

lemma zero_fields [simp]:
  "Bal_Available zeroBalance = 0" "Bal_Reserved zeroBalance = 0"
  "Pos_Available zeroPosition = 0" "Pos_Reserved zeroPosition = 0"
  by (simp_all add: zeroBalance_def zeroPosition_def)

text \<open>A fresh engine.\<close>

lemma engine_ok_new: "newEngine rm file = Some e \<Longrightarrow> engine_ok e \<and> total_cash e = 0 \<and> total_shares e = 0"
  by (auto simp: newEngine_def engine_ok_def ledger_ok_def orders_ok_def books_ok_def
      cashbook.accounts_ok_def sharebook.accounts_ok_def cashbook.total_def sharebook.total_def
      total_cash_def total_shares_def cashbook.entry_def sharebook.entry_def
      split: if_splits option.splits)

section \<open>Markets and users\<close>

lemma create_event_ok:
  assumes "engine_ok e" and "handleCreateEvent payload e = (resp, e')"
  shows "engine_ok e'" "total_cash e' = total_cash e" "total_shares e' = total_shares e"
proof -
  have "engine_ok (e\<lparr>markets := (markets e)(ev \<mapsto> NewMarket)\<rparr>)" for ev
    using assms(1)
    by (auto simp: engine_ok_def ledger_ok_def orders_ok_def books_ok_def book_ok_def
        dest!: Book_NewMarket split: if_splits)
  with assms show "engine_ok e'" "total_cash e' = total_cash e" "total_shares e' = total_shares e"
    by (auto simp: handleCreateEvent_def total_cash_def total_shares_def
        split: option.splits if_splits)
qed

lemma open_account_ok:
  assumes ok: "engine_ok e" and new: "balances e u = None"
    and room: "total_cash e + DefaultStartingBalance \<le> max_i64"
  defines "e' \<equiv> e\<lparr>balances := (balances e)
      (u \<mapsto> zeroBalance\<lparr>Bal_Available := DefaultStartingBalance\<rparr>)\<rparr>"
  shows "engine_ok e'" "total_cash e' = total_cash e + DefaultStartingBalance"
    "total_shares e' = total_shares e"
proof -
  let ?b = "zeroBalance\<lparr>Bal_Available := DefaultStartingBalance\<rparr>"
  have L: "ledger_ok e" using ok by (simp add: engine_ok_def)
  note B = ledger_okD(2) [OF L]
  have t: "cashbook.total ((balances e)(u \<mapsto> ?b)) = cashbook.total (balances e) + DefaultStartingBalance"
    using new cashbook.total_upd [OF cashbook.accounts_ok_finite [OF B], of u ?b]
    by (simp add: cashbook.holdings_def cashbook.entry_def)
  then show "total_cash e' = total_cash e + DefaultStartingBalance" "total_shares e' = total_shares e"
    by (simp_all add: e'_def total_cash_book total_shares_def)
  have "cashbook.accounts_ok ((balances e)(u \<mapsto> ?b))"
    using B room t
    by (auto simp: cashbook.accounts_ok_def total_cash_book DefaultStartingBalance_def
        PriceScale_def)
  moreover have "Bal_Reserved (cashbook.entry ((balances e)(u \<mapsto> ?b)) v)
      = Bal_Reserved (cashbook.entry (balances e) v)" for v
    using new by (simp add: cashbook.entry_def)
  ultimately have "ledger_ok e'"
    using L by (simp add: ledger_ok_def e'_def)
  with ok show "engine_ok e'"
    by (simp add: engine_ok_def orders_ok_def books_ok_def e'_def)
qed

lemma user_created_ok:
  assumes "engine_ok e" and "total_cash e + DefaultStartingBalance \<le> max_i64"
    and "handleUserCreated payload e = (resp, e')"
  shows "engine_ok e'" "total_shares e' = total_shares e"
    "total_cash e' = total_cash e \<or> total_cash e' = total_cash e + DefaultStartingBalance"
  using assms open_account_ok [OF assms(1) _ assms(2)]
  by (auto simp: handleUserCreated_def split: option.splits if_splits)

section \<open>Admission\<close>

definition bounded_cost :: "Order \<Rightarrow> bool" where
  "bounded_cost ord \<longleftrightarrow> Ord_Quantity ord \<le> max_i64 \<and>
     (Ord_Side ord = SideBuy \<and> Ord_OrderType ord = OrderTypeLimit \<longrightarrow>
        Ord_Quantity ord * Ord_Price ord \<le> max_i64)"

text \<open>A new order: valid, untouched and pending.\<close>

definition new_order :: "Order \<Rightarrow> bool" where
  "new_order ord \<longleftrightarrow> validateOrder ord = None \<and> Ord_FilledQuantity ord = 0 \<and>
     Ord_RemainingQuantity ord = Ord_Quantity ord \<and> Ord_Status ord = StatusPending"

lemma requestOrder_new: "validateOrder (requestOrder oid now req) = None \<Longrightarrow> new_order (requestOrder oid now req)"
  by (simp add: new_order_def requestOrder_def)

lemma reserve_frame:
  "reserveOrderLocked ord e = (r, ord', e') \<Longrightarrow>
     orders e' = orders e \<and> markets e' = markets e \<and> replaying e' = replaying e \<and>
     (\<exists>x. ord' = ord\<lparr>Ord_LockedFunds := x\<rparr>)"
  by (cases "Ord_Side ord = SideBuy")
    (auto simp: reserve_buy reserve_sell split: if_splits intro: exI [of _ "Ord_LockedFunds ord"])

lemma reserve_covers:
  assumes "new_order ord" and "bounded_cost ord" and "reserveOrderLocked ord e = (None, ord', e')"
  shows "covered ord'"
proof (cases "Ord_Side ord = SideBuy")
  case True
  with assms show ?thesis
    by (auto simp: reserve_buy covered_def new_order_def bounded_cost_def validateOrder_None_iff
        split: if_splits)
next
  case False
  with assms show ?thesis
    by (auto simp: reserve_sell covered_def split: if_splits)
qed

lemma new_order_cost:
  assumes "new_order ord" and "bounded_cost ord"
  shows "Ord_Side ord = SideBuy \<Longrightarrow> Ord_OrderType ord \<noteq> OrderTypeMarket \<Longrightarrow>
    0 \<le> Ord_RemainingQuantity ord * Ord_Price ord \<and> Ord_RemainingQuantity ord * Ord_Price ord \<le> max_i64"
  using assms by (auto simp: new_order_def bounded_cost_def validateOrder_None_iff)

lemma books_member_stored:
  "engine_ok e \<Longrightarrow> orders e i = None \<Longrightarrow> unlisted i e"
  by (fastforce simp: engine_ok_def books_ok_def book_ok_def resting_def unlisted_def)

text \<open>Storing a new order does not disturb the books.\<close>

lemma books_ok_fresh:
  assumes "engine_ok e" and "orders e i = None" and "orders e' = (orders e)(i \<mapsto> ord)"
    and "markets e' = markets e"
  shows "books_ok e'"
  unfolding books_ok_def assms(4)
proof (intro allI impI)
  fix ev m oc book assume m: "markets e ev = Some m" "Book m oc = Some book"
  with assms(1) have b: "book_ok (orders e) ev oc book" by (auto simp: engine_ok_def books_ok_def)
  have "i \<notin> set (Bids book) \<union> set (Asks book)"
    using books_member_stored [OF assms(1,2)] m by (auto simp: unlisted_def)
  then show "book_ok (orders e') ev oc book"
    using b unfolding assms(3)
    by (intro book_ok_store [OF b]) (auto simp: book_ok_def resting_def)
qed

lemma admit_accepted:
  assumes ok: "engine_ok e" and new: "new_order ord" and bnd: "bounded_cost ord"
    and fresh: "orders e (Ord_ID ord) = None" and mk: "markets e (Ord_EventID ord) = Some market"
    and res: "reserveOrderLocked ord e = (None, ord', e1)"
  defines "e' \<equiv> e1\<lparr>orders := (orders e1)(Ord_ID ord \<mapsto> ord')\<rparr>"
  shows "engine_ok e'" "total_cash e' = total_cash e" "total_shares e' = total_shares e"
    "\<exists>book. incoming_ok e' (Ord_ID ord) ord' market book"
proof -
  have L: "ledger_ok e" using ok by (simp add: engine_ok_def)
  note F = reserve_frame [OF res]
  obtain x where o': "ord' = ord\<lparr>Ord_LockedFunds := x\<rparr>" using F by blast
  have rem: "0 \<le> Ord_RemainingQuantity ord"
    using new by (auto simp: new_order_def validateOrder_None_iff)
  note R = reserve_accepted [OF L fresh res rem new_order_cost [OF new bnd]]
  have "order_ok (Ord_ID ord) ord'"
    using new bnd reserve_covers [OF new bnd res] o'
    by (auto simp: order_ok_def new_order_def validateOrder_None_iff quantities_ok_def bounded_cost_def)
  then have "orders_ok e'" using ok F by (auto simp: e'_def engine_ok_def orders_ok_def)
  moreover have "books_ok e'"
    using F by (intro books_ok_fresh [OF ok fresh, of e' ord']) (simp_all add: e'_def)
  ultimately show "engine_ok e'" using R(1) by (simp add: engine_ok_def e'_def)
  show "total_cash e' = total_cash e" "total_shares e' = total_shares e"
    using R(2,3) by (simp_all add: e'_def total_cash_def total_shares_def)
  obtain book where "Book market (Ord_Outcome ord) = Some book"
    using new Book_Some_iff [of market "Ord_Outcome ord"]
    by (auto simp: new_order_def validateOrder_None_iff)
  moreover have "unlisted (Ord_ID ord) e'"
    using books_member_stored [OF ok fresh] F by (simp add: unlisted_def e'_def)
  moreover have "is_open ord'" using new o' by (simp add: is_open_def new_order_def)
  ultimately show "\<exists>book. incoming_ok e' (Ord_ID ord) ord' market book"
    using F mk o' by (auto simp: incoming_ok_def e'_def)
qed

text \<open>The admission section: what each outcome means.\<close>

lemma admit_ok:
  assumes ok: "engine_ok e" and new: "new_order ord" and bnd: "bounded_cost ord"
    and ad: "admit_locked ord e = (a, e')"
  shows "engine_ok e' \<and> total_cash e' = total_cash e \<and> total_shares e' = total_shares e \<and>
    (case a of
       Admitted ord' \<Rightarrow> orders e (Ord_ID ord) = None \<and> reserveOrderLocked ord e = (None, ord',
           e'\<lparr>orders := orders e\<rparr>) \<and> orders e' = (orders e)(Ord_ID ord \<mapsto> ord') \<and>
         (\<exists>market book. incoming_ok e' (Ord_ID ord) ord' market book)
     | _ \<Rightarrow> orders e' = orders e \<and> markets e' = markets e)"
proof (cases "orders e (Ord_ID ord) = None \<and> markets e (Ord_EventID ord) \<noteq> None")
  case False
  with ad ok show ?thesis by (auto simp: admit_locked_def split: option.splits)
next
  case True
  then obtain market where fresh: "orders e (Ord_ID ord) = None"
    and mk: "markets e (Ord_EventID ord) = Some market" by auto
  obtain r o1 e1 where res: "reserveOrderLocked ord e = (r, o1, e1)"
    by (cases "reserveOrderLocked ord e") auto
  note F = reserve_frame [OF res]
  show ?thesis
  proof (cases r)
    case (Some err)
    have L: "ledger_ok e" using ok by (simp add: engine_ok_def)
    note R = reserve_refused [OF L res [unfolded Some]]
    have a: "a = NoFunds err" "e' = e1" using ad fresh mk res Some by (auto simp: admit_locked_def)
    have "engine_ok e1"
      using ok R(1,5,6) by (simp add: engine_ok_def orders_ok_def books_ok_def)
    with R a show ?thesis by simp
  next
    case None
    note A = admit_accepted [OF ok new bnd fresh mk res [unfolded None]]
    have "Ord_ID o1 = Ord_ID ord" using F by auto
    then have a: "a = Admitted o1" and e': "e' = e1\<lparr>orders := (orders e1)(Ord_ID ord \<mapsto> o1)\<rparr>"
      using ad fresh mk res None by (auto simp: admit_locked_def)
    have "reserveOrderLocked ord e = (None, o1, e'\<lparr>orders := orders e\<rparr>)"
      using res None F e' by simp
    with A a e' F fresh show ?thesis by auto
  qed
qed

section \<open>From admission to the match\<close>

text \<open>A market BUY can pay for what the book would give it out of the user's available cash.\<close>

definition market_covered :: "Order \<Rightarrow> Engine \<Rightarrow> bool" where
  "market_covered ord e \<longleftrightarrow>
     (Ord_Side ord = SideBuy \<and> Ord_OrderType ord = OrderTypeMarket \<longrightarrow>
        (case markets e (Ord_EventID ord) of None \<Rightarrow> True
         | Some m \<Rightarrow> (case Book m (Ord_Outcome ord) of None \<Rightarrow> True
            | Some book \<Rightarrow> cost_of (orders e) (allocation (orders e) book ord)
                \<le> Bal_Available (cashbook.entry (balances e) (Ord_UserID ord)))))"

lemma candidates_fresh: "i \<notin> set items \<Longrightarrow> candidates (st(i \<mapsto> x)) t items = candidates st t items"
  unfolding candidates_def by (induction items) (auto simp: eligible_upd)

lemma eligible_locked [simp]: "eligible st (t\<lparr>Ord_LockedFunds := x\<rparr>) = eligible st t"
  by (simp add: eligible_def canMatch_def fun_eq_iff)

lemma candidates_locked [simp]: "candidates st (t\<lparr>Ord_LockedFunds := x\<rparr>) items = candidates st t items"
  by (simp add: candidates_def)

lemma cost_of_fresh: "i \<notin> fst ` set F \<Longrightarrow> cost_of (st(i \<mapsto> x)) F = cost_of st F"
  by (induction F) (auto simp: image_iff)

lemma allocation_fresh:
  assumes "i \<notin> set (opposite (Ord_Side t) book)"
  shows "allocation (st(i \<mapsto> y)) book (t\<lparr>Ord_LockedFunds := x\<rparr>) = allocation st book t"
  using assms by (simp add: allocation_def candidates_fresh)

lemma admitted_affordable:
  assumes cov: "market_covered ord e" and res: "reserveOrderLocked ord e = (None, ord', e1)"
    and st: "orders e' = (orders e)(Ord_ID ord \<mapsto> ord')" and mk: "markets e' = markets e"
    and inc: "incoming_ok e' (Ord_ID ord) ord' market book"
  shows "affordable (orders e') book ord'"
  unfolding affordable_def
proof
  assume buy: "Ord_Side ord' = SideBuy \<and> Ord_OrderType ord' = OrderTypeMarket"
  obtain x where o': "ord' = ord\<lparr>Ord_LockedFunds := x\<rparr>" using reserve_frame [OF res] by blast
  have i: "Ord_ID ord \<notin> set (opposite (Ord_Side ord) book)"
    using inc by (auto simp: incoming_ok_def unlisted_def opposite_def)
  have a: "allocation (orders e') book ord' = allocation (orders e) book ord"
    unfolding st o' by (rule allocation_fresh [OF i])
  have "Ord_ID ord \<notin> fst ` set (allocation (orders e) book ord)"
    using allocation_member i by blast
  then have "cost_of (orders e') (allocation (orders e') book ord') =
      cost_of (orders e) (allocation (orders e) book ord)"
    by (simp only: a) (simp add: st cost_of_fresh)
  moreover have "Ord_Side ord = SideBuy" "Ord_OrderType ord = OrderTypeMarket"
    using buy o' by simp_all
  moreover from this
  have "Ord_LockedFunds ord' = Bal_Available (cashbook.entry (balances e) (Ord_UserID ord))"
    using res by (auto simp: reserve_buy split: if_splits)
  ultimately show "cost_of (orders e') (allocation (orders e') book ord') \<le> Ord_LockedFunds ord'"
    using cov buy inc mk o' by (auto simp: market_covered_def incoming_ok_def)
qed

text \<open>Publishing trades only touches the outputs and the counters.\<close>

lemma publishTrades_core: "publishTrades ios pid k trades e = Some e' \<Longrightarrow> same_core e e'"
proof (induction trades arbitrary: k e)
  case (Cons t ts)
  let ?e1 = "e\<lparr>metrics := (metrics e)\<lparr>TradesExecuted := TradesExecuted (metrics e) + 1\<rparr>\<rparr>"
  obtain ok e2 where p: "publishTrade (ios k) pid t ?e1 = Some (ok, e2)"
    and r: "publishTrades ios pid (Suc k) ts e2 = Some e'"
    using Cons.prems by (auto split: option.splits)
  have "same_core ?e1 e2"
    using p emit_same_core by (auto simp: publishTrade_def split: option.splits)
  with Cons.IH [OF r] show ?case using same_core_metrics(1) same_core_trans by blast
qed simp

lemma matchOrder_core:
  assumes "matchOrder io i pid e = Some (trades, e')"
  shows "same_core (snd (matchOrder_locked (H_tids io) (H_nows io) i e)) e'"
    "trades = fst (matchOrder_locked (H_tids io) (H_nows io) i e)"
proof -
  obtain trs e1 where m: "matchOrder_locked (H_tids io) (H_nows io) i e = (trs, e1)"
    by (cases "matchOrder_locked (H_tids io) (H_nows io) i e")
  show "same_core (snd (matchOrder_locked (H_tids io) (H_nows io) i e)) e'"
    "trades = fst (matchOrder_locked (H_tids io) (H_nows io) i e)"
    using assms m
    by (auto simp: matchOrder_def Let_def split: if_splits option.splits dest!: publishTrades_core)
      (auto simp: same_core_def)
qed

lemma drop_ok:
  assumes ok: "engine_ok e" and un: "unlisted i e"
  shows "engine_ok (dropOrder i e)" "total_cash (dropOrder i e) = total_cash e"
    "total_shares (dropOrder i e) = total_shares e"
proof -
  have L: "ledger_ok e" using ok by (simp add: engine_ok_def)
  note LD = ledger_okD [OF L]
  have nn: "0 \<le> val_or (lock_cash u) (orders e i)" "0 \<le> val_or (lock_shares k) (orders e i)" for u k
    using LD(4) [of i] by (auto simp: val_or_def lock_cash_def lock_shares_def split: option.split)
  have "sum_map (lock_cash u) ((orders e)(i := None)) \<le> Bal_Reserved (cashbook.entry (balances e) u)"
    "sum_map (lock_shares k) ((orders e)(i := None)) \<le> Pos_Reserved (sharebook.entry (positions e) k)" for u k
    using LD(5) [of u] LD(6) [of k] LD(1) nn(1) [of u] nn(2) [of k] by (simp_all add: sum_map_del)
  then have "ledger_ok (dropOrder i e)"
    using LD by (auto simp: ledger_ok_def dropOrder_def)
  moreover have "books_ok (dropOrder i e)"
    unfolding books_ok_def
  proof (intro allI impI)
    fix ev m oc b assume "markets (dropOrder i e) ev = Some m" "Book m oc = Some b"
    then have m: "markets e ev = Some m" "Book m oc = Some b" by (simp_all add: dropOrder_def)
    then have b: "book_ok (orders e) ev oc b" using ok by (auto simp: engine_ok_def books_ok_def)
    have "i \<notin> set (Bids b) \<union> set (Asks b)" using un m by (auto simp: unlisted_def)
    then show "book_ok (orders (dropOrder i e)) ev oc b"
      using b by (intro book_ok_store [OF b]) (auto simp: dropOrder_def book_ok_def resting_def)
  qed
  ultimately show "engine_ok (dropOrder i e)"
    using ok by (auto simp: engine_ok_def orders_ok_def dropOrder_def)
  show "total_cash (dropOrder i e) = total_cash e" "total_shares (dropOrder i e) = total_shares e"
    by (simp_all add: dropOrder_def total_cash_def total_shares_def)
qed

section \<open>Cancellation\<close>

text \<open>The book an order is taken out of.\<close>

definition without :: "string \<Rightarrow> OrderBook \<Rightarrow> OrderBook" where
  "without i book = \<lparr>Bids = filter (\<lambda>j. j \<noteq> i) (Bids book), Asks = filter (\<lambda>j. j \<noteq> i) (Asks book)\<rparr>"

lemma cancel_form:
  assumes ok: "engine_ok e" and c: "cancel_locked i ev e = Some (Inr e')"
  obtains ord market book where "orders e i = Some ord" "ev = [] \<or> Ord_EventID ord = ev"
    "\<not> (Ord_Status ord = StatusFilled \<or> Ord_Status ord = StatusCanceled \<or> Ord_Status ord = StatusRejected)"
    "markets e (Ord_EventID ord) = Some market" "Book market (Ord_Outcome ord) = Some book"
    "e' = releaseOrderLocked i (e\<lparr>markets := (markets e)(Ord_EventID ord \<mapsto>
            setBook market (Ord_Outcome ord) (without i book)),
          orders := (orders e)(i \<mapsto> ord\<lparr>Ord_Status := StatusCanceled\<rparr>)\<rparr>)"
proof -
  from c obtain ord market book where o': "orders e i = Some ord" "ev = [] \<or> Ord_EventID ord = ev"
    "\<not> (Ord_Status ord = StatusFilled \<or> Ord_Status ord = StatusCanceled \<or> Ord_Status ord = StatusRejected)"
    "markets e (Ord_EventID ord) = Some market" "Book market (Ord_Outcome ord) = Some book"
    and e': "e' = releaseOrderLocked i (e\<lparr>markets := (markets e)(Ord_EventID ord \<mapsto>
        setBook market (Ord_Outcome ord) (if Ord_Side ord = SideBuy
          then book\<lparr>Bids := fst (removeOrderFromSlice (orders e) (Bids book) (Ord_ID ord))\<rparr>
          else book\<lparr>Asks := fst (removeOrderFromSlice (orders e) (Asks book) (Ord_ID ord))\<rparr>)),
      orders := modify i (\<lambda>r. r\<lparr>Ord_Status := StatusCanceled\<rparr>) (orders e)\<rparr>)"
    by (auto simp: cancel_locked_def Let_def split: option.splits if_splits)
  have oo: "order_ok j x" if "orders e j = Some x" for j x
    using ok that by (auto simp: engine_ok_def orders_ok_def)
  have b: "book_ok (orders e) (Ord_EventID ord) (Ord_Outcome ord) book"
    using ok o'(4,5) by (auto simp: engine_ok_def books_ok_def)
  have ids: "Ord_ID (deref (orders e) j) = j" if "j \<in> set (Bids book) \<union> set (Asks book)" for j
    using b that oo by (fastforce simp: book_ok_def resting_def order_ok_def)
  have idi: "Ord_ID ord = i" using oo o'(1) by (simp add: order_ok_def)
  have "Ord_Side ord = SideBuy \<Longrightarrow> i \<notin> set (Asks book)" "Ord_Side ord \<noteq> SideBuy \<Longrightarrow> i \<notin> set (Bids book)"
    using b o'(1) by (auto simp: book_ok_def resting_def)
  then have "(if Ord_Side ord = SideBuy
          then book\<lparr>Bids := fst (removeOrderFromSlice (orders e) (Bids book) (Ord_ID ord))\<rparr>
          else book\<lparr>Asks := fst (removeOrderFromSlice (orders e) (Asks book) (Ord_ID ord))\<rparr>) = without i book"
    using b ids by (cases book) (auto simp: idi without_def book_ok_def removeOrderFromSlice_filter
        intro!: filter_True [symmetric])
  with e' o' that show thesis by (simp add: modify_Some)
qed

lemma book_ok_without:
  assumes "book_ok st ev oc book"
  shows "book_ok (st(i \<mapsto> x)) ev oc (without i book)"
  unfolding without_def
  by (rule book_ok_update [OF assms])
    (use assms in \<open>auto simp: book_ok_def sorted_wrt_filter resting_def\<close>)

lemma book_ok_absent:
  assumes "book_ok st ev oc book" and "st i = Some ord" and "Ord_EventID ord \<noteq> ev \<or> Ord_Outcome ord \<noteq> oc"
  shows "book_ok (st(i \<mapsto> x)) ev oc book"
  by (rule book_ok_store [OF assms(1)])
    (use assms in \<open>auto simp: book_ok_def resting_def\<close>)

text \<open>Taking an order out of its book leaves every book well-formed and lists the order nowhere.\<close>

lemma cancel_books:
  assumes ok: "books_ok e" and o': "orders e i = Some o'"
    and mk: "markets e (Ord_EventID o') = Some market" "Book market (Ord_Outcome o') = Some book"
    and mks: "markets e' = (markets e)(Ord_EventID o' \<mapsto> setBook market (Ord_Outcome o') (without i book))"
    and ords: "orders e' = (orders e)(i \<mapsto> x)"
  shows "books_ok e'" "unlisted i e'"
proof -
  have bk: "book_ok (orders e) v oc b" if "markets e v = Some m" "Book m oc = Some b" for v m oc b
    using ok that by (auto simp: books_ok_def)
  have "book_ok (orders e') v oc b \<and> i \<notin> set (Bids b) \<and> i \<notin> set (Asks b)"
    if m: "markets e' v = Some m" "Book m oc = Some b" for v m oc b
  proof (cases "v = Ord_EventID o' \<and> oc = Ord_Outcome o'")
    case True
    with m mks mk have "b = without i book" by (auto simp: Book_setBook)
    with True book_ok_without [OF bk [OF mk]] show ?thesis by (auto simp: ords without_def)
  next
    case False
    then obtain m' where m': "markets e v = Some m'" "Book m' oc = Some b"
      using m mks mk by (auto simp: Book_setBook split: if_splits)
    have "i \<notin> set (Bids b)" "i \<notin> set (Asks b)"
      using bk [OF m'] o' False by (auto simp: book_ok_def resting_def)
    moreover have "book_ok (orders e') v oc b"
      unfolding ords using False by (intro book_ok_absent [OF bk [OF m'] o']) auto
    ultimately show ?thesis by simp
  qed
  then show "books_ok e'" "unlisted i e'" by (auto simp: books_ok_def unlisted_def)
qed

lemma cancel_ok:
  assumes ok: "engine_ok e" and c: "cancel_locked i ev e = Some (Inr e')"
  shows "engine_ok e'" "total_cash e' = total_cash e" "total_shares e' = total_shares e"
    "orders e i = Some ord \<Longrightarrow> orders e' = (orders e)
       (i \<mapsto> ord\<lparr>Ord_Status := StatusCanceled, Ord_LockedFunds := 0\<rparr>)"
    "unlisted i e'" "replaying e' = replaying e"
proof -
  from cancel_form [OF ok c] obtain o' market book where o': "orders e i = Some o'"
    and mk: "markets e (Ord_EventID o') = Some market" "Book market (Ord_Outcome o') = Some book"
    and e': "e' = releaseOrderLocked i (e\<lparr>markets := (markets e)(Ord_EventID o' \<mapsto>
            setBook market (Ord_Outcome o') (without i book)),
          orders := (orders e)(i \<mapsto> o'\<lparr>Ord_Status := StatusCanceled\<rparr>)\<rparr>)" .
  let ?o1 = "o'\<lparr>Ord_Status := StatusCanceled\<rparr>"
  define e1 where "e1 = e\<lparr>markets := (markets e)(Ord_EventID o' \<mapsto>
      setBook market (Ord_Outcome o') (without i book)), orders := (orders e)(i \<mapsto> ?o1)\<rparr>"
  have st1: "orders e1 i = Some ?o1" by (simp add: e1_def)
  have "rel_option same_lock (orders e j) (orders e1 j)" for j
    using o' by (auto simp: e1_def same_lock_def same_terms_def intro!: option.rel_refl)
  then have L1: "ledger_ok e1"
    using ok by (intro ledger_ok_same_lock [of e e1]) (simp_all add: engine_ok_def e1_def)
  note R = release_ledger_ok [OF L1 st1]
  have ords: "orders e' = (orders e)(i \<mapsto> ?o1\<lparr>Ord_LockedFunds := 0\<rparr>)"
    and mks: "markets e' = (markets e)(Ord_EventID o' \<mapsto> setBook market (Ord_Outcome o') (without i book))"
    using R(4,5) e' by (simp_all add: e1_def)
  show "orders e i = Some ord \<Longrightarrow> orders e' = (orders e)
       (i \<mapsto> ord\<lparr>Ord_Status := StatusCanceled, Ord_LockedFunds := 0\<rparr>)"
    using ords o' by simp
  have B: "books_ok e'" "unlisted i e'"
    using cancel_books [OF _ o' mk mks ords] ok by (simp_all add: engine_ok_def)
  then show "unlisted i e'" by simp
  have "orders_ok e'"
    using ok o' by (auto simp: orders_ok_def ords engine_ok_def order_ok_def is_open_def)
  with R(1) B(1) show "engine_ok e'" by (simp add: engine_ok_def e' e1_def)
  show "total_cash e' = total_cash e" "total_shares e' = total_shares e"
    using R(2,3) by (simp_all add: e' e1_def total_cash_def total_shares_def)
  show "replaying e' = replaying e"
    by (simp add: e' releaseOrderLocked_def Let_def getOrCreateBalance_entry getOrCreatePosition_entry
        putBalance_def putPosition_def)
qed

section \<open>The handlers\<close>

text \<open>The order a create command asks for.\<close>

definition wanted_order :: "HandlerIO \<Rightarrow> Json \<Rightarrow> Order option" where
  "wanted_order io payload =
     map_option (\<lambda>req. requestOrder (if Req_OrderID req = [] then H_uuid io else Req_OrderID req)
        (H_now io) req) (decodeRequest order_fields payload)"

definition safe_order :: "HandlerIO \<Rightarrow> Json \<Rightarrow> Engine \<Rightarrow> bool" where
  "safe_order io payload e \<longleftrightarrow>
     (case wanted_order io payload of None \<Rightarrow> True
      | Some ord \<Rightarrow> bounded_cost ord \<and> market_covered ord e)"

text \<open>Two engines with the same totals.\<close>

definition conserves :: "Engine \<Rightarrow> Engine \<Rightarrow> bool" where
  "conserves e e' \<longleftrightarrow> engine_ok e' \<and> total_cash e' = total_cash e \<and> total_shares e' = total_shares e"

lemma conserves_core: "conserves e e1 \<Longrightarrow> same_core e1 e2 \<Longrightarrow> conserves e e2"
  by (simp add: conserves_def same_core_ok)

lemma conserves_trans: "conserves e e1 \<Longrightarrow> conserves e1 e2 \<Longrightarrow> conserves e e2"
  by (simp add: conserves_def)

lemma announce_cases:
  assumes "announceOrder io pid t e = Some (resp, e')"
  obtains (dropped) e1 where "same_core e e1" "e' = dropOrder (Ord_ID t) e1" "\<not> Res_Success resp"
  | (matched) e1 trades e2 where "same_core e e1" "matchOrder io (Ord_ID t) pid e1 = Some (trades, e2)"
      "same_core e2 e'" "resp = successJSON (Some (orderReply (deref (orders e') (Ord_ID t))))"
proof (cases "marshalOrder t")
  case None
  with assms show thesis by (intro dropped [of e]) (auto simp: announceOrder_def failure_def)
next
  case (Some d)
  then obtain b e1 where em: "emitEventP (H_emit io) pid EventOrderCreated d False e = Some (b, e1)"
    using assms by (auto simp: announceOrder_def split: option.splits)
  note c = emit_same_core [OF em]
  show thesis
  proof (cases b)
    case False
    with assms Some em show thesis
      by (intro dropped [OF c]) (auto simp: announceOrder_def failure_def)
  next
    case True
    with assms Some em obtain trades e2 where "matchOrder io (Ord_ID t) pid e1 = Some (trades, e2)"
      "e' = e2\<lparr>metrics := (metrics e2)\<lparr>OrdersProcessed := OrdersProcessed (metrics e2) + 1\<rparr>\<rparr>"
      "resp = successJSON (Some (orderReply (deref (orders e') (Ord_ID t))))"
      by (auto simp: announceOrder_def split: option.splits)
    then show thesis by (intro matched [OF c]) auto
  qed
qed

lemma announce_conserves:
  assumes ok: "engine_ok e" and inc: "incoming_ok e i t market book" and aff: "affordable (orders e) book t"
    and an: "announceOrder io pid t e = Some (resp, e')"
  shows "conserves e e'"
  using an
proof (cases rule: announce_cases)
  case (dropped e1)
  have "Ord_ID t = i" "unlisted i e" using incoming_order [OF ok inc] inc by (simp_all add: incoming_ok_def)
  with drop_ok [of e1 i] dropped ok show ?thesis by (simp add: conserves_def same_core_ok)
next
  case (matched e1 trades e2)
  have i: "Ord_ID t = i" using incoming_order [OF ok inc] by simp
  have a: "engine_ok e1" "incoming_ok e1 i t market book"
    using ok inc matched(1) by (simp_all add: same_core_ok)
  have "affordable (orders e1) book t" using aff matched(1) by (simp add: same_core_def)
  from matchOrder_locked_ok [OF a this, of "H_tids io" "H_nows io"]
  have "conserves e1 (snd (matchOrder_locked (H_tids io) (H_nows io) i e1))" by (simp add: conserves_def)
  from conserves_core [OF conserves_core [OF this matchOrder_core(1)] matched(3)] matched(2) i
  have "conserves e1 e'" by blast
  with matched(1) show ?thesis by (simp add: conserves_def same_core_ok)
qed

lemma create_core_form:
  assumes "decodeRequest order_fields payload = Some req" and "wanted_order io payload = Some ord"
    and "admit_locked ord e = (a, e1)"
  shows "handleCreateOrderCore io pid payload e =
    (if Req_Quantity req \<le> 0 then Some (failure ''quantity must be greater than zero'', e)
     else (case validateOrder ord of Some msg \<Rightarrow> Some (failure msg, e)
       | None \<Rightarrow> (case a of
           Duplicate x \<Rightarrow> Some (successJSON (Some (statusReply (Ord_ID x) (Ord_Status x))), e1)
         | NoEvent \<Rightarrow> Some (failure ErrEventNotFound, e1)
         | NoFunds err \<Rightarrow> Some (failure (reserve_message err), e1)
         | Admitted o' \<Rightarrow> announceOrder io pid o' e1)))"
  using assms
  by (cases "Req_OrderID req = []"; cases a; cases "validateOrder ord")
    (auto simp: handleCreateOrderCore_def wanted_order_def Let_def)

lemma create_core_conserves:
  assumes ok: "engine_ok e" and safe: "safe_order io payload e"
    and h: "handleCreateOrderCore io pid payload e = Some (resp, e')"
  shows "conserves e e'"
proof (cases "decodeRequest order_fields payload")
  case None
  with h ok show ?thesis by (simp add: handleCreateOrderCore_def conserves_def)
next
  case (Some req)
  obtain ord where w: "wanted_order io payload = Some ord" using Some by (simp add: wanted_order_def)
  have sf: "bounded_cost ord" "market_covered ord e" using safe w by (simp_all add: safe_order_def)
  obtain a e1 where ad: "admit_locked ord e = (a, e1)" by (cases "admit_locked ord e")
  note form = create_core_form [OF Some w ad, of pid]
  show ?thesis
  proof (cases "Req_Quantity req \<le> 0 \<or> validateOrder ord \<noteq> None")
    case True
    with h form ok show ?thesis by (auto simp: conserves_def split: if_splits)
  next
    case False
    have new: "new_order ord"
      using False w Some by (auto simp: wanted_order_def intro: requestOrder_new)
    note A = admit_ok [OF ok new sf(1) ad]
    have c1: "conserves e e1" using A by (simp add: conserves_def)
    show ?thesis
    proof (cases a)
      case (Admitted o')
      with A obtain market book where inc: "incoming_ok e1 (Ord_ID ord) o' market book"
        and st: "orders e1 = (orders e)(Ord_ID ord \<mapsto> o')"
        and res: "reserveOrderLocked ord e = (None, o', e1\<lparr>orders := orders e\<rparr>)" by auto
      have "markets e1 = markets e" using reserve_frame [OF res] by simp
      note aff = admitted_affordable [OF sf(2) res st this inc]
      have "announceOrder io pid o' e1 = Some (resp, e')" using h form False Admitted by simp
      from announce_conserves [OF _ inc aff this] c1 show ?thesis by (auto simp: conserves_def)
    qed (use h form False c1 in auto)
  qed
qed

lemma create_conserves:
  assumes "engine_ok e" and "safe_order io payload e"
    and "handleCreateOrderP io pid payload e = Some (resp, e')"
  shows "conserves e e'"
proof -
  obtain r e1 where c: "handleCreateOrderCore io pid payload e = Some (r, e1)"
    using assms(3) by (auto simp: handleCreateOrderP_def split: option.splits)
  have "same_core e1 e'" using assms(3) c by (auto simp: handleCreateOrderP_def split: if_splits)
  from conserves_core [OF create_core_conserves [OF assms(1,2) c] this] show ?thesis .
qed

lemma cancel_handler_cases:
  assumes "handleCancelOrderP io pid payload e = Some (resp, e')"
  shows "e' = e \<or> (\<exists>i ev e1. cancel_locked i ev e = Some (Inr e1) \<and> same_core e1 e')"
proof -
  have m: "same_core e1 e3" if "emitEventP io' pid ty d b (e1\<lparr>metrics := x\<rparr>) = Some (y, e3)"
    for e1 e3 io' ty d b x y
    using emit_same_core [OF that] same_core_metrics(1) same_core_trans by blast
  from assms show ?thesis
    by (auto simp: handleCancelOrderP_def Let_def split: option.splits sum.splits if_splits)
      (use m emit_same_core in blast)+
qed

lemma cancel_conserves:
  assumes ok: "engine_ok e" and h: "handleCancelOrderP io pid payload e = Some (resp, e')"
  shows "conserves e e'"
  using cancel_handler_cases [OF h]
proof (elim disjE exE conjE)
  fix i ev e1 assume c: "cancel_locked i ev e = Some (Inr e1)" and s: "same_core e1 e'"
  have "conserves e e1" using cancel_ok(1,2,3) [OF ok c] by (simp add: conserves_def)
  from conserves_core [OF this s] show ?thesis .
qed (use ok in \<open>simp add: conserves_def\<close>)

section \<open>Commands\<close>

text \<open>The hypotheses on a command: what the code does not check itself.\<close>

definition safe_command :: "HandlerIO \<Rightarrow> string \<Rightarrow> Json \<Rightarrow> Engine \<Rightarrow> bool" where
  "safe_command io typ payload e \<longleftrightarrow>
     (typ = CreateOrderCommand \<longrightarrow> safe_order io payload e) \<and>
     (typ = UserCreatedCommand \<longrightarrow> total_cash e + DefaultStartingBalance \<le> max_i64)"

lemma handleMessage_cases:
  assumes "handleMessage io pid ty payload e = Some (resp, e')"
  shows "ty = CreateOrderCommand \<and> handleCreateOrderP io pid payload e = Some (resp, e') \<or>
    ty = CancelOrderCommand \<and> handleCancelOrderP io pid payload e = Some (resp, e') \<or>
    ty = CreateEventCommand \<and> handleCreateEvent payload e = (resp, e') \<or>
    ty = UserCreatedCommand \<and> handleUserCreated payload e = (resp, e') \<or> e' = e"
  using assms by (auto simp: handleMessage_def split: if_splits)

lemma handleMessage_conserves:
  assumes ok: "engine_ok e" and safe: "safe_command io ty payload e"
    and h: "handleMessage io pid ty payload e = Some (resp, e')"
  shows "conserves e e' \<or> ty = UserCreatedCommand \<and> engine_ok e' \<and>
    total_shares e' = total_shares e \<and> total_cash e' = total_cash e + DefaultStartingBalance"
  using handleMessage_cases [OF h]
proof (elim disjE conjE)
  assume c: "ty = CreateOrderCommand" "handleCreateOrderP io pid payload e = Some (resp, e')"
  then show ?thesis using create_conserves [OF ok _ c(2)] safe by (simp add: safe_command_def)
next
  assume "handleCancelOrderP io pid payload e = Some (resp, e')"
  then show ?thesis using cancel_conserves [OF ok] by blast
next
  assume "handleCreateEvent payload e = (resp, e')"
  then show ?thesis using create_event_ok [OF ok] by (simp add: conserves_def)
next
  assume c: "ty = UserCreatedCommand" "handleUserCreated payload e = (resp, e')"
  then have "total_cash e + DefaultStartingBalance \<le> max_i64" using safe by (simp add: safe_command_def)
  from user_created_ok [OF ok this c(2)] c(1) show ?thesis by (auto simp: conserves_def)
next
  assume "e' = e"
  then show ?thesis using ok by (simp add: conserves_def)
qed

section \<open>No panic\<close>

text \<open>The fields of the engine that only settings change.\<close>

definition same_config :: "Engine \<Rightarrow> Engine \<Rightarrow> bool" where
  "same_config e e' \<longleftrightarrow> length (partitionSeq e') = length (partitionSeq e) \<and>
     replaying e' = replaying e \<and> redisManager e' = redisManager e \<and> partitions e' = partitions e \<and>
     router e' = router e"

lemma same_config_refl [simp]: "same_config e e"
  by (simp add: same_config_def)

lemma same_config_trans: "same_config e e' \<Longrightarrow> same_config e' e'' \<Longrightarrow> same_config e e''"
  by (simp add: same_config_def)

lemma same_setup_config: "same_setup e e' \<Longrightarrow> same_config e e'"
  by (simp add: same_setup_def same_core_def same_config_def)

lemma ledger_config [simp]:
  "same_config e (settleTradeLocked t e)" "same_config e (releaseOrderLocked i e)"
  by (simp_all add: same_config_def settle_form Let_def releaseOrderLocked_def getOrCreateBalance_entry
      getOrCreatePosition_entry putBalance_def putPosition_def)

lemma settle_fold_config: "same_config e (fold settleTradeLocked ts e)"
proof (induction ts arbitrary: e)
  case (Cons t ts)
  have "same_config e (settleTradeLocked t e)" by simp
  from same_config_trans [OF this Cons.IH] show ?case by simp
qed simp

lemma match_config: "same_config e (snd (matchOrder_locked tids nows i e))"
proof -
  have "same_config e (fold settleTradeLocked ts (e\<lparr>orders := x, markets := y\<rparr>))" for ts x y
    by (rule same_config_trans [OF _ settle_fold_config]) (simp add: same_config_def)
  then show ?thesis
    by (auto simp: matchOrder_locked_def Let_def case_prod_unfold split: option.split
        intro: same_config_trans [OF _ ledger_config(2)]) (simp_all add: same_config_def)
qed

lemma emit_config: "emitEventP io pid ty d b e = Some (ok, e') \<Longrightarrow> same_config e e'"
  using emitEventP_frame same_setup_config by blast

lemma emit_not_None:
  "0 \<le> pid \<Longrightarrow> pid < int (length (partitionSeq e)) \<Longrightarrow> emitEventP io pid ty d b e = None \<longleftrightarrow> False"
  using emitEventP_total [of pid e io ty d b] by auto

lemma publishTrades_total:
  assumes "0 \<le> pid" and "pid < int (length (partitionSeq e))"
  shows "\<exists>e'. publishTrades ios pid k ts e = Some e' \<and> same_config e e'"
  using assms
proof (induction ts arbitrary: k e)
  case (Cons t ts)
  let ?e1 = "e\<lparr>metrics := (metrics e)\<lparr>TradesExecuted := TradesExecuted (metrics e) + 1\<rparr>\<rparr>"
  have c1: "same_config e ?e1" by (simp add: same_config_def)
  have "\<exists>ok e2. publishTrade (ios k) pid t ?e1 = Some (ok, e2)"
    using emitEventP_total [OF Cons.prems(1), of ?e1] Cons.prems(2)
    by (cases "marshalTrade t") (auto simp: publishTrade_def)
  then obtain ok e2 where p: "publishTrade (ios k) pid t ?e1 = Some (ok, e2)" by blast
  then have c2: "same_config ?e1 e2"
    using emit_config by (auto simp: publishTrade_def split: option.splits)
  then have "pid < int (length (partitionSeq e2))"
    using Cons.prems(2) by (simp add: same_config_def)
  from Cons.IH [OF Cons.prems(1) this, of "Suc k"] p c1 c2 show ?case
    by (auto intro: same_config_trans)
qed simp

lemma matchOrder_total:
  assumes "0 \<le> pid" and "pid < int (length (partitionSeq e))"
  shows "\<exists>trades e'. matchOrder io i pid e = Some (trades, e')"
proof -
  obtain trs e1 where m: "matchOrder_locked (H_tids io) (H_nows io) i e = (trs, e1)"
    by (cases "matchOrder_locked (H_tids io) (H_nows io) i e")
  have "same_config e e1" using match_config [of e "H_tids io" "H_nows io" i] m by simp
  then have len: "pid < int (length (partitionSeq e1))" using assms(2) by (simp add: same_config_def)
  let ?e2 = "e1\<lparr>metrics := (metrics e1)\<lparr>OrdersFilled := OrdersFilled (metrics e1) + 1\<rparr>\<rparr>"
  have "pid < int (length (partitionSeq ?e2))" using len by simp
  with publishTrades_total [OF assms(1) len, of "H_trade io" 0 trs]
    publishTrades_total [OF assms(1), of ?e2 "H_trade io" 0 trs] m show ?thesis
    by (auto simp: matchOrder_def Let_def)
qed

lemma announce_total:
  assumes "0 \<le> pid" and "pid < int (length (partitionSeq e))"
  shows "announceOrder io pid t e \<noteq> None"
proof (cases "marshalOrder t")
  case (Some d)
  obtain ok e1 where em: "emitEventP (H_emit io) pid EventOrderCreated d False e = Some (ok, e1)"
    using emitEventP_total [OF assms] by blast
  then have "pid < int (length (partitionSeq e1))"
    using emit_config [OF em] assms(2) by (simp add: same_config_def)
  with matchOrder_total [OF assms(1), of e1 io "Ord_ID t"] em Some show ?thesis
    by (auto simp: announceOrder_def split: bool.split)
qed (simp add: announceOrder_def)

lemma admit_config: "same_config e (snd (admit_locked ord e))"
proof -
  obtain r o1 e1 where res: "reserveOrderLocked ord e = (r, o1, e1)"
    by (cases "reserveOrderLocked ord e") auto
  have "same_config e e1"
    using res by (cases "Ord_Side ord = SideBuy")
      (auto simp: reserve_buy reserve_sell same_config_def split: if_splits)
  then show ?thesis
    using res by (auto simp: admit_locked_def same_config_def split: option.split)
qed

lemma create_total:
  assumes "0 \<le> pid" and "pid < int (length (partitionSeq e))"
  shows "handleCreateOrderP io pid payload e \<noteq> None"
proof -
  have "handleCreateOrderCore io pid payload e \<noteq> None"
  proof (cases "decodeRequest order_fields payload")
    case (Some req)
    obtain ord where w: "wanted_order io payload = Some ord" using Some by (simp add: wanted_order_def)
    obtain a e1 where ad: "admit_locked ord e = (a, e1)" by (cases "admit_locked ord e")
    have "announceOrder io pid t e1 \<noteq> None" for t
      using admit_config [of e ord] ad assms by (intro announce_total) (simp_all add: same_config_def)
    then show ?thesis
      by (simp add: create_core_form [OF Some w ad] split: option.split admission.split)
  qed (simp add: handleCreateOrderCore_def)
  then show ?thesis by (auto simp: handleCreateOrderP_def split: option.split)
qed

lemma cancel_total:
  assumes ok: "engine_ok e" and p: "0 \<le> pid" "pid < int (length (partitionSeq e))"
  shows "handleCancelOrderP io pid payload e \<noteq> None"
proof (cases "decodeRequest [''orderId'', ''eventId''] payload")
  case (Some req)
  let ?c = "cancel_locked (Req_OrderID req) (Req_EventID req) e"
  have "?c \<noteq> None"
    using ok by (auto simp: cancel_locked_def Let_def engine_ok_def orders_ok_def order_ok_def Book_def
        split: option.splits if_splits)
  then obtain r where r: "?c = Some r" by blast
  show ?thesis
  proof (cases r)
    case (Inl msg)
    with Some r show ?thesis by (simp add: handleCancelOrderP_def)
  next
    case (Inr e1)
    obtain x where "e1 = releaseOrderLocked (Req_OrderID req) x" "same_config e x"
      by (rule cancel_form [OF ok r [unfolded Inr]], rule that, assumption)
        (simp add: same_config_def)
    then have "same_config e e1" using same_config_trans ledger_config(2) by blast
    then have len: "pid < int (length (partitionSeq e1))" using p(2) by (simp add: same_config_def)
    then show ?thesis
      using Some r Inr p(1)
      by (simp add: handleCancelOrderP_def Let_def option.case_eq_if case_prod_unfold emit_not_None)
  qed
qed (simp add: handleCancelOrderP_def)

section \<open>Orders keep their terms\<close>

text \<open>Every order of the new state was there before, with the same terms.\<close>

definition terms_from :: "Engine \<Rightarrow> Engine \<Rightarrow> bool" where
  "terms_from e e' \<longleftrightarrow> (\<forall>j ord'. orders e' j = Some ord' \<longrightarrow>
     (\<exists>ord. orders e j = Some ord \<and> same_terms ord ord'))"

lemma same_terms_trans: "same_terms a b \<Longrightarrow> same_terms b c \<Longrightarrow> same_terms a c"
  by (simp add: same_terms_def)

lemma terms_from_trans: "terms_from e e1 \<Longrightarrow> terms_from e1 e2 \<Longrightarrow> terms_from e e2"
  unfolding terms_from_def using same_terms_trans by blast

lemma terms_from_core: "same_core e e' \<Longrightarrow> terms_from e e'"
  by (simp add: terms_from_def same_core_def)

lemma match_terms:
  assumes ok: "engine_ok e" and inc: "incoming_ok e i t market book" and aff: "affordable (orders e) book t"
  shows "terms_from e (snd (matchOrder_locked tids nows i e))"
proof -
  let ?mk = "(markets e)(Ord_EventID t \<mapsto>
      setBook market (Ord_Outcome t) (matched_book (orders e) book i t))"
  define e2 where "e2 = fold settleTradeLocked (matched_trades tids nows (orders e) book t)
      (e\<lparr>orders := matched_store (orders e) book i t, markets := ?mk\<rparr>)"
  note S = matched_settled [OF ok inc aff, of tids nows ?mk, folded e2_def]
  have t2: "terms_from e e2"
    unfolding terms_from_def
  proof (intro allI impI)
    fix j ord' assume j: "orders e2 j = Some ord'"
    obtain o1 where "matched_store (orders e) book i t j = Some o1" "same_terms o1 ord'"
      using S(5) [of j] j
      by (cases "matched_store (orders e) book i t j") (auto simp: same_terms_def)
    with matched_same_lock [of "orders e" i t j book, OF incoming_order(6) [OF ok inc]]
    show "\<exists>ord. orders e j = Some ord \<and> same_terms ord ord'"
      by (cases "orders e j") (auto simp: same_lock_def intro: same_terms_trans)
  qed
  obtain t' where t': "orders e2 i = Some t'" using S(5) [of i] by (auto simp: matched_lookup Let_def)
  have "terms_from e2 (releaseOrderLocked i e2)"
    using release_ledger_ok(4) [OF S(1) t'] t' by (auto simp: terms_from_def)
  with t2 terms_from_trans [OF t2] show ?thesis
    unfolding matchOrder_form [OF ok inc] by (simp add: e2_def)
qed

lemma announce_terms:
  assumes ok: "engine_ok e" and inc: "incoming_ok e i t market book" and aff: "affordable (orders e) book t"
    and an: "announceOrder io pid t e = Some (resp, e')"
  shows "terms_from e e'"
  using an
proof (cases rule: announce_cases)
  case (dropped e1)
  then show ?thesis by (auto simp: terms_from_def dropOrder_def same_core_def)
next
  case (matched e1 trades e2)
  have i: "Ord_ID t = i" using incoming_order [OF ok inc] by simp
  have a: "engine_ok e1" "incoming_ok e1 i t market book"
    using ok inc matched(1) by (simp_all add: same_core_ok)
  have "affordable (orders e1) book t" using aff matched(1) by (simp add: same_core_def)
  note m = match_terms [OF a this, of "H_tids io" "H_nows io"]
  note c = terms_from_core [OF matchOrder_core(1) [OF matched(2) [unfolded i]]]
  from terms_from_trans [OF terms_from_core [OF matched(1)] terms_from_trans [OF m
      terms_from_trans [OF c terms_from_core [OF matched(3)]]]]
  show ?thesis .
qed

lemma create_terms:
  assumes ok: "engine_ok e" and safe: "safe_order io payload e"
    and h: "handleCreateOrderP io pid payload e = Some (resp, e')"
    and j: "orders e' j = Some ord'"
  shows "(\<exists>ord. orders e j = Some ord \<and> same_terms ord ord') \<or>
    (\<exists>ord o1 e1. wanted_order io payload = Some ord \<and> same_terms ord ord' \<and> validateOrder ord = None \<and>
       reserveOrderLocked ord e = (None, o1, e1))"
proof (cases "wanted_order io payload")
  case None
  with h j show ?thesis
    by (auto simp: handleCreateOrderP_def handleCreateOrderCore_def wanted_order_def split: if_splits)
next
  case (Some ord)
  then obtain req where dec: "decodeRequest order_fields payload = Some req"
    by (auto simp: wanted_order_def)
  obtain a e1 where ad: "admit_locked ord e = (a, e1)" by (cases "admit_locked ord e")
  obtain r e2 where c: "handleCreateOrderCore io pid payload e = Some (r, e2)" and o2: "orders e' = orders e2"
    using h by (auto simp: handleCreateOrderP_def split: option.splits if_splits)
  note form = create_core_form [OF dec Some ad, of pid]
  show ?thesis
  proof (cases "Req_Quantity req \<le> 0 \<or> validateOrder ord \<noteq> None")
    case True
    with c form j o2 show ?thesis by (auto split: if_splits)
  next
    case False
    have new: "new_order ord" using False Some dec by (auto simp: wanted_order_def intro: requestOrder_new)
    have sf: "bounded_cost ord" "market_covered ord e" using safe Some by (simp_all add: safe_order_def)
    note A = admit_ok [OF ok new sf(1) ad]
    show ?thesis
    proof (cases a)
      case (Admitted o')
      with A obtain market book where inc: "incoming_ok e1 (Ord_ID ord) o' market book"
        and st: "orders e1 = (orders e)(Ord_ID ord \<mapsto> o')"
        and res: "reserveOrderLocked ord e = (None, o', e1\<lparr>orders := orders e\<rparr>)" by auto
      have "markets e1 = markets e" using reserve_frame [OF res] by simp
      note aff = admitted_affordable [OF sf(2) res st this inc]
      have "announceOrder io pid o' e1 = Some (r, e2)" using c form False Admitted by simp
      from announce_terms [OF _ inc aff this] A j o2
      obtain o1 where o1: "orders e1 j = Some o1" "same_terms o1 ord'" by (auto simp: terms_from_def)
      have "same_terms ord o'" using reserve_frame [OF res] by auto
      with o1 st res Some False show ?thesis by (auto split: if_splits intro: same_terms_trans)
    qed (use A c form False j o2 in auto)
  qed
qed

section \<open>Properties of the command loop\<close>


text \<open>
C11: No command makes the engine panic: in a state that satisfies the invariant, on a partition the
sequence counters cover, the dispatcher returns a response for every command type and payload, for
every answer of Redis and of the journal.
\<close>

theorem handleMessage_no_panic:
  assumes "engine_ok e" and "0 \<le> pid" and "pid < int (length (partitionSeq e))"
  shows "\<exists>resp e'. handleMessage io pid ty payload e = Some (resp, e')"
  using create_total [OF assms(2,3), of io payload] cancel_total [OF assms, of io payload]
  by (auto simp: handleMessage_def)

section \<open>Reachable engines\<close>

text \<open>
  The states an engine process goes through: it starts empty, settings are applied, partitions are
  configured, leases come and go (which changes the fencing tokens), replays start and end, and
  commands are handled on some partition.
\<close>

inductive reachable :: "Engine \<Rightarrow> bool" where
  start: "newEngine rm file = Some e \<Longrightarrow> reachable e"
| router: "reachable e \<Longrightarrow> partitions e = {} \<Longrightarrow> SetRouter ro e = Some e' \<Longrightarrow> reachable e'"
| settings: "reachable e \<Longrightarrow> reachable (SetLeaseSettings eid ttl renew (SetStreamNames es ws e))"
| partition: "reachable e \<Longrightarrow> AddPartition p e = Inr e' \<Longrightarrow> reachable e'"
| token: "reachable e \<Longrightarrow> reachable (e\<lparr>partitionToken := (partitionToken e)(p := tok)\<rparr>)"
| replay: "reachable e \<Longrightarrow> reachable (e\<lparr>replaying := (replaying e)(p := flag)\<rparr>)"
| recover: "reachable e \<Longrightarrow> Recover rd rx rp rr e = (ok, e') \<Longrightarrow> reachable e'"
| command: "reachable e \<Longrightarrow> pid \<in> partitions e \<Longrightarrow> safe_command io ty payload e \<Longrightarrow>
    handleMessage io pid ty payload e = Some (resp, e') \<Longrightarrow> reachable e'"

text \<open>Steps that change neither markets, orders nor the ledger.\<close>

definition same_books :: "Engine \<Rightarrow> Engine \<Rightarrow> bool" where
  "same_books e e' \<longleftrightarrow> markets e' = markets e \<and> orders e' = orders e \<and> balances e' = balances e \<and>
     positions e' = positions e"

lemma same_books_ok:
  assumes "same_books e e'"
  shows "engine_ok e' = engine_ok e" "total_cash e' = total_cash e" "total_shares e' = total_shares e"
  using assms
  by (simp_all add: same_books_def engine_ok_def ledger_ok_def orders_ok_def books_ok_def
      total_cash_def total_shares_def)

lemma config_same_books:
  "SetRouter ro e = Some e1 \<Longrightarrow> same_books e e1"
  "same_books e (SetLeaseSettings eid ttl renew (SetStreamNames es ws e))"
  "AddPartition p e = Inr e1 \<Longrightarrow> same_books e e1"
  "same_books e (e\<lparr>partitionToken := tk\<rparr>)" "same_books e (e\<lparr>replaying := rp\<rparr>)"
  by (auto simp: same_books_def SetRouter_def SetLeaseSettings_def SetStreamNames_def AddPartition_def
      Let_def split: option.splits if_splits)

lemma Recover_core: "Recover rd rx rp rr e = (ok, e') \<Longrightarrow> same_setup e e'"
proof -
  assume r: "Recover rd rx rp rr e = (ok, e')"
  obtain ok1 e1 where a: "republishAll rx rp 0 (journal e) e = (ok1, e1)"
    by (cases "republishAll rx rp 0 (journal e) e")
  have "same_setup e e1" using republishAll_frame [OF a] by simp
  from same_setup_trans [OF this] have "same_setup e (snd (outboxReset rr e1))" by simp
  with \<open>same_setup e e1\<close> r a show ?thesis by (auto simp: Recover_def split: if_splits)
qed

lemma reachable_inv:
  "reachable e \<Longrightarrow> engine_ok e \<and> total_shares e = 0 \<and> (\<exists>n. total_cash e = int n * DefaultStartingBalance)"
proof (induction rule: reachable.induct)
  case (start rm fl e)
  with engine_ok_new [OF start] show ?case by (auto intro: exI [of _ 0])
next
  case (command e pid io ty payload resp e')
  then obtain n where n: "total_cash e = int n * DefaultStartingBalance" by blast
  have "total_cash e + DefaultStartingBalance = int (Suc n) * DefaultStartingBalance"
    using n by (simp add: distrib_right)
  with handleMessage_conserves [of e, OF _ command(3,4)] command(5) n show ?case
    unfolding conserves_def by metis
next
  case (recover e rd rx rp rr ok e')
  have "same_core e e'" using Recover_core [OF recover(2)] by (simp add: same_setup_def)
  with recover(3) show ?case by (simp add: same_core_ok)
next
  case (router e ro e')
  with same_books_ok [OF config_same_books(1) [OF router.hyps(3)]] show ?case by simp
next
  case (settings e eid ttl renew es ws)
  with same_books_ok [OF config_same_books(2)] show ?case by simp
next
  case (partition e p e')
  with same_books_ok [OF config_same_books(3) [OF partition.hyps(2)]] show ?case by simp
next
  case (token e p tok)
  with same_books_ok [OF config_same_books(4)] show ?case by simp
next
  case (replay e p flag)
  with same_books_ok [OF config_same_books(5)] show ?case by simp
qed

text \<open>With no shares in the system no SELL can be funded.\<close>

lemma no_shares_no_sell:
  assumes ok: "engine_ok e" and z: "total_shares e = 0" and v: "validateOrder ord = None"
    and new: "Ord_RemainingQuantity ord = Ord_Quantity ord"
    and res: "reserveOrderLocked ord e = (None, o1, e1)"
  shows "Ord_Side ord = SideBuy"
proof (rule ccontr)
  assume s: "Ord_Side ord \<noteq> SideBuy"
  have L: "ledger_ok e" using ok by (simp add: engine_ok_def)
  note P = ledger_okD(3) [OF L]
  have "Pos_Available (sharebook.entry (positions e) (ord_key ord)) \<le> 0"
    using sharebook.entry_le_total [OF P, of "ord_key ord"] sharebook.entry_nonneg [OF P, of "ord_key ord"] z
    by (simp add: sharebook.holdings_def total_shares_book)
  with s v new res show False
    by (auto simp: reserve_sell validateOrder_None_iff split: if_splits)
qed

definition all_buys :: "Engine \<Rightarrow> bool" where
  "all_buys e \<longleftrightarrow> (\<forall>i ord. orders e i = Some ord \<longrightarrow> Ord_Side ord = SideBuy)"

lemma handleMessage_all_buys:
  assumes ok: "engine_ok e" and z: "total_shares e = 0" and b: "all_buys e"
    and safe: "safe_command io ty payload e" and h: "handleMessage io pid ty payload e = Some (resp, e')"
  shows "all_buys e'"
  using handleMessage_cases [OF h]
proof (elim disjE conjE)
  assume c: "ty = CreateOrderCommand" "handleCreateOrderP io pid payload e = Some (resp, e')"
  have sf: "safe_order io payload e" using safe c(1) by (simp add: safe_command_def)
  show ?thesis
    unfolding all_buys_def
  proof (intro allI impI)
    fix i ord' assume i: "orders e' i = Some ord'"
    from create_terms [OF ok sf c(2) i] show "Ord_Side ord' = SideBuy"
    proof (elim disjE exE conjE)
      fix ord o1 e1 assume w: "wanted_order io payload = Some ord" "same_terms ord ord'"
        "validateOrder ord = None" "reserveOrderLocked ord e = (None, o1, e1)"
      have "Ord_RemainingQuantity ord = Ord_Quantity ord"
        using w(1) by (auto simp: wanted_order_def requestOrder_def)
      from no_shares_no_sell [OF ok z w(3) this w(4)] w(2) show ?thesis by (simp add: same_terms_def)
    qed (use b in \<open>auto simp: all_buys_def same_terms_def\<close>)
  qed
next
  assume "handleCancelOrderP io pid payload e = Some (resp, e')"
  from cancel_handler_cases [OF this] show ?thesis
  proof (elim disjE exE conjE)
    fix i ev e1 assume c: "cancel_locked i ev e = Some (Inr e1)" and s: "same_core e1 e'"
    obtain ord where o': "orders e i = Some ord"
      using c by (auto simp: cancel_locked_def split: option.splits)
    from cancel_ok(4) [OF ok c o'] b o' s show ?thesis by (auto simp: all_buys_def same_core_def)
  qed (use b in auto)
next
  assume "handleCreateEvent payload e = (resp, e')"
  then show ?thesis using b by (auto simp: handleCreateEvent_def all_buys_def split: option.splits if_splits)
next
  assume "handleUserCreated payload e = (resp, e')"
  then show ?thesis using b by (auto simp: handleUserCreated_def all_buys_def split: option.splits if_splits)
qed (use b in simp)

lemma reachable_all_buys: "reachable e \<Longrightarrow> all_buys e"
proof (induction rule: reachable.induct)
  case (command e pid io ty payload resp e')
  with reachable_inv [OF command(1)] handleMessage_all_buys show ?case by blast
next
  case (recover e rd rx rp rr ok e')
  have "same_core e e'" using Recover_core [OF recover(2)] by (simp add: same_setup_def)
  with recover(3) show ?case by (simp add: all_buys_def same_core_def)
next
  case (start rm fl e)
  then show ?case by (auto simp: all_buys_def newEngine_def split: if_splits option.splits)
qed (simp_all add: all_buys_def same_books_def [THEN iffD1, OF config_same_books(2)]
    same_books_def [THEN iffD1, OF config_same_books(1)] same_books_def [THEN iffD1, OF config_same_books(3)])


text \<open>
C33: No command puts shares into the system, so none can ever be sold: in every reachable state the
shares total zero, no stored order is a SELL, and the ask side of every book is empty. Trading
needs positions that the commands cannot create.
\<close>

theorem reachable_no_sells:
  assumes "reachable e"
  shows "(total_shares e = 0) \<and>
    (orders e i = Some ord \<longrightarrow> Ord_Side ord = SideBuy) \<and>
    (markets e ev = Some m \<longrightarrow> Book m oc = Some book \<longrightarrow> Asks book = [])"
proof -
  note I = reachable_inv [OF assms] and B = reachable_all_buys [OF assms]
  have g1: "total_shares e = 0" using I by simp
  have g2: "orders e i = Some ord \<Longrightarrow> Ord_Side ord = SideBuy" using B by (auto simp: all_buys_def)
  have g3: "Asks book = []" if "markets e ev = Some m" "Book m oc = Some book"
  proof -
    have "\<forall>r\<in>set (Asks book). resting (orders e) ev oc SideSell r"
      using I that by (auto simp: engine_ok_def books_ok_def book_ok_def)
    then show ?thesis using B by (cases "Asks book") (auto simp: resting_def all_buys_def)
  qed
  from g1 g2 g3 show ?thesis by blast
qed

end
