(* ===== verification/Matching_Properties.thy ===== *)
theory Matching_Properties
  imports Engine_Invariant
begin

text \<open>
  What the critical section of \<^verbatim>\<open>matchOrder\<close> promises to traders: trades are made with the right
  partner at the right price, in price-time priority, until nothing is left to match; the
  quantities of the trades are the quantities booked on the orders; and the order ends with the
  status the source documents. All of them are read off the greedy allocation that
  \<open>matchAgainstBook\<close> refines.
\<close>

section \<open>The result of a match\<close>

definition matched_market :: "Engine \<Rightarrow> string \<Rightarrow> Order \<Rightarrow> Market \<Rightarrow> OrderBook \<Rightarrow> (string \<rightharpoonup> Market)" where
  "matched_market e i t market book = (markets e)(Ord_EventID t \<mapsto>
     setBook market (Ord_Outcome t) (matched_book (orders e) book i t))"

lemma match_trades:
  assumes "engine_ok e" and "incoming_ok e i t market book"
  shows "fst (matchOrder_locked tids nows i e) = matched_trades tids nows (orders e) book t"
  unfolding matchOrder_form [OF assms] by simp

lemma match_result:
  fixes e :: Engine and tids :: "nat \<Rightarrow> string" and nows :: "nat \<Rightarrow> int"
  assumes ok: "engine_ok e" and inc: "incoming_ok e i t market book"
    and aff: "affordable (orders e) book t"
  defines "st \<equiv> matched_store (orders e) book i t"
  defines "e' \<equiv> snd (matchOrder_locked tids nows i e)"
  shows "markets e' = matched_market e i t market book"
    and "\<exists>x. orders e' j = map_option (\<lambda>ord. ord\<lparr>Ord_LockedFunds := x\<rparr>) (st j)"
    and "Ord_Status (deref st i) = StatusFilled \<or> Ord_Status (deref st i) = StatusCanceled \<Longrightarrow>
      Ord_LockedFunds (deref (orders e') i) = 0"
proof -
  let ?mk = "matched_market e i t market book"
  define e2 where "e2 = fold settleTradeLocked (matched_trades tids nows (orders e) book t)
      (e\<lparr>orders := st, markets := ?mk\<rparr>)"
  note S = matched_settled [OF ok inc aff, of tids nows ?mk, folded st_def, folded e2_def]
  have e': "e' = (if Ord_Status (deref st i) = StatusFilled \<or> Ord_Status (deref st i) = StatusCanceled
      then releaseOrderLocked i e2 else e2)"
    unfolding e'_def matchOrder_form [OF ok inc] by (simp add: e2_def st_def matched_market_def)
  have st2: "\<exists>x. orders e2 j = map_option (\<lambda>ord. ord\<lparr>Ord_LockedFunds := x\<rparr>) (st j)" for j
    using S(5) [of j] by (cases "st j") auto
  have "st i \<noteq> None" by (simp add: st_def matched_lookup Let_def)
  then obtain t' where t': "orders e2 i = Some t'" using st2 [of i] by auto
  note R = release_ledger_ok [OF S(1) t']
  show "markets e' = ?mk" using e' S(4) R(5) by simp
  show "\<exists>x. orders e' j = map_option (\<lambda>ord. ord\<lparr>Ord_LockedFunds := x\<rparr>) (st j)"
    using st2 [of j] t' by (cases "j = i"; cases "st j") (auto simp: e' R(4))
  show "Ord_LockedFunds (deref (orders e') i) = 0"
    if "Ord_Status (deref st i) = StatusFilled \<or> Ord_Status (deref st i) = StatusCanceled"
    using that by (simp add: e' R(4))
qed

lemma match_order_fields:
  fixes tids :: "nat \<Rightarrow> string" and nows :: "nat \<Rightarrow> int" and e :: Engine
  assumes "engine_ok e" and "incoming_ok e i t market book" and "affordable (orders e) book t"
  defines "o' \<equiv> deref (orders (snd (matchOrder_locked tids nows i e)))"
    and "om \<equiv> deref (matched_store (orders e) book i t)"
  shows "Ord_RemainingQuantity (o' j) = Ord_RemainingQuantity (om j)"
    "Ord_FilledQuantity (o' j) = Ord_FilledQuantity (om j)" "Ord_Status (o' j) = Ord_Status (om j)"
    "Ord_UserID (o' j) = Ord_UserID (om j)" "Ord_Price (o' j) = Ord_Price (om j)"
    "Ord_Outcome (o' j) = Ord_Outcome (om j)" "Ord_OrderType (o' j) = Ord_OrderType (om j)"
    "Ord_Side (o' j) = Ord_Side (om j)"
proof -
  obtain x where "orders (snd (matchOrder_locked tids nows i e)) j =
      map_option (\<lambda>ord. ord\<lparr>Ord_LockedFunds := x\<rparr>) (matched_store (orders e) book i t j)"
    using match_result(2) [OF assms(1-3)] by blast
  then show "Ord_RemainingQuantity (o' j) = Ord_RemainingQuantity (om j)"
    "Ord_FilledQuantity (o' j) = Ord_FilledQuantity (om j)" "Ord_Status (o' j) = Ord_Status (om j)"
    "Ord_UserID (o' j) = Ord_UserID (om j)" "Ord_Price (o' j) = Ord_Price (om j)"
    "Ord_Outcome (o' j) = Ord_Outcome (om j)" "Ord_OrderType (o' j) = Ord_OrderType (om j)"
    "Ord_Side (o' j) = Ord_Side (om j)"
    by (cases "matched_store (orders e) book i t j"; simp add: o'_def om_def deref_def)+
qed

lemma trade_of_fill:
  assumes "tr \<in> set (matched_trades tids nows st book t)"
  obtains r q k where "(r, q) \<in> set (allocation st book t)"
    "tr = buildTrade (tids k) (nows k) t (deref st r) q"
  using assms set_trades_ofD unfolding matched_trades_def by blast

lemma fill_has_trade:
  "(r, q) \<in> set F \<Longrightarrow> \<exists>k. buildTrade (tids k) (nows k) t (deref st r) q \<in> set (trades_of tids nows n st t F)"
proof (induction F arbitrary: n)
  case (Cons f F)
  then show ?case using Cons.IH [of "Suc n"] by (cases f) auto
qed simp

section \<open>Trades\<close>

lemma fills_prefix: "map fst (fills q cs) = take (length (fills q cs)) (map fst cs)"
  by (induction q cs rule: fills.induct) auto

lemma makers_of_trades:
  "map Trd_MatchOrderID (trades_of tids nows n st t F) = map (\<lambda>r. Ord_ID (deref st r)) (map fst F)"
  by (induction F arbitrary: n) (auto simp: buildTrade_def)

lemma length_trades_of: "length (trades_of tids nows n st t F) = length F"
  by (induction F arbitrary: n) auto

text \<open>
C8: The matching loop ends, and soon: the loop, which runs until the incoming order is filled or no
counterparty is found and has no bound of its own, makes at most one trade with each eligible resting
order, so at most as many rounds as there are eligible orders on the opposite side.
\<close>

theorem match_bounded_rounds:
  assumes "engine_ok e" and "incoming_ok e i t market book"
  shows "length (fst (matchOrder_locked tids nows i e)) \<le>
      length (filter (eligible (orders e) t) (opposite (Ord_Side t) book))
    \<and> distinct (map Trd_MatchOrderID (fst (matchOrder_locked tids nows i e)))"
proof -
  let ?side = "opposite (Ord_Side t) book" and ?F = "allocation (orders e) book t"
  let ?el = "filter (eligible (orders e) t) ?side"
  have pre: "map fst ?F = take (length ?F) ?el"
    unfolding allocation_def by (subst fills_prefix) (simp add: candidates_def comp_def)
  then have len: "length ?F \<le> length ?el" by (metis length_map length_take min.absorb_iff2 min.commute)
  have "Ord_ID (deref (orders e) r) = r" if "r \<in> set ?side" for r
    using book_side_ok(3) [OF assms, of "Ord_Side t"] that assms(1)
    by (fastforce simp: resting_def engine_ok_def orders_ok_def order_ok_def deref_def)
  then have "map (\<lambda>r. Ord_ID (deref (orders e) r)) (map fst ?F) = map fst ?F"
    unfolding pre by (intro map_idI) (auto dest: in_set_takeD)
  moreover have "distinct (map fst ?F)"
    unfolding pre using book_side_ok(1) [OF assms, of "Ord_Side t"] by (simp add: side_ok_def)
  ultimately show ?thesis
    using len unfolding match_trades [OF assms] matched_trades_def makers_of_trades length_trades_of by (metis (no_types))
qed

text \<open>
C6: The matching loop refines its specification: the allocation that walks the eligible orders of
the opposite side in book order and gives each the smaller of what it has left and what the incoming
order still needs. The loop, with its rescans of the book from the front after every fill and its
removals by index, ends with exactly the trades of that allocation in its order, the store with
those fills booked on both sides, and a book from which the exhausted orders are gone and in which
the others keep their places.
\<close>

theorem matchAgainstBook_greedy:
  assumes "engine_ok e" and "incoming_ok e i t market book"
  shows "matchAgainstBook tids nows book (orders e) i [] =
    (let F = allocation (orders e) book t; st = after_fills i F (orders e)
     in (set_opposite (Ord_Side t)
           (filter (\<lambda>r. 0 < Ord_RemainingQuantity (deref st r)) (opposite (Ord_Side t) book)) book,
         st, trades_of tids nows 0 (orders e) t F))"
  using matchAgainstBook_refines [OF incoming_order(6,2) [OF assms] refl book_side_ok(1,2) [OF assms], of _ tids nows "[]"]
  by (simp add: allocation_def Let_def)

text \<open>
C7: Every trade is between the incoming order and an order that rests on the opposite side of its
book, of another user, at the price of the resting order; the quantity is positive and at most
what either has left; a limit order never trades beyond its limit; and buyer and seller are the
users of the BUY and the SELL order.
\<close>

theorem matched_trades_sound:
  assumes ok: "engine_ok e" and inc: "incoming_ok e i t market book"
    and tr: "tr \<in> set (fst (matchOrder_locked tids nows i e))"
  shows "\<exists>m. orders e (Trd_MatchOrderID tr) = Some m \<and>
    Trd_MatchOrderID tr \<in> set (opposite (Ord_Side t) book) \<and> Trd_OrderID tr = i \<and>
    Trd_EventID tr = Ord_EventID t \<and> Trd_Outcome tr = Ord_Outcome t \<and> Trd_Price tr = Ord_Price m \<and>
    0 < Trd_Quantity tr \<and> Trd_Quantity tr \<le> Ord_RemainingQuantity t \<and>
    Trd_Quantity tr \<le> Ord_RemainingQuantity m \<and> Trd_BuyerID tr \<noteq> Trd_SellerID tr \<and>
    (if Ord_Side t = SideBuy
     then Trd_BuyerID tr = Ord_UserID t \<and> Trd_SellerID tr = Ord_UserID m \<and>
       (Ord_OrderType t = OrderTypeLimit \<longrightarrow> Trd_Price tr \<le> Ord_Price t)
     else Trd_BuyerID tr = Ord_UserID m \<and> Trd_SellerID tr = Ord_UserID t \<and>
       (Ord_OrderType t = OrderTypeLimit \<longrightarrow> Ord_Price t \<le> Trd_Price tr))"
proof -
  obtain r q k where rq: "(r, q) \<in> set (allocation (orders e) book t)"
    and b: "tr = buildTrade (tids k) (nows k) t (deref (orders e) r) q"
    using tr unfolding match_trades [OF ok inc] by (rule trade_of_fill)
  from rq show ?thesis
  proof (rule allocation_maker [OF ok inc])
    fix m assume "orders e r = Some m" "order_ok r m" "0 < q" "q \<le> Ord_RemainingQuantity m"
      "q \<le> Ord_RemainingQuantity t" "canMatch t m" "Ord_UserID m \<noteq> Ord_UserID t"
      "r \<in> set (opposite (Ord_Side t) book)"
    with incoming_order [OF ok inc] show ?thesis
      by (auto simp: b buildTrade_def order_ok_def canMatch_def split: if_splits)
  qed
qed

text \<open>
C5: Price-time priority: when the incoming order trades with a resting order, every eligible order
in front of it in the book, that is of a better price or of the same price and earlier, has been
filled completely by a trade of its own.
\<close>

theorem matched_price_time_priority:
  assumes ok: "engine_ok e" and inc: "incoming_ok e i t market book"
    and tr: "tr \<in> set (fst (matchOrder_locked tids nows i e))"
    and split: "opposite (Ord_Side t) book = xs @ r # ys" and later: "Trd_MatchOrderID tr \<in> set ys"
    and el: "eligible (orders e) t r"
  shows "(\<exists>tr'\<in>set (fst (matchOrder_locked tids nows i e)). Trd_MatchOrderID tr' = r \<and>
      Trd_Quantity tr' = Ord_RemainingQuantity (deref (orders e) r)) \<and>
    (if Ord_Side t = SideBuy then Ord_Price (deref (orders e) r) \<le> Trd_Price tr
      else Trd_Price tr \<le> Ord_Price (deref (orders e) r))"
proof -
  let ?st = "orders e" and ?items = "opposite (Ord_Side t) book"
  obtain r' q k where rq: "(r', q) \<in> set (allocation ?st book t)"
    and b: "tr = buildTrade (tids k) (nows k) t (deref ?st r') q"
    using tr unfolding match_trades [OF ok inc] by (rule trade_of_fill)
  have ids: "Ord_ID (deref ?st x) = x" if "x \<in> fst ` set (allocation ?st book t)" for x
    using allocation_keys(3) [OF ok inc] that by blast
  have r': "r' \<in> set ys" using later b ids rq by (force simp: buildTrade_def)
  have d: "distinct ?items" using book_side_ok(1) [OF ok inc] by (simp add: side_ok_def)
  have cs: "candidates ?st t ?items = candidates ?st t xs @
      (r, Ord_RemainingQuantity (deref ?st r)) # candidates ?st t ys"
    using el unfolding split by (simp add: candidates_def)
  have "eligible ?st t r'" using fill_of_candidate(2) rq unfolding allocation_def by blast
  then have "r' \<in> fst ` set (candidates ?st t ys)" using r' by (force simp: candidates_def)
  from fills_priority [OF candidates_distinct [OF d] cs _ this candidates_pos] rq
  have "(r, Ord_RemainingQuantity (deref ?st r)) \<in> set (allocation ?st book t)"
    by (simp add: allocation_def)
  then obtain n where "buildTrade (tids n) (nows n) t (deref ?st r) (Ord_RemainingQuantity (deref ?st r))
      \<in> set (matched_trades tids nows ?st book t)" and "Ord_ID (deref ?st r) = r"
    using fill_has_trade [of r "Ord_RemainingQuantity (deref ?st r)"] ids [of r]
    unfolding matched_trades_def by force
  then have g1: "\<exists>tr'\<in>set (fst (matchOrder_locked tids nows i e)). Trd_MatchOrderID tr' = r \<and>
      Trd_Quantity tr' = Ord_RemainingQuantity (deref ?st r)"
    unfolding match_trades [OF ok inc] by (intro bexI) (simp_all add: buildTrade_def)
  have "book_ok ?st (Ord_EventID t) (Ord_Outcome t) book" using book_side_ok(4) [OF ok inc] .
  then have "Ord_Side t = SideBuy \<Longrightarrow> sorted_wrt (\<lambda>i j. Ord_Price (deref ?st i) \<le> Ord_Price (deref ?st j)) (xs @ r # ys)"
    "Ord_Side t \<noteq> SideBuy \<Longrightarrow> sorted_wrt (\<lambda>i j. Ord_Price (deref ?st i) \<ge> Ord_Price (deref ?st j)) (xs @ r # ys)"
    using split by (simp_all add: book_ok_def opposite_def)
  moreover have "Trd_Price tr = Ord_Price (deref ?st r')" by (simp add: b buildTrade_def)
  ultimately have g2: "if Ord_Side t = SideBuy then Ord_Price (deref ?st r) \<le> Trd_Price tr
      else Trd_Price tr \<le> Ord_Price (deref ?st r)"
    using r' by (simp add: sorted_wrt_append)
  from g1 g2 show ?thesis by blast
qed

lemma trades_of_sum: "(\<Sum>tr\<leftarrow>trades_of tids nows n st t F. Trd_Quantity tr) = fill_total F"
  by (induction F arbitrary: n) (auto simp: buildTrade_def)

lemma trades_of_sum_maker:
  assumes "distinct (map fst F)" and "\<forall>r\<in>fst ` set F. Ord_ID (deref st r) = r"
  shows "(\<Sum>tr\<leftarrow>trades_of tids nows n st t F. if Trd_MatchOrderID tr = j then Trd_Quantity tr else 0)
    = (case map_of F j of None \<Rightarrow> 0 | Some q \<Rightarrow> q)"
  using assms
proof (induction F arbitrary: n)
  case (Cons f F)
  obtain r q where f: "f = (r, q)" by (cases f)
  have "r = j \<Longrightarrow> map_of F j = None" using Cons.prems(1) f by (auto simp: map_of_eq_None_iff)
  with Cons f show ?case by (auto simp: buildTrade_def)
qed simp

lemma match_taker_quantities:
  fixes tids :: "nat \<Rightarrow> string" and nows :: "nat \<Rightarrow> int" and e :: Engine
  assumes ok: "engine_ok e" and inc: "incoming_ok e i t market book" and aff: "affordable (orders e) book t"
  defines "trades \<equiv> fst (matchOrder_locked tids nows i e)"
    and "o' \<equiv> deref (orders (snd (matchOrder_locked tids nows i e)))"
  shows "Ord_FilledQuantity (o' i) = Ord_FilledQuantity t + (\<Sum>tr\<leftarrow>trades. Trd_Quantity tr)"
    and "Ord_RemainingQuantity (o' i) = Ord_RemainingQuantity t - (\<Sum>tr\<leftarrow>trades. Trd_Quantity tr)"
  using match_order_fields(1,2) [OF ok inc aff, of tids nows i, folded o'_def]
  by (simp_all add: trades_def match_trades [OF ok inc] matched_trades_def trades_of_sum deref_def
      matched_lookup Let_def)

text \<open>
C9: The quantities of the trades are exactly what is booked on the orders: the incoming order is
filled by their sum, and every order of the store by the sum of the trades it is the maker of;
what is filled and what remains always add up to the order's quantity.
\<close>

theorem matched_quantities:
  fixes tids :: "nat \<Rightarrow> string" and nows :: "nat \<Rightarrow> int" and e :: Engine
  assumes ok: "engine_ok e" and inc: "incoming_ok e i t market book" and aff: "affordable (orders e) book t"
  defines "trades \<equiv> fst (matchOrder_locked tids nows i e)"
    and "o' \<equiv> deref (orders (snd (matchOrder_locked tids nows i e)))"
  shows "(Ord_FilledQuantity (o' i) = Ord_FilledQuantity t + (\<Sum>tr\<leftarrow>trades. Trd_Quantity tr)) \<and>
    (Ord_RemainingQuantity (o' i) = Ord_RemainingQuantity t - (\<Sum>tr\<leftarrow>trades. Trd_Quantity tr)) \<and>
    (j \<noteq> i \<longrightarrow> Ord_FilledQuantity (o' j) = Ord_FilledQuantity (deref (orders e) j) +
      (\<Sum>tr\<leftarrow>trades. if Trd_MatchOrderID tr = j then Trd_Quantity tr else 0)) \<and>
    (j \<noteq> i \<longrightarrow> Ord_RemainingQuantity (o' j) = Ord_RemainingQuantity (deref (orders e) j) -
      (\<Sum>tr\<leftarrow>trades. if Trd_MatchOrderID tr = j then Trd_Quantity tr else 0))"
proof -
  let ?F = "allocation (orders e) book t"
  note f = match_order_fields [OF ok inc aff, of tids nows, folded o'_def]
  note k = allocation_keys [OF ok inc]
  have tr: "trades = trades_of tids nows 0 (orders e) t ?F"
    by (simp add: trades_def match_trades [OF ok inc] matched_trades_def)
  have g1: "Ord_FilledQuantity (o' i) = Ord_FilledQuantity t + (\<Sum>tr\<leftarrow>trades. Trd_Quantity tr)"
    "Ord_RemainingQuantity (o' i) = Ord_RemainingQuantity t - (\<Sum>tr\<leftarrow>trades. Trd_Quantity tr)"
    unfolding trades_def o'_def by (rule match_taker_quantities [OF ok inc aff])+
  have maker: "matched_store (orders e) book i t j = (case map_of ?F j of None \<Rightarrow> orders e j
      | Some q \<Rightarrow> map_option (maker_fill q) (orders e j))" if "j \<noteq> i"
    using that by (simp add: matched_lookup)
  have st: "\<exists>m. orders e j = Some m" if "map_of ?F j = Some q" for q
    using map_of_SomeD [OF that] by (auto elim: allocation_maker [OF ok inc])
  have g2: "Ord_FilledQuantity (o' j) = Ord_FilledQuantity (deref (orders e) j) +
      (\<Sum>tr\<leftarrow>trades. if Trd_MatchOrderID tr = j then Trd_Quantity tr else 0)" if "j \<noteq> i"
    unfolding f(2) tr trades_of_sum_maker [OF k(1,3)]
    using st maker [OF that] by (auto simp: deref_def split: option.split)
  have g3: "Ord_RemainingQuantity (o' j) = Ord_RemainingQuantity (deref (orders e) j) -
      (\<Sum>tr\<leftarrow>trades. if Trd_MatchOrderID tr = j then Trd_Quantity tr else 0)" if "j \<noteq> i"
    unfolding f(1) tr trades_of_sum_maker [OF k(1,3)]
    using st maker [OF that] by (auto simp: deref_def split: option.split)
  from g1 g2 g3 show ?thesis by blast
qed

section \<open>The order and the book afterwards\<close>

lemma matched_book_opposite:
  assumes "Ord_Side t = SideBuy \<or> Ord_Side t = SideSell"
  shows "opposite (Ord_Side t) (matched_book st book i t) =
    filter (\<lambda>r. 0 < Ord_RemainingQuantity (deref (matched_store st book i t) r)) (opposite (Ord_Side t) book)"
proof -
  have "Ord_Side (deref (matched_store st book i t) i) = Ord_Side t"
    by (simp add: deref_def matched_lookup Let_def)
  then show ?thesis
    by (simp add: matched_book_def Let_def addToBook_def opposite_def set_opposite_def)
qed

text \<open>
Matching goes on until nothing can be matched: afterwards the incoming order is used up, or no
order on the opposite side of its book is eligible for it.
\<close>

theorem match_is_exhaustive:
  fixes tids :: "nat \<Rightarrow> string" and nows :: "nat \<Rightarrow> int" and e :: Engine
  assumes ok: "engine_ok e" and inc: "incoming_ok e i t market book" and aff: "affordable (orders e) book t"
  defines "e' \<equiv> snd (matchOrder_locked tids nows i e)"
  shows "\<exists>m' book'. markets e' (Ord_EventID t) = Some m' \<and> Book m' (Ord_Outcome t) = Some book' \<and>
    (Ord_RemainingQuantity (deref (orders e') i) = 0 \<or>
     (\<forall>r\<in>set (opposite (Ord_Side t) book'). \<not> eligible (orders e') (deref (orders e') i) r))"
proof -
  let ?F = "allocation (orders e) book t" and ?st = "matched_store (orders e) book i t"
  let ?items = "opposite (Ord_Side t) book"
  note t = incoming_order [OF ok inc]
  note f = match_order_fields [OF ok inc aff, of tids nows, folded e'_def]
  have mk: "markets e' (Ord_EventID t) = Some (setBook market (Ord_Outcome t) (matched_book (orders e) book i t))"
    using match_result(1) [OF ok inc aff, of tids nows] by (simp add: e'_def matched_market_def)
  have bk: "Book (setBook market (Ord_Outcome t) (matched_book (orders e) book i t)) (Ord_Outcome t)
      = Some (matched_book (orders e) book i t)"
    using inc by (simp add: Book_setBook incoming_ok_def)
  have sti: "deref ?st i = (taker_fill (fill_total ?F) t)
      \<lparr>Ord_Status := fst (status_after (taker_fill (fill_total ?F) t))\<rparr>"
    by (simp add: deref_def matched_lookup Let_def)
  have "Ord_RemainingQuantity (deref (orders e') i) = 0" if el:
    "r \<in> set (opposite (Ord_Side t) (matched_book (orders e) book i t))"
    "eligible (orders e') (deref (orders e') i) r" for r
  proof -
    have r: "r \<in> set ?items" "0 < Ord_RemainingQuantity (deref ?st r)"
      using el(1) matched_book_opposite [OF t(5)] by auto
    have ne: "r \<noteq> i" using r(1) book_side_ok(2) [OF ok inc] by blast
    obtain m where m: "orders e r = Some m" "is_open m" "0 < Ord_RemainingQuantity m"
      using book_side_ok(3) [OF ok inc] r(1) by (auto simp: resting_def)
    have strs: "Ord_UserID (deref ?st r) = Ord_UserID m" "Ord_Price (deref ?st r) = Ord_Price m"
      "Ord_Outcome (deref ?st r) = Ord_Outcome m"
      using m(1) ne by (auto simp: deref_def matched_lookup split: option.split)
    have elig: "eligible (orders e) t r"
      using el(2) m by (auto simp: eligible_def canMatch_def f sti strs is_open_def split: if_splits)
    have "(r, Ord_RemainingQuantity (deref (orders e) r)) \<notin> set ?F"
    proof
      assume "(r, Ord_RemainingQuantity (deref (orders e) r)) \<in> set ?F"
      then have "map_of ?F r = Some (Ord_RemainingQuantity m)"
        using allocation_keys(1) [OF ok inc] m(1) by (simp add: map_of_eq_Some_iff)
      with r(2) m(1) ne show False by (simp add: deref_def matched_lookup)
    qed
    from leftover_means_done [OF elig r(1) _ this [unfolded allocation_def]] t(3)
    have "fill_total ?F = Ord_RemainingQuantity t" by (simp add: allocation_def)
    then show ?thesis by (simp add: f sti)
  qed
  with mk bk show ?thesis by blast
qed

text \<open>
The status an order gets: filled when nothing remains; a limit order with a remainder rests on
its side of the book, partially filled or still pending; the remainder of a market order is
canceled and does not rest. A filled or canceled order has its lock released.
\<close>

theorem match_final_status:
  fixes tids :: "nat \<Rightarrow> string" and nows :: "nat \<Rightarrow> int" and e :: Engine
  assumes ok: "engine_ok e" and inc: "incoming_ok e i t market book" and aff: "affordable (orders e) book t"
  defines "e' \<equiv> snd (matchOrder_locked tids nows i e)"
  defines "t' \<equiv> deref (orders e') i"
    and "side \<equiv> (\<lambda>b. if Ord_Side t = SideBuy then Bids b else Asks b)"
  shows "\<exists>m' book'. markets e' (Ord_EventID t) = Some m' \<and> Book m' (Ord_Outcome t) = Some book' \<and>
    Ord_Status t' =
      (if Ord_RemainingQuantity t' = 0 then StatusFilled
       else if Ord_OrderType t = OrderTypeMarket then StatusCanceled
       else if 0 < Ord_FilledQuantity t' then StatusPartial else StatusPending) \<and>
    (i \<in> set (side book') \<longleftrightarrow> Ord_RemainingQuantity t' \<noteq> 0 \<and> Ord_OrderType t = OrderTypeLimit) \<and>
    (i \<notin> set (side book') \<longrightarrow> Ord_LockedFunds t' = 0)"
proof -
  let ?t = "taker_fill (fill_total (allocation (orders e) book t)) t"
  let ?st = "matched_store (orders e) book i t" and ?b = "matched_book (orders e) book i t"
  note t = incoming_order [OF ok inc]
  note f = match_order_fields [OF ok inc aff, of tids nows, folded e'_def, of i, folded t'_def]
  note R = match_result [OF ok inc aff, of tids nows, folded e'_def]
  have mk: "markets e' (Ord_EventID t) = Some (setBook market (Ord_Outcome t) ?b)"
    using R(1) by (simp add: matched_market_def)
  have bk: "Book (setBook market (Ord_Outcome t) ?b) (Ord_Outcome t) = Some ?b"
    using inc by (simp add: Book_setBook incoming_ok_def)
  have sti: "deref ?st i = ?t\<lparr>Ord_Status := fst (status_after ?t)\<rparr>"
    by (simp add: deref_def matched_lookup Let_def)
  have un: "i \<notin> set (Bids book)" "i \<notin> set (Asks book)"
    using inc by (auto simp: incoming_ok_def unlisted_def)
  have rests: "i \<in> set (side ?b) \<longleftrightarrow> snd (status_after ?t)"
    using un by (auto simp: side_def matched_book_def Let_def addToBook_def set_opposite_def opposite_def sti
        bid.set_sliceStable ask.set_sliceStable)
  have ty: "Ord_OrderType t = OrderTypeLimit \<or> Ord_OrderType t = OrderTypeMarket"
    using t(7) by (auto simp: order_ok_def)
  have "0 \<le> Ord_FilledQuantity ?t"
    using quantities_ok_fill [of t, OF t(2) allocation_total [OF ok inc]] by (simp add: quantities_ok_def)
  then have status: "Ord_Status t' =
      (if Ord_RemainingQuantity t' = 0 then StatusFilled
       else if Ord_OrderType t = OrderTypeMarket then StatusCanceled
       else if 0 < Ord_FilledQuantity t' then StatusPartial else StatusPending)"
    "snd (status_after ?t) \<longleftrightarrow> Ord_RemainingQuantity t' \<noteq> 0 \<and> Ord_OrderType t = OrderTypeLimit"
    using ty by (auto simp: f sti status_after_def)
  have "\<not> snd (status_after ?t) \<Longrightarrow> Ord_LockedFunds t' = 0"
    using R(3) status_after_rests(4) [of ?t] by (simp add: t'_def sti)
  with mk bk status rests show ?thesis by blast
qed

section \<open>A concrete market\<close>

text \<open>
  Two asks of user \<open>u1\<close> rest on the book; user \<open>u2\<close> has placed a BUY for 7 shares at 50, which
  takes all of the first ask and half of the second.
\<close>

definition limitOrder :: "string \<Rightarrow> string \<Rightarrow> string \<Rightarrow> int \<Rightarrow> int \<Rightarrow> int \<Rightarrow> Order" where
  "limitOrder i u side q p locked = zeroOrder\<lparr>Ord_ID := i, Ord_EventID := ''ev'', Ord_UserID := u,
     Ord_OrderType := OrderTypeLimit, Ord_Outcome := OutcomeYes, Ord_Side := side,
     Ord_Quantity := q, Ord_RemainingQuantity := q, Ord_Price := p, Ord_Status := StatusPending,
     Ord_LockedFunds := locked\<rparr>"

definition demoBook :: OrderBook where
  "demoBook = \<lparr>Bids = [], Asks = [''a1'', ''a2'']\<rparr>"

definition demoMarket :: Market where
  "demoMarket = \<lparr>YES = demoBook, NO = \<lparr>Bids = [], Asks = []\<rparr>\<rparr>"

definition demoBid :: Order where
  "demoBid = limitOrder ''b1'' ''u2'' SideBuy 7 50 350"

definition demoOrders :: store where
  "demoOrders = Map.empty(''a1'' \<mapsto> limitOrder ''a1'' ''u1'' SideSell 5 40 5,
     ''a2'' \<mapsto> limitOrder ''a2'' ''u1'' SideSell 4 45 4, ''b1'' \<mapsto> demoBid)"

definition demoEngine :: Engine where
  "demoEngine = (the (newEngine True (Some [])))\<lparr>
     markets := Map.empty(''ev'' \<mapsto> demoMarket), orders := demoOrders,
     balances := Map.empty(''u2'' \<mapsto> \<lparr>Bal_Available = 650, Bal_Reserved = 350\<rparr>),
     positions := Map.empty(positionKey ''u1'' ''ev'' OutcomeYes \<mapsto>
       \<lparr>Pos_Available = 1, Pos_Reserved = 9\<rparr>)\<rparr>"

lemma limitOrder_fields [simp]:
  "Ord_ID (limitOrder i u s q p l) = i" "Ord_EventID (limitOrder i u s q p l) = ''ev''"
  "Ord_UserID (limitOrder i u s q p l) = u" "Ord_OrderType (limitOrder i u s q p l) = OrderTypeLimit"
  "Ord_Outcome (limitOrder i u s q p l) = OutcomeYes" "Ord_Side (limitOrder i u s q p l) = s"
  "Ord_Quantity (limitOrder i u s q p l) = q" "Ord_RemainingQuantity (limitOrder i u s q p l) = q"
  "Ord_FilledQuantity (limitOrder i u s q p l) = 0" "Ord_Price (limitOrder i u s q p l) = p"
  "Ord_Status (limitOrder i u s q p l) = StatusPending" "Ord_LockedFunds (limitOrder i u s q p l) = l"
  by (simp_all add: limitOrder_def zeroOrder_def)

lemma demo_fields [simp]:
  "orders demoEngine = demoOrders" "markets demoEngine = Map.empty(''ev'' \<mapsto> demoMarket)"
  "balances demoEngine = Map.empty(''u2'' \<mapsto> \<lparr>Bal_Available = 650, Bal_Reserved = 350\<rparr>)"
  "positions demoEngine = Map.empty(positionKey ''u1'' ''ev'' OutcomeYes \<mapsto>
     \<lparr>Pos_Available = 1, Pos_Reserved = 9\<rparr>)"
  "deref demoOrders ''a1'' = limitOrder ''a1'' ''u1'' SideSell 5 40 5"
  "deref demoOrders ''a2'' = limitOrder ''a2'' ''u1'' SideSell 4 45 4"
  "deref demoOrders ''b1'' = demoBid"
  by (simp_all add: demoEngine_def demoOrders_def deref_def)

lemma demo_ledger_ok: "ledger_ok demoEngine"
  unfolding ledger_ok_def
proof (intro conjI allI impI)
  show "finite (dom (orders demoEngine))" by (simp add: demoOrders_def)
  show "cashbook.accounts_ok (balances demoEngine)"
    by (auto simp: cashbook.accounts_ok_def cashbook.total_def sum_map_upd cashbook.holdings_def)
  show "sharebook.accounts_ok (positions demoEngine)"
    by (auto simp: sharebook.accounts_ok_def sharebook.total_def sum_map_upd sharebook.holdings_def)
  fix i ord assume "orders demoEngine i = Some ord"
  then show "0 \<le> Ord_LockedFunds ord" by (auto simp: demoOrders_def demoBid_def split: if_splits)
next
  fix u show "sum_map (lock_cash u) (orders demoEngine) \<le> Bal_Reserved (cashbook.entry (balances demoEngine) u)"
    by (simp add: demoOrders_def sum_map_upd lock_cash_def demoBid_def cashbook.entry_def)
      (simp add: zeroBalance_def)
next
  fix k show "sum_map (lock_shares k) (orders demoEngine) \<le> Pos_Reserved (sharebook.entry (positions demoEngine) k)"
    by (simp add: demoOrders_def sum_map_upd lock_shares_def demoBid_def ord_key_def sharebook.entry_def)
      (simp add: zeroPosition_def)
qed

lemma demo_engine_ok: "engine_ok demoEngine"
  unfolding engine_ok_def
proof (intro conjI)
  show "ledger_ok demoEngine" by (rule demo_ledger_ok)
  show "orders_ok demoEngine"
    by (auto simp: orders_ok_def order_ok_def quantities_ok_def covered_def demoOrders_def demoBid_def
        split: if_splits)
  show "books_ok demoEngine"
    by (auto simp: books_ok_def book_ok_def demoMarket_def demoBook_def Book_def resting_def is_open_def
        demoOrders_def split: if_splits)
qed

lemma demo_incoming: "incoming_ok demoEngine ''b1'' demoBid demoMarket demoBook"
  by (auto simp: incoming_ok_def demoOrders_def demoBid_def is_open_def unlisted_def demoMarket_def
      demoBook_def Book_def split: if_splits)

lemma demo_affordable: "affordable demoOrders demoBook demoBid"
  by (simp add: affordable_def demoBid_def)

lemma demo_allocation: "allocation demoOrders demoBook demoBid = [(''a1'', 5), (''a2'', 2)]"
  by (simp add: allocation_def candidates_def demoBook_def opposite_def demoBid_def eligible_def canMatch_def)

lemma demo_trades:
  "fst (matchOrder_locked tids nows ''b1'' demoEngine) =
     [buildTrade (tids 0) (nows 0) demoBid (deref demoOrders ''a1'') 5,
      buildTrade (tids 1) (nows 1) demoBid (deref demoOrders ''a2'') 2]"
  using match_trades [OF demo_engine_ok demo_incoming, of tids nows]
  by (simp add: matched_trades_def demo_allocation)

lemmas demo = demo_engine_ok demo_incoming

theorem matched_trades_sound_witness:
  "\<exists>tr\<in>set (fst (matchOrder_locked (\<lambda>_. ''t'') (\<lambda>_. 0) ''b1'' demoEngine)).
     Trd_MatchOrderID tr = ''a2'' \<and> Trd_Price tr = 45 \<and> Trd_Quantity tr = 2 \<and> Trd_BuyerID tr \<noteq> Trd_SellerID tr"
proof -
  let ?tr = "buildTrade ''t'' 0 demoBid (deref demoOrders ''a2'') 2"
  have m: "?tr \<in> set (fst (matchOrder_locked (\<lambda>_. ''t'') (\<lambda>_. 0) ''b1'' demoEngine))"
    by (simp add: demo_trades)
  from matched_trades_sound [OF demo this] m show ?thesis
    by (intro bexI [of _ ?tr]) (auto simp: buildTrade_def)
qed

theorem matchAgainstBook_greedy_witness:
  "allocation (orders demoEngine) demoBook demoBid = [(''a1'', 5), (''a2'', 2)]
   \<and> snd (snd (matchAgainstBook (\<lambda>_. ''t'') (\<lambda>_. 0) demoBook (orders demoEngine) ''b1'' [])) =
     trades_of (\<lambda>_. ''t'') (\<lambda>_. 0) 0 demoOrders demoBid [(''a1'', 5), (''a2'', 2)]"
  using matchAgainstBook_greedy [OF demo, of "\<lambda>_. ''t''" "\<lambda>_. 0"] demo_allocation
  by (simp add: Let_def demoEngine_def)

theorem match_bounded_rounds_witness:
  "length (fst (matchOrder_locked (\<lambda>_. ''t'') (\<lambda>_. 0) ''b1'' demoEngine)) = 2
   \<and> length (fst (matchOrder_locked (\<lambda>_. ''t'') (\<lambda>_. 0) ''b1'' demoEngine)) \<le> length (filter (eligible (orders demoEngine) demoBid) (opposite (Ord_Side demoBid) demoBook))"
  using match_bounded_rounds [OF demo, of "\<lambda>_. ''t''" "\<lambda>_. 0"] by (simp add: demo_trades)

theorem matched_price_time_priority_witness:
  "\<exists>tr'\<in>set (fst (matchOrder_locked (\<lambda>_. ''t'') (\<lambda>_. 0) ''b1'' demoEngine)).
     Trd_MatchOrderID tr' = ''a1'' \<and> Trd_Quantity tr' = 5"
proof -
  let ?tr = "buildTrade ''t'' 0 demoBid (deref demoOrders ''a2'') 2"
  have "?tr \<in> set (fst (matchOrder_locked (\<lambda>_. ''t'') (\<lambda>_. 0) ''b1'' demoEngine))" by (simp add: demo_trades)
  from matched_price_time_priority [OF demo this, of "[]" "''a1''" "[''a2'']"] show ?thesis
    by (simp add: opposite_def demoBook_def demoBid_def buildTrade_def eligible_def canMatch_def)
qed

theorem matched_quantities_witness:
  "Ord_FilledQuantity (deref (orders (snd (matchOrder_locked (\<lambda>_. ''t'') (\<lambda>_. 0) ''b1'' demoEngine))) ''b1'') = 7 \<and>
   Ord_RemainingQuantity (deref (orders (snd (matchOrder_locked (\<lambda>_. ''t'') (\<lambda>_. 0) ''b1'' demoEngine))) ''a2'') = 2"
  using matched_quantities [OF demo, where j = "''a2''" and tids = "\<lambda>_. ''t''" and nows = "\<lambda>_. 0"]
    demo_affordable
  by (simp add: demo_trades buildTrade_def demoBid_def)

theorem match_is_exhaustive_witness:
  "\<exists>m' book'. markets (snd (matchOrder_locked (\<lambda>_. ''t'') (\<lambda>_. 0) ''b1'' demoEngine)) ''ev'' = Some m' \<and>
     Book m' OutcomeYes = Some book' \<and>
     (Ord_RemainingQuantity (deref (orders (snd (matchOrder_locked (\<lambda>_. ''t'') (\<lambda>_. 0) ''b1'' demoEngine))) ''b1'') = 0 \<or>
      Asks book' = [])"
proof -
  note q = match_taker_quantities(2) [OF demo, of "\<lambda>_. ''t''" "\<lambda>_. 0"]
  show ?thesis
    using match_is_exhaustive [OF demo, of "\<lambda>_. ''t''" "\<lambda>_. 0"] q demo_affordable
    by (auto simp: demoBid_def demo_trades buildTrade_def)
qed

theorem match_final_status_witness:
  "Ord_Status (deref (orders (snd (matchOrder_locked (\<lambda>_. ''t'') (\<lambda>_. 0) ''b1'' demoEngine))) ''b1'') = StatusFilled"
proof -
  note q = match_taker_quantities(2) [OF demo, of "\<lambda>_. ''t''" "\<lambda>_. 0"]
  show ?thesis
    using match_final_status [OF demo, of "\<lambda>_. ''t''" "\<lambda>_. 0"] q demo_affordable
    by (auto simp: demo_trades buildTrade_def demoBid_def)
qed

end
