(* ===== verification/Engine_Behaviour.thy ===== *)
theory Engine_Behaviour
  imports Engine_Safety Matching_Properties
begin

text \<open>
  The behaviour of single commands: resubmission, cancellation, commands under replay; and the
  cases in which the code does not do what its comments promise, each stated as a theorem about
  the definitions.
\<close>

section \<open>Resubmission\<close>

text \<open>
Creating an order is idempotent: a valid request whose order ID is already known changes
nothing and is answered with success and the current status of that order.
\<close>

theorem create_duplicate:
  assumes "decodeRequest order_fields payload = Some req" and "Req_OrderID req \<noteq> []"
    and "validateOrder (requestOrder (Req_OrderID req) (H_now io) req) = None"
    and "orders e (Req_OrderID req) = Some ord"
  shows "handleCreateOrderCore io pid payload e =
    Some (successJSON (Some (statusReply (Ord_ID ord) (Ord_Status ord))), e)"
proof -
  have q: "\<not> Req_Quantity req \<le> 0"
    using assms(3) by (auto simp: validateOrder_None_iff requestOrder_def)
  have "admit_locked (requestOrder (Req_OrderID req) (H_now io) req) e = (Duplicate ord, e)"
    using assms(4) by (simp add: admit_locked_def requestOrder_def)
  with assms(1-3) q show ?thesis
    by (simp add: create_core_form [where ord = "requestOrder (Req_OrderID req) (H_now io) req"]
        wanted_order_def)
qed

text \<open>
Opening a market and opening an account are idempotent: a second execution of the same
command leaves the engine as the first one left it.
\<close>

theorem control_commands_idempotent:
  "(snd (handleCreateEvent p (snd (handleCreateEvent p e))) = snd (handleCreateEvent p e)) \<and>
    (snd (handleUserCreated p (snd (handleUserCreated p e))) = snd (handleUserCreated p e))"
  by (auto simp: handleCreateEvent_def handleUserCreated_def split: option.split)

section \<open>Cancellation\<close>

text \<open>A release gives the account back exactly what the order locks.\<close>

lemma release_cash_amounts:
  assumes i: "orders e i = Some ord" "Ord_Side ord = SideBuy" "0 \<le> Ord_LockedFunds ord"
    and book: "cashbook.accounts_ok (balances e)"
      "Ord_LockedFunds ord \<le> Bal_Reserved (cashbook.entry (balances e) (Ord_UserID ord))"
  defines "e' \<equiv> releaseOrderLocked i e"
  shows "Bal_Available (cashbook.entry (balances e') (Ord_UserID ord)) =
        Bal_Available (cashbook.entry (balances e) (Ord_UserID ord)) + Ord_LockedFunds ord \<and>
      Bal_Reserved (cashbook.entry (balances e') (Ord_UserID ord)) =
        Bal_Reserved (cashbook.entry (balances e) (Ord_UserID ord)) - Ord_LockedFunds ord"
proof (cases "0 < Ord_LockedFunds ord")
  case True
  with cash.thaw_exact [OF cashbook.entry_sound [OF book(1)] i(3) book(2)] show ?thesis
    by (simp add: e'_def release_buy [OF i(1,2)] cashbook.entry_upd)
next
  case False
  then have "e' = e" using i(1) unfolding e'_def by (intro release_none) simp
  with False i(3) show ?thesis by simp
qed

lemma release_share_amounts:
  assumes i: "orders e i = Some ord" "Ord_Side ord \<noteq> SideBuy" "0 \<le> Ord_LockedFunds ord"
    and book: "sharebook.accounts_ok (positions e)"
      "Ord_LockedFunds ord \<le> Pos_Reserved (sharebook.entry (positions e) (ord_key ord))"
  defines "e' \<equiv> releaseOrderLocked i e"
  shows "Pos_Available (sharebook.entry (positions e') (ord_key ord)) =
        Pos_Available (sharebook.entry (positions e) (ord_key ord)) + Ord_LockedFunds ord \<and>
      Pos_Reserved (sharebook.entry (positions e') (ord_key ord)) =
        Pos_Reserved (sharebook.entry (positions e) (ord_key ord)) - Ord_LockedFunds ord"
proof (cases "0 < Ord_LockedFunds ord")
  case True
  with share.thaw_exact [OF sharebook.entry_sound [OF book(1)] i(3) book(2)] show ?thesis
    by (simp add: e'_def release_sell [OF i(1,2)] sharebook.entry_upd)
next
  case False
  then have "e' = e" using i(1) unfolding e'_def by (intro release_none) simp
  with False i(3) show ?thesis by simp
qed

text \<open>
C10: A successful cancellation takes the order off its book, marks it canceled, and gives the user
back exactly what the order still had locked: cash for a BUY, shares for a SELL. No other order
changes, and the totals are kept.
\<close>

theorem cancel_releases:
  assumes ok: "engine_ok e" and c: "cancel_locked i ev e = Some (Inr e')" and o': "orders e i = Some ord"
  shows "(orders e' = (orders e)(i \<mapsto> ord\<lparr>Ord_Status := StatusCanceled, Ord_LockedFunds := 0\<rparr>)) \<and>
    (unlisted i e') \<and>
    (engine_ok e' \<and> total_cash e' = total_cash e \<and> total_shares e' = total_shares e) \<and>
    (Ord_Side ord = SideBuy \<longrightarrow> Bal_Available (cashbook.entry (balances e') (Ord_UserID ord)) =
        Bal_Available (cashbook.entry (balances e) (Ord_UserID ord)) + Ord_LockedFunds ord \<and>
      Bal_Reserved (cashbook.entry (balances e') (Ord_UserID ord)) =
        Bal_Reserved (cashbook.entry (balances e) (Ord_UserID ord)) - Ord_LockedFunds ord) \<and>
    (Ord_Side ord \<noteq> SideBuy \<longrightarrow> Pos_Available (sharebook.entry (positions e') (ord_key ord)) =
        Pos_Available (sharebook.entry (positions e) (ord_key ord)) + Ord_LockedFunds ord \<and>
      Pos_Reserved (sharebook.entry (positions e') (ord_key ord)) =
        Pos_Reserved (sharebook.entry (positions e) (ord_key ord)) - Ord_LockedFunds ord)"
proof -
  note C = cancel_ok [OF ok c]
  have L: "ledger_ok e" using ok by (simp add: engine_ok_def)
  let ?o = "ord\<lparr>Ord_Status := StatusCanceled\<rparr>"
  obtain mk where e': "e' = releaseOrderLocked i (e\<lparr>markets := mk, orders := (orders e)(i \<mapsto> ?o)\<rparr>)"
    (is "_ = releaseOrderLocked i ?e1")
    by (rule cancel_form [OF ok c]) (use o' that in auto)
  have st: "orders ?e1 i = Some ?o" and key: "ord_key ?o = ord_key ord" by (simp_all add: ord_key_def)
  note cash = release_cash_amounts [OF st, folded e'] and shares = release_share_amounts [OF st, folded e']
  show ?thesis
    using C o' cash shares key locked_cash_reserved(1) [OF L o'] locked_shares_reserved(1) [OF L o']
      ledger_okD(2-4) [OF L] by auto
qed

text \<open>
An order can be canceled at most once, and not after it was filled or rejected: such a request
is refused and changes nothing, so a redelivered or replayed cancellation is harmless.
\<close>

theorem cancel_only_once:
  assumes "orders e i = Some ord"
    and "Ord_Status ord = StatusFilled \<or> Ord_Status ord = StatusCanceled \<or> Ord_Status ord = StatusRejected"
  shows "(\<exists>msg. cancel_locked i ev e = Some (Inl msg)) \<and>
    (decodeRequest [''orderId'', ''eventId''] payload = Some req \<longrightarrow> Req_OrderID req = i \<longrightarrow>
      (\<exists>msg. handleCancelOrderP io pid payload e = Some (failure msg, e)))"
proof -
  have c: "\<exists>msg. cancel_locked i ev e = Some (Inl msg)" for ev
    using assms by (auto simp: cancel_locked_def)
  have g2: "\<exists>msg. handleCancelOrderP io pid payload e = Some (failure msg, e)"
    if "decodeRequest [''orderId'', ''eventId''] payload = Some req" "Req_OrderID req = i"
    using c [of "Req_EventID req"] that by (auto simp: handleCancelOrderP_def)
  from c g2 show ?thesis by blast
qed

section \<open>Replay\<close>

definition same_outputs :: "Engine \<Rightarrow> Engine \<Rightarrow> bool" where
  "same_outputs e e' \<longleftrightarrow> outStream e' = outStream e \<and> wsOut e' = wsOut e \<and> journal e' = journal e \<and>
     partitionSeq e' = partitionSeq e \<and> replaying e' = replaying e"

lemma same_outputs_refl [simp]: "same_outputs e e"
  by (simp add: same_outputs_def)

lemma same_outputs_trans: "same_outputs e e1 \<Longrightarrow> same_outputs e1 e2 \<Longrightarrow> same_outputs e e2"
  by (simp add: same_outputs_def)

lemma ledger_outputs [simp]:
  "same_outputs e (settleTradeLocked t e)" "same_outputs e (releaseOrderLocked i e)"
  by (simp_all add: same_outputs_def settle_form Let_def releaseOrderLocked_def getOrCreateBalance_entry
      getOrCreatePosition_entry putBalance_def putPosition_def)

lemma settle_fold_outputs: "same_outputs e (fold settleTradeLocked ts e)"
proof (induction ts arbitrary: e)
  case (Cons t ts)
  from same_outputs_trans [OF ledger_outputs(1) Cons.IH] show ?case by simp
qed simp

lemma match_outputs: "same_outputs e (snd (matchOrder_locked tids nows i e))"
proof -
  have "same_outputs e (fold settleTradeLocked ts (e\<lparr>orders := x, markets := y\<rparr>))" for ts x y
    by (rule same_outputs_trans [OF _ settle_fold_outputs]) (simp add: same_outputs_def)
  then show ?thesis
    by (auto simp: matchOrder_locked_def Let_def case_prod_unfold split: option.split
        intro: same_outputs_trans [OF _ ledger_outputs(2)]) (simp_all add: same_outputs_def)
qed

lemma admit_outputs: "admit_locked ord e = (a, e1) \<Longrightarrow> same_outputs e e1"
  by (cases "Ord_Side ord = SideBuy")
    (auto simp: admit_locked_def reserve_buy reserve_sell same_outputs_def split: option.splits if_splits)

lemma announce_outputs:
  assumes "isReplaying pid e" and "announceOrder io pid t e = Some (resp, e')"
  shows "same_outputs e e'"
proof -
  obtain trs e1 where m: "matchOrder_locked (H_tids io) (H_nows io) (Ord_ID t) e = (trs, e1)"
    by (cases "matchOrder_locked (H_tids io) (H_nows io) (Ord_ID t) e")
  have s: "same_outputs e e1" using match_outputs [of e "H_tids io" "H_nows io" "Ord_ID t"] m by simp
  then have "isReplaying pid e1" using assms(1) by (simp add: same_outputs_def isReplaying_def)
  with m have "matchOrder io (Ord_ID t) pid e = Some (trs, e1)" by (simp add: matchOrder_def)
  with assms s show ?thesis
    by (auto simp: announceOrder_def emitEventP_replaying same_outputs_def dropOrder_def
        split: option.splits)
qed

lemma cancel_outputs: "cancel_locked i ev e = Some (Inr e1) \<Longrightarrow> same_outputs e e1"
  using same_outputs_trans [OF _ ledger_outputs(2), of e]
  by (auto simp: cancel_locked_def Let_def same_outputs_def split: option.splits if_splits)

lemma create_outputs:
  assumes rp: "isReplaying pid e" and h: "handleCreateOrderP io pid payload e = Some (resp, e')"
  shows "same_outputs e e'"
proof -
  obtain r e1 where c: "handleCreateOrderCore io pid payload e = Some (r, e1)" and s: "same_outputs e1 e'"
    using h by (auto simp: handleCreateOrderP_def same_outputs_def split: option.splits if_splits)
  have "same_outputs e e1"
  proof (cases "decodeRequest order_fields payload")
    case (Some req)
    obtain ord where w: "wanted_order io payload = Some ord" using Some by (simp add: wanted_order_def)
    obtain a e2 where ad: "admit_locked ord e = (a, e2)" by (cases "admit_locked ord e")
    note s2 = admit_outputs [OF ad]
    then have "isReplaying pid e2" using rp by (simp add: same_outputs_def isReplaying_def)
    note an = announce_outputs [OF this]
    show ?thesis
      using c create_core_form [OF Some w ad, of pid] s2 an same_outputs_trans [OF s2]
      by (auto split: if_splits option.splits admission.splits)
  qed (use c in \<open>simp add: handleCreateOrderCore_def\<close>)
  with s show ?thesis by (rule same_outputs_trans [rotated])
qed

lemma control_outputs:
  "handleCreateEvent payload e = (resp, e') \<Longrightarrow> same_outputs e e'"
  "handleUserCreated payload e = (resp, e') \<Longrightarrow> same_outputs e e'"
  by (auto simp: handleCreateEvent_def handleUserCreated_def same_outputs_def split: option.splits if_splits)

lemma handleMessage_outputs:
  assumes rp: "isReplaying pid e" and h: "handleMessage io pid ty payload e = Some (resp, e')"
  shows "same_outputs e e'"
  using handleMessage_cases [OF h]
proof (elim disjE conjE)
  assume "handleCancelOrderP io pid payload e = Some (resp, e')"
  moreover have "isReplaying pid e1" if "cancel_locked i ev e = Some (Inr e1)" for i ev e1
    using cancel_outputs [OF that] rp by (simp add: same_outputs_def isReplaying_def)
  ultimately show ?thesis
    using cancel_outputs
    by (auto simp: handleCancelOrderP_def Let_def emitEventP_replaying split: option.splits sum.splits if_splits)
qed (use create_outputs [OF rp] control_outputs in auto)

text \<open>
Replay is silent: while a partition is replaying, no command writes to the event stream, the
WebSocket channel or the journal, and no sequence number is used; only the in-memory state moves.
\<close>

theorem replay_emits_nothing:
  assumes "isReplaying pid e" and "handleMessage io pid ty payload e = Some (resp, e')"
  shows "outStream e' = outStream e \<and> wsOut e' = wsOut e \<and> journal e' = journal e \<and> partitionSeq e' = partitionSeq e"
  using handleMessage_outputs [OF assms] by (simp add: same_outputs_def)

end
