(* ===== verification/Engine_Scenarios.thy ===== *)
theory Engine_Scenarios
  imports Engine_Behaviour
begin

text \<open>
  Concrete runs of the engine: an engine with one market and one user, on which the theorems of
  \<open>Engine_Safety\<close> and \<open>Engine_Behaviour\<close> are applied.
\<close>

section \<open>A running engine\<close>

definition okHandlerIO :: HandlerIO where
  "okHandlerIO = \<lparr>H_uuid = ''o0'', H_now = 0, H_emit = okIO ''m0'', H_tids = (\<lambda>_. ''t''), H_nows = (\<lambda>_. 0),
     H_trade = (\<lambda>_. okIO ''m1''), H_levels = (\<lambda>_. []), H_orders = []\<rparr>"

definition openEngine :: Engine where
  "openEngine = freshEngine\<lparr>partitions := {0}, markets := Map.empty(''ev'' \<mapsto> NewMarket)\<rparr>"

definition userEngine :: Engine where
  "userEngine = openEngine\<lparr>balances := Map.empty(''u'' \<mapsto> zeroBalance\<lparr>Bal_Available := DefaultStartingBalance\<rparr>)\<rparr>"

definition buyPayload :: Json where
  "buyPayload = JObj [(''orderId'', JStr ''o1''), (''eventId'', JStr ''ev''), (''userId'', JStr ''u''),
     (''orderType'', JStr OrderTypeLimit), (''outcome'', JStr OutcomeYes), (''side'', JStr SideBuy),
     (''quantity'', JInt 10), (''price'', JInt 50)]"

lemmas command_apart = command_distinct [symmetric]

lemma create_event_run:
  "handleMessage okHandlerIO 0 CreateEventCommand (JObj [(''eventId'', JStr ''ev'')]) (freshEngine\<lparr>partitions := {0}\<rparr>)
    = Some (successJSON (Some (JObj [(''status'', JStr ''created'')])), openEngine)"
  by (simp add: command_apart handleMessage_def handleCreateEvent_def decodeRequest_def set_Request_field_def eq_fold_eval
      zeroRequest_def openEngine_def freshEngine_def newEngine_def)

lemma user_created_run:
  "handleMessage okHandlerIO 0 UserCreatedCommand (JObj [(''userId'', JStr ''u'')]) openEngine
    = Some (successJSON (Some (JObj [(''status'', JStr ''ok'')])), userEngine)"
  by (simp add: command_apart handleMessage_def handleUserCreated_def decodeRequest_def set_Request_field_def eq_fold_eval
      zeroRequest_def openEngine_def userEngine_def freshEngine_def newEngine_def)

lemma userEngine_reachable: "reachable userEngine"
proof -
  have "reachable freshEngine" by (rule reachable.start [of True "Some []"]) (simp add: freshEngine_def newEngine_def)
  moreover have "AddPartition 0 freshEngine = Inr (freshEngine\<lparr>partitions := {0}\<rparr>)"
    by (simp add: AddPartition_def freshEngine_def newEngine_def NewRouter_def)
  ultimately have r: "reachable (freshEngine\<lparr>partitions := {0}\<rparr>)" by (rule reachable.partition)
  have "reachable openEngine"
    by (rule reachable.command [OF r _ _ create_event_run]) (simp_all add: command_apart safe_command_def)
  then show ?thesis
    by (rule reachable.command [OF _ _ _ user_created_run])
      (simp_all add: command_apart safe_command_def openEngine_def freshEngine_def newEngine_def total_cash_def
        cashbook.total_def DefaultStartingBalance_def PriceScale_def)
qed

lemma buy_request:
  "decodeRequest order_fields buyPayload = Some \<lparr>Req_OrderID = ''o1'', Req_EventID = ''ev'', Req_UserID = ''u'',
     Req_OrderType = OrderTypeLimit, Req_Outcome = OutcomeYes, Req_Side = SideBuy, Req_Quantity = 10, Req_Price = 50\<rparr>"
  by (simp add: decodeRequest_def buyPayload_def set_Request_field_def eq_fold_eval zeroRequest_def order_fields_def
      in_i64_def)

definition buyOrder :: Order where
  "buyOrder = \<lparr>Ord_ID = ''o1'', Ord_EventID = ''ev'', Ord_UserID = ''u'', Ord_OrderType = OrderTypeLimit,
     Ord_Outcome = OutcomeYes, Ord_Side = SideBuy, Ord_Quantity = 10, Ord_FilledQuantity = 0,
     Ord_RemainingQuantity = 10, Ord_Price = 50, Ord_Status = StatusPending, Ord_LockedFunds = 0,
     Ord_CreatedAt = 0\<rparr>"

text \<open>The engine after the first critical section: 500 of the user's cash is reserved.\<close>

definition admittedEngine :: Engine where
  "admittedEngine = userEngine\<lparr>orders := Map.empty(''o1'' \<mapsto> buyOrder\<lparr>Ord_LockedFunds := 500\<rparr>),
     balances := Map.empty(''u'' \<mapsto> \<lparr>Bal_Available = 999500, Bal_Reserved = 500\<rparr>)\<rparr>"

lemma buy_valid: "validateOrder buyOrder = None"
  by (simp add: validateOrder_None_iff buyOrder_def)

lemma buy_admitted:
  "admit_locked buyOrder userEngine = (Admitted (buyOrder\<lparr>Ord_LockedFunds := 500\<rparr>), admittedEngine)"
  by (simp add: admit_locked_def reserve_buy buyOrder_def userEngine_def openEngine_def freshEngine_def newEngine_def
      admittedEngine_def cashbook.entry_def DefaultStartingBalance_def PriceScale_def bal_freeze_def i64_id)
    (simp add: zeroBalance_def)

lemma emit_all_ok:
  assumes "emits pid e" and "Em_now io = 0" and "Em_append io = IoOk" "Em_xadd io = IoOk" "Em_publish io = IoOk"
  shows "\<exists>e'. emitEventP io pid ty d b e = Some (True, e')"
proof -
  obtain x where x: "marshalEnvelope (stampEnvelope io pid ty d e) = Some x"
    by (rule marshal_at_0 [OF assms(2)])
  show ?thesis
    using assms by (simp add: emitEventP_open [OF assms(1) x] outboxAppend_def publishEnvelope_def xaddEvent_def
        publishWS_def)
qed

lemma buy_rests:
  assumes "orders e = Map.empty(''o1'' \<mapsto> buyOrder\<lparr>Ord_LockedFunds := 500\<rparr>)"
    and "markets e = Map.empty(''ev'' \<mapsto> NewMarket)"
  shows "orders (snd (matchOrder_locked tids nows ''o1'' e)) = orders e"
  using assms
  by (simp add: matchOrder_locked_def matchAgainstBook.simps deref_def buyOrder_def NewMarket_def
      Book_def removeInvalidAsks_def status_after_def modify_def addToBook_def Let_def)

lemma buy_run:
  "\<exists>resp e'. handleMessage okHandlerIO 0 CreateOrderCommand buyPayload userEngine = Some (resp, e') \<and>
     orders e' = Map.empty(''o1'' \<mapsto> buyOrder\<lparr>Ord_LockedFunds := 500\<rparr>)"
proof -
  let ?o = "buyOrder\<lparr>Ord_LockedFunds := 500\<rparr>"
  have w: "wanted_order okHandlerIO buyPayload = Some buyOrder"
    by (simp add: wanted_order_def buy_request requestOrder_def buyOrder_def okHandlerIO_def)
  have em: "emits 0 admittedEngine"
    using freshEngine_emits
    by (simp add: emits_def isReplaying_def admittedEngine_def userEngine_def openEngine_def)
  obtain d where d: "marshalOrder ?o = Some d" by (simp add: marshalOrder_def buyOrder_def marshalTime_0)
  obtain e1 where e1: "emitEventP (okIO ''m0'') 0 EventOrderCreated d False admittedEngine = Some (True, e1)"
    using emit_all_ok [OF em, of "okIO ''m0''" EventOrderCreated d False] by (auto simp: okIO_def)
  have c1: "same_core admittedEngine e1" "length (partitionSeq e1) = 1"
    using emitEventP_frame [OF e1]
    by (simp_all add: same_setup_def admittedEngine_def userEngine_def openEngine_def freshEngine_def newEngine_def)
  obtain trs e2 where m: "matchOrder okHandlerIO ''o1'' 0 e1 = Some (trs, e2)"
    using matchOrder_total [of 0 e1 okHandlerIO "''o1''"] c1 by auto
  have "orders e2 = Map.empty(''o1'' \<mapsto> ?o)"
    using matchOrder_core(1) [OF m] c1(1) buy_rests [of e1]
    by (simp add: same_core_def admittedEngine_def userEngine_def openEngine_def)
  moreover have "announceOrder okHandlerIO 0 ?o admittedEngine =
      Some (successJSON (Some (orderReply (deref (orders e2) ''o1''))),
        e2\<lparr>metrics := (metrics e2)\<lparr>OrdersProcessed := OrdersProcessed (metrics e2) + 1\<rparr>\<rparr>)"
    using d e1 m by (simp add: announceOrder_def okHandlerIO_def buyOrder_def)
  ultimately show ?thesis
    using create_core_form [OF buy_request w buy_admitted, of 0] buy_valid
    by (simp add: handleMessage_def handleCreateOrderP_def)
qed

lemma buy_safe: "safe_command okHandlerIO CreateOrderCommand buyPayload userEngine"
  by (simp add: safe_command_def safe_order_def wanted_order_def buy_request requestOrder_def bounded_cost_def
      market_covered_def)

section \<open>Witnesses\<close>


theorem handleMessage_no_panic_witness:
  "\<exists>resp e'. handleMessage okHandlerIO 0 CancelOrderCommand (JObj [(''orderId'', JStr ''a1'')]) demoEngine
     = Some (resp, e')"
  by (rule handleMessage_no_panic [OF demo_engine_ok]) (simp_all add: demoEngine_def newEngine_def)


theorem reachable_no_sells_witness:
  "\<exists>e ord. reachable e \<and> orders e ''o1'' = Some ord \<and> Ord_Side ord = SideBuy \<and> total_shares e = 0"
proof -
  obtain resp e' where h: "handleMessage okHandlerIO 0 CreateOrderCommand buyPayload userEngine = Some (resp, e')"
    and o': "orders e' = Map.empty(''o1'' \<mapsto> buyOrder\<lparr>Ord_LockedFunds := 500\<rparr>)" using buy_run by blast
  have r: "reachable e'"
    by (rule reachable.command [OF userEngine_reachable _ buy_safe h]) (simp add: userEngine_def openEngine_def)
  from reachable_no_sells [OF r] r o' show ?thesis by auto
qed

theorem create_duplicate_witness:
  "handleCreateOrderCore okHandlerIO 0 buyPayload (userEngine\<lparr>orders := Map.empty(''o1'' \<mapsto> buyOrder)\<rparr>) =
    Some (successJSON (Some (statusReply ''o1'' StatusPending)), userEngine\<lparr>orders := Map.empty(''o1'' \<mapsto> buyOrder)\<rparr>)"
proof -
  have "requestOrder ''o1'' (H_now okHandlerIO) \<lparr>Req_OrderID = ''o1'', Req_EventID = ''ev'', Req_UserID = ''u'',
     Req_OrderType = OrderTypeLimit, Req_Outcome = OutcomeYes, Req_Side = SideBuy, Req_Quantity = 10, Req_Price = 50\<rparr> = buyOrder"
    by (simp add: requestOrder_def buyOrder_def okHandlerIO_def)
  with create_duplicate [OF buy_request, of okHandlerIO "userEngine\<lparr>orders := Map.empty(''o1'' \<mapsto> buyOrder)\<rparr>" buyOrder 0]
  show ?thesis using buy_valid by (simp add: buyOrder_def)
qed

lemma demo_cancel: "\<exists>e'. cancel_locked ''b1'' ''ev'' demoEngine = Some (Inr e')"
  by (simp add: cancel_locked_def demoOrders_def demoBid_def demoMarket_def Book_def Let_def predix_const)

theorem cancel_releases_witness:
  "\<exists>e'. cancel_locked ''b1'' ''ev'' demoEngine = Some (Inr e') \<and>
     Bal_Available (cashbook.entry (balances e') ''u2'') = 1000 \<and> Bal_Reserved (cashbook.entry (balances e') ''u2'') = 0"
proof -
  obtain e' where c: "cancel_locked ''b1'' ''ev'' demoEngine = Some (Inr e')" using demo_cancel by blast
  have o': "orders demoEngine ''b1'' = Some demoBid" by (simp add: demoOrders_def)
  from cancel_releases [OF demo_engine_ok c o'] c show ?thesis
    by (simp add: demoBid_def cashbook.entry_def)
qed

theorem cancel_only_once_witness:
  "\<exists>msg. cancel_locked ''o1'' ''ev'' (userEngine\<lparr>orders := Map.empty(''o1'' \<mapsto> buyOrder\<lparr>Ord_Status := StatusFilled\<rparr>)\<rparr>)
     = Some (Inl msg)"
  by (rule cancel_only_once [where ord = "buyOrder\<lparr>Ord_Status := StatusFilled\<rparr>", THEN conjunct1]) simp_all

theorem replay_emits_nothing_witness:
  "\<exists>resp e'. handleMessage okHandlerIO 0 CancelOrderCommand (JObj [(''orderId'', JStr ''a1'')])
     (demoEngine\<lparr>replaying := Map.empty(0 \<mapsto> True)\<rparr>) = Some (resp, e') \<and> outStream e' = [] \<and> partitionSeq e' = [0]"
proof -
  let ?e = "demoEngine\<lparr>replaying := Map.empty(0 \<mapsto> True)\<rparr>"
  have ok: "engine_ok ?e"
    using demo_engine_ok same_books_ok(1) [OF config_same_books(5)] by blast
  obtain resp e' where h: "handleMessage okHandlerIO 0 CancelOrderCommand (JObj [(''orderId'', JStr ''a1'')]) ?e
      = Some (resp, e')"
    using cancel_total [OF ok, of 0 okHandlerIO "JObj [(''orderId'', JStr ''a1'')]"]
    by (auto simp: handleMessage_def command_apart demoEngine_def newEngine_def)
  have "isReplaying 0 ?e" by (simp add: isReplaying_def)
  from replay_emits_nothing [OF this h] h show ?thesis by (auto simp: demoEngine_def newEngine_def)
qed

end
