(* ===== verification/Engine_Limits.thy ===== *)
theory Engine_Limits
  imports Engine_Scenarios
begin

text \<open>
  Where the engine does less than its comments promise. Each theorem states what the code does in
  a case its checks do not cover; the safety theorems exclude two of these cases by hypothesis
  (\<open>bounded_cost\<close>, \<open>market_covered\<close>).
\<close>

section \<open>Settlement of an unfunded trade\<close>

text \<open>
Settlement does not refuse a buyer whose reserve is short: the reserve stops at zero, the
seller is paid in full, and the difference is cash that nobody had before. A market BUY gets
there, since its reservation is not compared with what it takes from the book.
\<close>

theorem settle_overdrawn_mints_cash:
  assumes acc: "cashbook.accounts_ok (balances e)" and ne: "Trd_BuyerID t \<noteq> Trd_SellerID t"
    and cost: "0 \<le> Trd_Quantity t * Trd_Price t" "total_cash e + Trd_Quantity t * Trd_Price t \<le> max_i64"
    and short: "Bal_Reserved (cashbook.entry (balances e) (Trd_BuyerID t)) < Trd_Quantity t * Trd_Price t"
  shows "total_cash (settleTradeLocked t e) = total_cash e +
    (Trd_Quantity t * Trd_Price t - Bal_Reserved (cashbook.entry (balances e) (Trd_BuyerID t)))"
proof -
  let ?c = "Trd_Quantity t * Trd_Price t"
  let ?b = "cashbook.entry (balances e) (Trd_BuyerID t)" and ?s = "cashbook.entry (balances e) (Trd_SellerID t)"
  define b1 where "b1 = (balances e)(Trd_BuyerID t \<mapsto> bal_consume ?c ?b)"
  have le: "0 \<le> total_cash e" "cashbook.holdings ?s \<le> total_cash e"
    using cashbook.entry_le_total [OF acc] cashbook.holdings_nonneg [OF acc]
    by (auto simp: total_cash_book intro: order_trans)
  have i: "i64 ?c = ?c" using cost le by (intro i64_id) (simp add: in_i64_def)
  have s: "cashbook.entry b1 (Trd_SellerID t) = ?s" using ne by (simp add: b1_def cashbook.entry_upd)
  have f: "finite (dom (balances e))" using cashbook.accounts_ok_finite [OF acc] .
  then have f1: "finite (dom b1)" by (simp add: b1_def)
  note c = cash.consume_overdrawn [OF cashbook.entry_sound [OF acc] short]
  note d = cash.credit_exact [OF cashbook.entry_sound [OF acc] cost(1), of "Trd_SellerID t"]
  have "total_cash (settleTradeLocked t e) =
      cashbook.total (b1(Trd_SellerID t \<mapsto> bal_credit ?c (cashbook.entry b1 (Trd_SellerID t))))"
    by (simp add: settle_form total_cash_book i b1_def Let_def)
  also have "\<dots> = cashbook.total b1 + ?c"
    using d le cost f1 by (subst cashbook.total_upd) (simp_all add: s cashbook.holdings_def)
  also have "cashbook.total b1 = total_cash e - Bal_Reserved ?b"
    using c le cost f unfolding b1_def
    by (subst cashbook.total_upd) (simp_all add: cashbook.holdings_def total_cash_book)
  finally show ?thesis by simp
qed

theorem settle_overdrawn_mints_cash_witness:
  "total_cash (settleTradeLocked (buildTrade ''t'' 0 (limitOrder ''m1'' ''u3'' SideBuy 5 0 0)
     (deref demoOrders ''a1'') 5) demoEngine) = total_cash demoEngine + 200"
proof -
  have "total_cash demoEngine = 1000"
    by (simp add: total_cash_def cashbook.total_def sum_map_upd cashbook.holdings_def)
  moreover have "cashbook.accounts_ok (balances demoEngine)"
    using demo_ledger_ok by (simp add: ledger_ok_def)
  ultimately show ?thesis
    by (subst settle_overdrawn_mints_cash) (simp_all add: buildTrade_def cashbook.entry_def)
qed

text \<open>
A market BUY is never refused for lack of cash: whatever the user has, nothing included, the
order is admitted and locks exactly the available balance.
\<close>

theorem market_buy_never_refused:
  assumes "Ord_Side ord = SideBuy" and "Ord_OrderType ord = OrderTypeMarket"
    and "orders e (Ord_ID ord) = None" and "markets e (Ord_EventID ord) = Some market"
  shows "\<exists>ord' e'. admit_locked ord e = (Admitted ord', e') \<and>
    Ord_LockedFunds ord' = Bal_Available (cashbook.entry (balances e) (Ord_UserID ord))"
  using assms by (simp add: admit_locked_def reserve_buy)

theorem market_buy_never_refused_witness:
  "\<exists>ord' e'. admit_locked (buyOrder\<lparr>Ord_OrderType := OrderTypeMarket, Ord_UserID := ''nobody''\<rparr>) userEngine
     = (Admitted ord', e') \<and> Ord_LockedFunds ord' = 0"
proof -
  have "balances userEngine ''nobody'' = None" by (simp add: userEngine_def)
  then show ?thesis
    using market_buy_never_refused [of "buyOrder\<lparr>Ord_OrderType := OrderTypeMarket, Ord_UserID := ''nobody''\<rparr>"
        userEngine NewMarket]
    by (simp add: buyOrder_def userEngine_def openEngine_def freshEngine_def newEngine_def cashbook.entry_def)
qed

section \<open>Overflow of the cost\<close>

text \<open>
The cost of a limit BUY is computed in 64 bits without an overflow check. An order whose cost
wraps around to zero or below passes the balance check of any user and locks that wrapped amount.
\<close>

theorem overflowed_cost_accepted:
  assumes "cashbook.accounts_ok (balances e)" and "Ord_Side ord = SideBuy"
    and "Ord_OrderType ord = OrderTypeLimit" and "i64 (Ord_RemainingQuantity ord * Ord_Price ord) \<le> 0"
  shows "\<exists>e'. reserveOrderLocked ord e =
    (None, ord\<lparr>Ord_LockedFunds := i64 (Ord_RemainingQuantity ord * Ord_Price ord)\<rparr>, e')"
  using assms cashbook.entry_nonneg [OF assms(1), of "Ord_UserID ord"] by (auto simp: reserve_buy)

theorem overflowed_cost_accepted_witness:
  "\<exists>ord e'. validateOrder ord = None \<and> Ord_RemainingQuantity ord * Ord_Price ord = 2 ^ 64 \<and>
     reserveOrderLocked ord userEngine = (None, ord\<lparr>Ord_LockedFunds := 0\<rparr>, e')"
proof -
  let ?o = "buyOrder\<lparr>Ord_Quantity := 2 ^ 62, Ord_RemainingQuantity := 2 ^ 62, Ord_Price := 4\<rparr>"
  have c: "i64 (2 ^ 62 * 4) = 0" by (simp add: i64_def)
  have "ledger_ok userEngine"
    using reachable_inv [OF userEngine_reachable] by (simp add: engine_ok_def)
  then have "cashbook.accounts_ok (balances userEngine)" by (simp add: ledger_ok_def)
  from overflowed_cost_accepted [OF this, of ?o] c
  obtain e' where "reserveOrderLocked ?o userEngine = (None, ?o\<lparr>Ord_LockedFunds := 0\<rparr>, e')"
    by (auto simp: buyOrder_def)
  moreover have "validateOrder ?o = None" by (simp add: validateOrder_None_iff buyOrder_def PriceScale_def)
  ultimately show ?thesis by (intro exI [of _ ?o] exI [of _ e']) (simp add: buyOrder_def)
qed

section \<open>A failed announcement\<close>

text \<open>
C34: When the ORDER_CREATED event of an admitted order cannot be published, the request fails and
the order is forgotten, but what was reserved for it stays reserved: no order accounts for it and
no later command gives it back.
\<close>

theorem failed_announcement_keeps_funds_frozen:
  assumes ok: "ledger_ok e" and lim: "Ord_Side ord = SideBuy" "Ord_OrderType ord = OrderTypeLimit"
    and cost: "0 \<le> Ord_RemainingQuantity ord * Ord_Price ord" "Ord_RemainingQuantity ord * Ord_Price ord \<le> max_i64"
    and ad: "admit_locked ord e = (Admitted ord', e1)" and d: "marshalOrder ord' = Some d"
    and em: "emitEventP (H_emit io) pid EventOrderCreated d False e1 = Some (False, e2)"
  shows "\<exists>resp e'. announceOrder io pid ord' e1 = Some (resp, e') \<and> \<not> Res_Success resp \<and> orders e' = orders e \<and>
    Bal_Reserved (cashbook.entry (balances e') (Ord_UserID ord)) =
      Bal_Reserved (cashbook.entry (balances e) (Ord_UserID ord)) + Ord_RemainingQuantity ord * Ord_Price ord"
proof -
  let ?c = "Ord_RemainingQuantity ord * Ord_Price ord" and ?b = "cashbook.entry (balances e) (Ord_UserID ord)"
  have fresh: "orders e (Ord_ID ord) = None"
    using ad by (auto simp: admit_locked_def split: option.splits)
  have i: "i64 ?c = ?c" using cost by (intro i64_id) (simp add: in_i64_def)
  have fit: "?c \<le> Bal_Available ?b" and o': "ord' = ord\<lparr>Ord_LockedFunds := ?c\<rparr>"
    and e1: "orders e1 = (orders e)(Ord_ID ord \<mapsto> ord')"
      "balances e1 = (balances e)(Ord_UserID ord \<mapsto> bal_freeze ?c ?b)"
    using ad fresh lim i by (auto simp: admit_locked_def reserve_buy split: option.splits if_splits)
  have "orders e2 = orders e1" "balances e2 = balances e1"
    using emit_same_core [OF em] by (simp_all add: same_core_def)
  moreover have "Bal_Reserved (bal_freeze ?c ?b) = Bal_Reserved ?b + ?c"
    using cash.freeze_exact(2) [OF cashbook.entry_sound [OF ledger_okD(2) [OF ok]] cost(1) fit] .
  ultimately show ?thesis
    using d em e1 fresh o' by (auto simp: announceOrder_def dropOrder_def failure_def cashbook.entry_upd)
qed

text \<open>With Redis down the ORDER_CREATED event of the example order is not published.\<close>

lemma buy_emit_down:
  obtains d e2 where "marshalOrder (buyOrder\<lparr>Ord_LockedFunds := 500\<rparr>) = Some d"
    "emitEventP (downIO ''m0'') 0 EventOrderCreated d False admittedEngine = Some (False, e2)"
proof -
  obtain d where d: "marshalOrder (buyOrder\<lparr>Ord_LockedFunds := 500\<rparr>) = Some d"
    by (simp add: marshalOrder_def buyOrder_def marshalTime_0)
  have em: "emits 0 admittedEngine"
    using freshEngine_emits
    by (simp add: emits_def isReplaying_def admittedEngine_def userEngine_def openEngine_def)
  obtain x where x: "marshalEnvelope (stampEnvelope (downIO ''m0'') 0 EventOrderCreated d admittedEngine) = Some x"
    by (rule marshal_at_0 [of "downIO ''m0''" 0 EventOrderCreated d admittedEngine]) auto
  obtain e2 where e2: "emitEventP (downIO ''m0'') 0 EventOrderCreated d False admittedEngine = Some (False, e2)"
    using emitEventP_open [OF em x, of False]
    by (simp add: downIO_def okIO_def outboxAppend_def publishEnvelope_def xaddEvent_def)
  from d e2 show thesis by (rule that)
qed

theorem failed_announcement_keeps_funds_frozen_witness:
  "\<exists>resp e'. announceOrder (okHandlerIO\<lparr>H_emit := downIO ''m0''\<rparr>) 0 (buyOrder\<lparr>Ord_LockedFunds := 500\<rparr>) admittedEngine
     = Some (resp, e') \<and> orders e' = Map.empty \<and> Bal_Reserved (cashbook.entry (balances e') ''u'') = 500"
proof -
  obtain d e2 where d: "marshalOrder (buyOrder\<lparr>Ord_LockedFunds := 500\<rparr>) = Some d"
    and e2: "emitEventP (downIO ''m0'') 0 EventOrderCreated d False admittedEngine = Some (False, e2)"
    by (rule buy_emit_down)
  have L: "ledger_ok userEngine"
    using reachable_inv [OF userEngine_reachable] by (simp add: engine_ok_def)
  from failed_announcement_keeps_funds_frozen [OF L _ _ _ _ buy_admitted d,
      of "okHandlerIO\<lparr>H_emit := downIO ''m0''\<rparr>" 0 e2] e2
  show ?thesis
    by (simp add: buyOrder_def userEngine_def openEngine_def freshEngine_def newEngine_def cashbook.entry_def) blast
qed

section \<open>The lock of a maker\<close>

text \<open>
The exact lock of a resting order after a match: it loses the cost of its fill at its own
price (a BUY) or the quantity (a SELL), and nothing else. Only the incoming order is released
when it is done, so a BUY that once got a better price and then is filled as a maker ends FILLED
with a part of its reservation still locked.
\<close>

theorem maker_lock_after_match:
  fixes tids :: "nat \<Rightarrow> string" and nows :: "nat \<Rightarrow> int"
  assumes ok: "engine_ok e" and inc: "incoming_ok e i t market book" and aff: "affordable (orders e) book t"
    and tr: "tr \<in> set (fst (matchOrder_locked tids nows i e))" and m: "orders e (Trd_MatchOrderID tr) = Some m"
  defines "m' \<equiv> deref (orders (snd (matchOrder_locked tids nows i e))) (Trd_MatchOrderID tr)"
  shows "(Ord_LockedFunds m' = Ord_LockedFunds m -
      (if Ord_Side m = SideBuy then Trd_Quantity tr * Ord_Price m else Trd_Quantity tr)) \<and>
    (Trd_Quantity tr = Ord_RemainingQuantity m \<longrightarrow> Ord_Status m' = StatusFilled)"
proof -
  let ?j = "Trd_MatchOrderID tr" and ?F = "allocation (orders e) book t"
  obtain r q k where rq: "(r, q) \<in> set ?F" and b: "tr = buildTrade (tids k) (nows k) t (deref (orders e) r) q"
    using tr unfolding match_trades [OF ok inc] by (rule trade_of_fill)
  note t = incoming_order [OF ok inc]
  from rq obtain m1 where m1: "orders e r = Some m1" "order_ok r m1" "canMatch t m1"
    "Ord_Side m1 = (if Ord_Side t = SideBuy then SideSell else SideBuy)"
    by (rule allocation_maker [OF ok inc]) blast
  have j: "?j = r" using m1 by (simp add: b buildTrade_def deref_def order_ok_def)
  then have mm: "m1 = m" using m m1 by simp
  have key: "map_of ?F r = Some q" using allocation_keys(1) [OF ok inc] rq by simp
  have ne: "r \<noteq> i" using allocation_keys(2) [OF ok inc] rq by force
  define e2 where "e2 = fold settleTradeLocked (matched_trades tids nows (orders e) book t)
      (e\<lparr>orders := matched_store (orders e) book i t, markets := matched_market e i t market book\<rparr>)"
  note S = matched_settled [OF ok inc aff, of tids nows "matched_market e i t market book", folded e2_def]
  have st: "matched_store (orders e) book i t r = Some (maker_fill q m)"
    using key ne m1(1) mm by (simp add: matched_lookup Let_def)
  have ow: "owed (orders e) t ?F r (maker_fill q m) = (if Ord_Side m = SideBuy then q * Ord_Price m else q)"
    using key ne t(1) m1 mm by (auto simp: owed_def deref_def split: if_splits)
  obtain t' where t': "orders e2 i = Some t'" using S(5) [of i] by (auto simp: matched_lookup Let_def)
  have "orders (snd (matchOrder_locked tids nows i e)) r = orders e2 r"
    using release_ledger_ok(4) [OF S(1) t'] ne
    by (simp add: matchOrder_form [OF ok inc] e2_def matched_market_def)
  then have m': "m' = maker_fill q m\<lparr>Ord_LockedFunds := Ord_LockedFunds m - (if Ord_Side m = SideBuy then q * Ord_Price m else q)\<rparr>"
    using S(5) [of r] st ow by (simp add: m'_def j deref_def)
  have q: "Trd_Quantity tr = q" by (simp add: b buildTrade_def)
  have g1: "Ord_LockedFunds m' = Ord_LockedFunds m -
      (if Ord_Side m = SideBuy then Trd_Quantity tr * Ord_Price m else Trd_Quantity tr)"
    by (simp add: m' q)
  have g2: "Trd_Quantity tr = Ord_RemainingQuantity m \<Longrightarrow> Ord_Status m' = StatusFilled"
    by (simp add: m' q maker_fill_def)
  from g1 g2 show ?thesis by blast
qed

text \<open>A BUY of 10 at 50 that still holds 600, and a SELL of 10 that meets it.\<close>

definition lockOrders :: store where
  "lockOrders = Map.empty(''b1'' \<mapsto> limitOrder ''b1'' ''u2'' SideBuy 10 50 600,
     ''s1'' \<mapsto> limitOrder ''s1'' ''u1'' SideSell 10 50 10)"

definition lockBook :: OrderBook where
  "lockBook = \<lparr>Bids = [''b1''], Asks = []\<rparr>"

definition lockEngine :: Engine where
  "lockEngine = (the (newEngine True (Some [])))\<lparr>
     markets := Map.empty(''ev'' \<mapsto> \<lparr>YES = lockBook, NO = \<lparr>Bids = [], Asks = []\<rparr>\<rparr>), orders := lockOrders,
     balances := Map.empty(''u2'' \<mapsto> \<lparr>Bal_Available = 0, Bal_Reserved = 600\<rparr>),
     positions := Map.empty(positionKey ''u1'' ''ev'' OutcomeYes \<mapsto> \<lparr>Pos_Available = 0, Pos_Reserved = 10\<rparr>)\<rparr>"

lemma lock_fields [simp]:
  "orders lockEngine = lockOrders"
  "markets lockEngine = Map.empty(''ev'' \<mapsto> \<lparr>YES = lockBook, NO = \<lparr>Bids = [], Asks = []\<rparr>\<rparr>)"
  "balances lockEngine = Map.empty(''u2'' \<mapsto> \<lparr>Bal_Available = 0, Bal_Reserved = 600\<rparr>)"
  "positions lockEngine = Map.empty(positionKey ''u1'' ''ev'' OutcomeYes \<mapsto>
     \<lparr>Pos_Available = 0, Pos_Reserved = 10\<rparr>)"
  "deref lockOrders ''b1'' = limitOrder ''b1'' ''u2'' SideBuy 10 50 600"
  by (simp_all add: lockEngine_def lockOrders_def deref_def)

lemma lock_ledger_ok: "ledger_ok lockEngine"
  unfolding ledger_ok_def
proof (intro conjI allI impI)
  show "finite (dom (orders lockEngine))" by (simp add: lockOrders_def)
  show "cashbook.accounts_ok (balances lockEngine)"
    by (auto simp: cashbook.accounts_ok_def cashbook.total_def sum_map_upd cashbook.holdings_def)
  show "sharebook.accounts_ok (positions lockEngine)"
    by (auto simp: sharebook.accounts_ok_def sharebook.total_def sum_map_upd sharebook.holdings_def)
  fix i ord assume "orders lockEngine i = Some ord"
  then show "0 \<le> Ord_LockedFunds ord" by (auto simp: lockOrders_def split: if_splits)
next
  fix u show "sum_map (lock_cash u) (orders lockEngine) \<le> Bal_Reserved (cashbook.entry (balances lockEngine) u)"
    by (simp add: lockOrders_def sum_map_upd lock_cash_def cashbook.entry_def)
next
  fix k show "sum_map (lock_shares k) (orders lockEngine) \<le> Pos_Reserved (sharebook.entry (positions lockEngine) k)"
    by (simp add: lockOrders_def sum_map_upd lock_shares_def ord_key_def sharebook.entry_def)
qed

lemma lock_engine_ok: "engine_ok lockEngine"
  unfolding engine_ok_def
proof (intro conjI)
  show "ledger_ok lockEngine" by (rule lock_ledger_ok)
  show "orders_ok lockEngine"
    by (auto simp: orders_ok_def order_ok_def quantities_ok_def covered_def lockOrders_def split: if_splits)
  show "books_ok lockEngine"
    by (auto simp: books_ok_def book_ok_def lockBook_def Book_def resting_def is_open_def lockOrders_def
        split: if_splits)
qed

theorem maker_lock_after_match_witness:
  "Ord_LockedFunds (deref (orders (snd (matchOrder_locked (\<lambda>_. ''t'') (\<lambda>_. 0) ''s1'' lockEngine))) ''b1'') = 100 \<and>
   Ord_Status (deref (orders (snd (matchOrder_locked (\<lambda>_. ''t'') (\<lambda>_. 0) ''s1'' lockEngine))) ''b1'') = StatusFilled"
proof -
  let ?t = "limitOrder ''s1'' ''u1'' SideSell 10 50 10" and ?m = "limitOrder ''b1'' ''u2'' SideBuy 10 50 600"
  let ?tr = "buildTrade ''t'' 0 ?t ?m 10"
  have inc: "incoming_ok lockEngine ''s1'' ?t \<lparr>YES = lockBook, NO = \<lparr>Bids = [], Asks = []\<rparr>\<rparr> lockBook"
    by (auto simp: incoming_ok_def lockOrders_def is_open_def unlisted_def lockBook_def Book_def split: if_splits)
  have "allocation lockOrders lockBook ?t = [(''b1'', 10)]"
    by (simp add: allocation_def candidates_def lockBook_def opposite_def eligible_def canMatch_def)
  then have tr: "?tr \<in> set (fst (matchOrder_locked (\<lambda>_. ''t'') (\<lambda>_. 0) ''s1'' lockEngine))"
    by (simp add: match_trades [OF lock_engine_ok inc] matched_trades_def)
  have "affordable (orders lockEngine) lockBook ?t" by (simp add: affordable_def)
  moreover have "orders lockEngine (Trd_MatchOrderID ?tr) = Some ?m" by (simp add: buildTrade_def lockOrders_def)
  ultimately show ?thesis
    using maker_lock_after_match [OF lock_engine_ok inc _ tr, of ?m] by (simp add: buildTrade_def)
qed

end
