(* ===== verification/Engine_Replay.thy ===== *)
theory Engine_Replay
  imports Engine_Limits
begin

text \<open>
  Replay rebuilds the engine: the state that matters (markets, orders, balances, positions) is a
  function of the commands alone. \<open>view\<close> keeps that state and forgets clock readings, outputs,
  counters and settings; every operation of the engine commutes with it, so a live run and a
  replay of the same commands end in states with the same view.
\<close>

section \<open>The view of a state\<close>

definition erase :: "Order \<Rightarrow> Order" where
  "erase ord = ord\<lparr>Ord_CreatedAt := 0\<rparr>"

definition erase_store :: "store \<Rightarrow> store" where
  "erase_store st = (\<lambda>i. map_option erase (st i))"

definition strip :: "Trade \<Rightarrow> Trade" where
  "strip t = t\<lparr>Trd_ID := [], Trd_CreatedAt := 0\<rparr>"

definition base :: Engine where
  "base = freshEngine\<lparr>replaying := (\<lambda>_. Some True)\<rparr>"

definition view :: "Engine \<Rightarrow> Engine" where
  "view e = base\<lparr>markets := markets e, orders := erase_store (orders e), balances := balances e,
     positions := positions e\<rparr>"

lemma view_fields [simp]:
  "markets (view e) = markets e" "orders (view e) = erase_store (orders e)" "balances (view e) = balances e"
  "positions (view e) = positions e" "isReplaying p (view e)"
  by (simp_all add: view_def base_def isReplaying_def)

lemma erase_fields [simp]:
  "Ord_ID (erase r) = Ord_ID r" "Ord_EventID (erase r) = Ord_EventID r" "Ord_UserID (erase r) = Ord_UserID r"
  "Ord_OrderType (erase r) = Ord_OrderType r" "Ord_Outcome (erase r) = Ord_Outcome r" "Ord_Side (erase r) = Ord_Side r"
  "Ord_Quantity (erase r) = Ord_Quantity r" "Ord_FilledQuantity (erase r) = Ord_FilledQuantity r"
  "Ord_RemainingQuantity (erase r) = Ord_RemainingQuantity r" "Ord_Price (erase r) = Ord_Price r"
  "Ord_Status (erase r) = Ord_Status r" "Ord_LockedFunds (erase r) = Ord_LockedFunds r"
  by (simp_all add: erase_def)

lemma erase_updates [simp]:
  "erase (r\<lparr>Ord_Status := s\<rparr>) = erase r\<lparr>Ord_Status := s\<rparr>"
  "erase (r\<lparr>Ord_LockedFunds := x\<rparr>) = erase r\<lparr>Ord_LockedFunds := x\<rparr>"
  "erase (r\<lparr>Ord_RemainingQuantity := x\<rparr>) = erase r\<lparr>Ord_RemainingQuantity := x\<rparr>"
  "erase (add_fill q r) = add_fill q (erase r)" "erase (settle_locked c q r) = settle_locked c q (erase r)"
  by (simp_all add: erase_def add_fill_def settle_locked_def Let_def)

lemma deref_erase [simp]: "deref (erase_store st) i = erase (deref st i)"
  by (simp add: deref_def erase_store_def erase_def zeroOrder_def split: option.split)

lemma erase_store_upd [simp]: "erase_store (st(i \<mapsto> r)) = (erase_store st)(i \<mapsto> erase r)"
  "erase_store (st(i := None)) = (erase_store st)(i := None)"
  by (auto simp: erase_store_def)

lemma erase_store_None [simp]: "erase_store st i = None \<longleftrightarrow> st i = None"
  by (simp add: erase_store_def)

lemma erase_store_Some: "st i = Some r \<Longrightarrow> erase_store st i = Some (erase r)"
  by (simp add: erase_store_def)

lemma erase_modify: "(\<And>r. erase (f r) = f (erase r)) \<Longrightarrow> erase_store (modify i f st) = modify i f (erase_store st)"
  by (auto simp: modify_def erase_store_def split: option.split)

lemma modify_erase:
  "modify i (add_fill q) (erase_store st) = erase_store (modify i (add_fill q) st)"
  "modify i (settle_locked c q) (erase_store st) = erase_store (modify i (settle_locked c q) st)"
  "modify i (\<lambda>r. r\<lparr>Ord_Status := s\<rparr>) (erase_store st) = erase_store (modify i (\<lambda>r. r\<lparr>Ord_Status := s\<rparr>) st)"
  "modify i (\<lambda>r. r\<lparr>Ord_LockedFunds := x\<rparr>) (erase_store st) = erase_store (modify i (\<lambda>r. r\<lparr>Ord_LockedFunds := x\<rparr>) st)"
  "modify i (\<lambda>r. r\<lparr>Ord_RemainingQuantity := x, Ord_Status := s\<rparr>) (erase_store st) =
     erase_store (modify i (\<lambda>r. r\<lparr>Ord_RemainingQuantity := x, Ord_Status := s\<rparr>) st)"
  by (rule erase_modify [symmetric], simp)+

lemma strip_fields [simp]:
  "Trd_OrderID (strip t) = Trd_OrderID t" "Trd_MatchOrderID (strip t) = Trd_MatchOrderID t"
  "Trd_EventID (strip t) = Trd_EventID t" "Trd_Outcome (strip t) = Trd_Outcome t" "Trd_BuyerID (strip t) = Trd_BuyerID t"
  "Trd_SellerID (strip t) = Trd_SellerID t" "Trd_Quantity (strip t) = Trd_Quantity t" "Trd_Price (strip t) = Trd_Price t"
  by (simp_all add: strip_def)

lemma strip_buildTrade: "buildTrade [] 0 (erase a) (erase b) q = strip (buildTrade u n a b q)"
  by (simp add: buildTrade_def strip_def)

lemma view_core: "same_core e e' \<Longrightarrow> view e' = view e"
  by (simp add: view_def same_core_def)

lemma erase_twice [simp]: "erase (erase r) = erase r"
  by (simp add: erase_def)

lemma view_view [simp]: "view (view e) = view e"
  by (simp add: view_def erase_store_def option.map_comp comp_def)

section \<open>Every operation commutes with the view\<close>

lemma settle_view: "view (settleTradeLocked t e) = settleTradeLocked (strip t) (view e)"
  by (simp add: settle_form Let_def view_def erase_modify)

lemma settle_all_view: "view (fold settleTradeLocked ts e) = fold settleTradeLocked (map strip ts) (view e)"
  by (induction ts arbitrary: e) (simp_all add: settle_view)

lemma release_view: "view (releaseOrderLocked i e) = releaseOrderLocked i (view e)"
  by (simp add: releaseOrderLocked_def Let_def getOrCreateBalance_entry getOrCreatePosition_entry
      putBalance_def putPosition_def view_def erase_modify)

lemma reserve_view:
  "reserveOrderLocked (erase ord) (view e) =
     (case reserveOrderLocked ord e of (r, ord', e') \<Rightarrow> (r, erase ord', view e'))"
  by (cases "Ord_Side ord = SideBuy") (simp_all add: reserve_buy reserve_sell view_def ord_key_def)

lemma removeInvalid_erase [simp]: "removeInvalid (erase_store st) items = removeInvalid st items"
  by (induction items) (simp_all add: front_dead_def)

lemma canMatch_erase [simp]: "canMatch (erase a) (erase b) = canMatch a b"
  by (simp add: canMatch_def)

lemma findCounterparty_erase [simp]: "findCounterparty (erase_store st) items (erase t) = findCounterparty st items t"
proof -
  have "findCounterparty_from (erase_store st) k items (erase t) = findCounterparty_from st k items t" for k
    by (induction items arbitrary: k) (simp_all add: Let_def)
  then show ?thesis by (simp add: findCounterparty_def)
qed

lemma executePair_erase:
  "executePair [] 0 (erase_store st) inc r items idx (map strip trades) =
     (case executePair u n st inc r items idx trades of
        (st', items', trades') \<Rightarrow> (erase_store st', items', map strip trades'))"
  by (simp add: executePair_def Let_def modify_erase strip_buildTrade [of _ _ _ u n])

lemma matchAgainstBook_erase:
  "matchAgainstBook (\<lambda>_. []) (\<lambda>_. 0) book (erase_store st) inc (map strip trades) =
     (case matchAgainstBook tids nows book st inc trades of
        (book', st', trades') \<Rightarrow> (book', erase_store st', map strip trades'))"
proof (induction "nat (Ord_RemainingQuantity (deref st inc))" arbitrary: book st trades rule: less_induct)
  case less
  let ?t = "deref st inc" and ?s = "Ord_Side (deref st inc)"
  let ?items = "removeInvalid st (opposite ?s book)"
  show ?case
  proof (cases "0 < Ord_RemainingQuantity ?t \<and> findCounterparty st ?items ?t \<noteq> None")
    case True
    then obtain idx where pos: "0 < Ord_RemainingQuantity ?t" and cp: "findCounterparty st ?items ?t = Some idx" by auto
    obtain st' items' trades' where ex: "executePair (tids (length trades)) (nows (length trades)) st inc
        (?items ! idx) ?items idx trades = (st', items', trades')"
      by (cases "executePair (tids (length trades)) (nows (length trades)) st inc (?items ! idx) ?items idx trades") auto
    note IH = less(1) [OF executePair_decreases [OF pos cp ex [symmetric]], of "set_opposite ?s items' book" trades']
    note ex0 = executePair_erase [of st inc "?items ! idx" ?items idx trades "tids (length trades)"
        "nows (length trades)", unfolded ex, simplified]
    show ?thesis
      using pos cp ex ex0 IH by (subst (1 2) matchAgainstBook_step) (simp add: Let_def)
  next
    case False
    then show ?thesis by (subst (1 2) matchAgainstBook_step) (auto simp: Let_def)
  qed
qed

lemma addToBook_erase [simp]: "addToBook (erase_store st) book i = addToBook st book i"
  by (simp add: addToBook_def bid_less_def [abs_def] ask_less_def [abs_def])

lemma status_after_erase [simp]: "status_after (erase r) = status_after r"
  by (simp add: status_after_def)

lemma view_upd:
  "view (e\<lparr>orders := x, markets := m\<rparr>) = (view e)\<lparr>orders := erase_store x, markets := m\<rparr>"
  "view (e\<lparr>orders := x\<rparr>) = (view e)\<lparr>orders := erase_store x\<rparr>"
  "view (e\<lparr>markets := m, orders := x\<rparr>) = (view e)\<lparr>markets := m, orders := erase_store x\<rparr>"
  "view (e\<lparr>markets := m\<rparr>) = (view e)\<lparr>markets := m\<rparr>"
  "view (e\<lparr>balances := b\<rparr>) = (view e)\<lparr>balances := b\<rparr>"
  by (simp_all add: view_def)

lemma match_view:
  "matchOrder_locked (\<lambda>_. []) (\<lambda>_. 0) i (view e) =
     (case matchOrder_locked tids nows i e of (trades, e') \<Rightarrow> (map strip trades, view e'))"
proof -
  have m: "matchAgainstBook (\<lambda>_. []) (\<lambda>_. 0) book (erase_store st) i [] =
     (case matchAgainstBook tids nows book st i [] of
        (book', st', trades') \<Rightarrow> (book', erase_store st', map strip trades'))" for book st
    using matchAgainstBook_erase [of book st i "[]" tids nows] by simp
  show ?thesis
    by (simp add: matchOrder_locked_def Let_def m modify_erase case_prod_unfold view_upd settle_all_view release_view
        split: option.split)
qed

fun erase_admission :: "admission \<Rightarrow> admission" where
  "erase_admission (Duplicate x) = Duplicate (erase x)"
| "erase_admission NoEvent = NoEvent"
| "erase_admission (NoFunds err) = NoFunds err"
| "erase_admission (Admitted x) = Admitted (erase x)"

lemma admit_view:
  "admit_locked (erase ord) (view e) = (case admit_locked ord e of (a, e') \<Rightarrow> (erase_admission a, view e'))"
  by (cases "orders e (Ord_ID ord)")
    (auto simp: admit_locked_def reserve_view erase_store_Some view_upd split: option.split prod.split)

lemma removeOrderFromSlice_erase [simp]:
  "removeOrderFromSlice (erase_store st) items i = removeOrderFromSlice st items i"
  by (induction items) simp_all

lemma cancel_view:
  "cancel_locked i ev (view e) = map_option (map_sum id view) (cancel_locked i ev e)"
proof (cases "orders e i")
  case (Some ord)
  then have es: "erase_store (orders e) i = Some (erase ord)" by (simp add: erase_store_def)
  show ?thesis
  proof (cases "markets e (Ord_EventID ord)")
    case m: (Some market)
    show ?thesis
      by (cases "Book market (Ord_Outcome ord)")
        (simp_all add: cancel_locked_def Some m es Let_def view_upd release_view modify_erase
          if_distrib [of "map_option (map_sum id view)"] if_distrib [of view] cong: if_cong split del: if_split)
  qed (simp add: cancel_locked_def Some es if_distrib [of "map_option (map_sum id view)"] cong: if_cong
      split del: if_split)
qed (simp add: cancel_locked_def erase_store_def)

section \<open>Commands\<close>

text \<open>The two answers that tell that an admitted order was dropped again.\<close>

definition announced :: "EngineResponse \<Rightarrow> bool" where
  "announced resp \<longleftrightarrow> Res_Error resp \<noteq> ''failed to serialize order'' \<and>
     Res_Error resp \<noteq> ''failed to stream order creation''"

definition quietIO :: "string \<Rightarrow> HandlerIO" where
  "quietIO u = \<lparr>H_uuid = u, H_now = 0, H_emit = okIO [], H_tids = (\<lambda>_. []), H_nows = (\<lambda>_. 0),
     H_trade = (\<lambda>_. okIO []), H_levels = (\<lambda>_. []), H_orders = []\<rparr>"

text \<open>The command on the view: a replay with a stopped clock.\<close>

definition pure_step :: "string \<Rightarrow> string \<Rightarrow> Json \<Rightarrow> Engine \<Rightarrow> Engine" where
  "pure_step u ty payload v =
     (case handleMessage (quietIO u) 0 ty payload v of None \<Rightarrow> v | Some (resp, e') \<Rightarrow> view e')"

lemma view_metrics [simp]: "view (e\<lparr>metrics := x\<rparr>) = view e"
  by (simp add: view_def)

lemma announce_view:
  assumes "announceOrder io pid t e = Some (resp, e')" and "announced resp"
  shows "\<exists>r e2. announceOrder (quietIO u) 0 (erase t) (view e) = Some (r, e2) \<and> view e2 = view e'"
  using assms(1)
proof (cases rule: announce_cases)
  case (dropped e1)
  have "\<not> announced resp"
    using assms(1) dropped(3)
    by (auto simp: announceOrder_def announced_def failure_def successJSON_def split: option.splits bool.splits)
  with assms(2) show ?thesis by simp
next
  case (matched e1 trades e2)
  obtain trs e3 where m: "matchOrder_locked (H_tids io) (H_nows io) (Ord_ID t) e1 = (trs, e3)"
    by (cases "matchOrder_locked (H_tids io) (H_nows io) (Ord_ID t) e1")
  have v1: "view e1 = view e" by (rule view_core [OF matched(1)])
  have "view e' = view e3"
    using view_core [OF matched(3)] view_core [OF matchOrder_core(1) [OF matched(2)]] m by simp
  moreover have "isReplaying 0 (view e3)" by simp
  moreover have "matchOrder_locked (\<lambda>_. []) (\<lambda>_. 0) (Ord_ID t) (view e) = (map strip trs, view e3)"
    using match_view [of "Ord_ID t" e1 "H_tids io" "H_nows io"] m v1 by simp
  moreover have "\<exists>d. marshalOrder (erase t) = Some d"
    by (simp add: marshalOrder_def erase_def marshalTime_0)
  ultimately show ?thesis
    by (auto simp: announceOrder_def emitEventP_replaying matchOrder_def quietIO_def)
qed

lemma create_core_view:
  assumes c: "handleCreateOrderCore io pid payload e = Some (resp, e')" and an: "announced resp"
  shows "\<exists>r e2. handleCreateOrderCore (quietIO (H_uuid io)) 0 payload (view e) = Some (r, e2) \<and> view e2 = view e'"
proof (cases "decodeRequest order_fields payload")
  case None
  with c show ?thesis by (simp add: handleCreateOrderCore_def)
next
  case (Some req)
  obtain ord where w: "wanted_order io payload = Some ord" using Some by (simp add: wanted_order_def)
  have w0: "wanted_order (quietIO (H_uuid io)) payload = Some (erase ord)"
    using w Some by (auto simp: wanted_order_def quietIO_def requestOrder_def erase_def)
  obtain a e1 where ad: "admit_locked ord e = (a, e1)" by (cases "admit_locked ord e")
  have ad0: "admit_locked (erase ord) (view e) = (erase_admission a, view e1)"
    using ad by (simp add: admit_view)
  have v: "validateOrder (erase ord) = validateOrder ord" by (simp add: validateOrder_def)
  note f = create_core_form [OF Some w ad, of pid] create_core_form [OF Some w0 ad0, of 0]
  show ?thesis
  proof (cases "\<exists>x. a = Admitted x \<and> \<not> Req_Quantity req \<le> 0 \<and> validateOrder ord = None")
    case True
    then obtain x where "announceOrder io pid x e1 = Some (resp, e')" "a = Admitted x"
      using c f(1) by auto
    with True announce_view [OF this(1) an, of "H_uuid io"] f(2) v show ?thesis by auto
  next
    case False
    with c f v show ?thesis by (cases a) (auto split: if_splits option.splits)
  qed
qed

lemma emit_view: "emitEventP io pid ty d b e = Some (ok, e') \<Longrightarrow> view e' = view e"
  using view_core [OF emit_same_core] by blast

lemma cancel_order_view:
  assumes c: "handleCancelOrderP io pid payload e = Some (resp, e')" and ty: "ty = CancelOrderCommand"
  shows "view e' = pure_step (H_uuid io) ty payload (view e)"
proof (cases "decodeRequest [''orderId'', ''eventId''] payload")
  case (Some req)
  let ?c = "cancel_locked (Req_OrderID req) (Req_EventID req) e"
  show ?thesis
  proof (cases "Req_OrderID req \<noteq> [] \<and> (\<exists>e1. ?c = Some (Inr e1))")
    case True
    then obtain e1 where e1: "?c = Some (Inr e1)" by blast
    with c True Some have "view e' = view e1"
      by (auto simp: handleCancelOrderP_def Let_def split: option.splits if_splits dest: emit_view)
    with e1 True Some ty show ?thesis
      by (simp add: pure_step_def handleMessage_def command_apart handleCancelOrderP_def cancel_view Let_def
          emitEventP_replaying)
  next
    case False
    with c Some have "e' = e" by (auto simp: handleCancelOrderP_def Let_def split: option.splits sum.splits if_splits)
    with c False Some ty show ?thesis
      by (auto simp: pure_step_def handleMessage_def command_apart handleCancelOrderP_def cancel_view Let_def
          split: option.splits sum.splits)
  qed
qed (use c ty in \<open>simp add: pure_step_def handleMessage_def command_apart handleCancelOrderP_def\<close>)

lemma handleMessage_view:
  assumes h: "handleMessage io pid ty payload e = Some (resp, e')" and an: "announced resp"
  shows "view e' = pure_step (H_uuid io) ty payload (view e)"
proof -
  consider (order) "ty = CreateOrderCommand" | (cancel) "ty = CancelOrderCommand" | (event) "ty = CreateEventCommand"
    | (user) "ty = UserCreatedCommand"
    | (other) "ty \<notin> {CreateOrderCommand, CancelOrderCommand, CreateEventCommand, UserCreatedCommand}" by blast
  then show ?thesis
  proof cases
    case ty: order
    with h have c: "handleCreateOrderP io pid payload e = Some (resp, e')" by (simp add: handleMessage_def)
    then obtain e1 where "handleCreateOrderCore io pid payload e = Some (resp, e1)" "view e1 = view e'"
      by (auto simp: handleCreateOrderP_def split: option.splits if_splits)
    with create_core_view [OF this(1) an] ty show ?thesis
      by (auto simp: pure_step_def handleMessage_def handleCreateOrderP_def)
  next
    case ty: cancel
    with h show ?thesis by (intro cancel_order_view) (simp_all add: handleMessage_def command_apart)
  next
    case event
    with h show ?thesis
      by (auto simp: pure_step_def handleMessage_def command_apart handleCreateEvent_def view_upd
          split: option.splits if_splits)
  next
    case user
    with h show ?thesis
      by (auto simp: pure_step_def handleMessage_def command_apart handleUserCreated_def view_upd
          split: option.splits if_splits)
  next
    case other
    with h show ?thesis by (auto simp: pure_step_def handleMessage_def split: if_splits)
  qed
qed

section \<open>Command streams\<close>

text \<open>The command of a stream entry, when it has a readable one.\<close>

definition entry_command :: "StreamEntry \<Rightarrow> (string \<times> Json) option" where
  "entry_command en =
     (case SE_command en of
        None \<Rightarrow> None
      | Some raw \<Rightarrow>
          (case unmarshalCommand raw of
             None \<Rightarrow> None
           | Some env \<Rightarrow> if Cmd_Type env = [] then None else Some (Cmd_Type env, Cmd_Payload env)))"

fun pure_run :: "(nat \<Rightarrow> string) \<Rightarrow> nat \<Rightarrow> StreamEntry list \<Rightarrow> Engine \<Rightarrow> Engine" where
  "pure_run us k [] v = v"
| "pure_run us k (en # ens) v = pure_run us (Suc k) ens
     (case entry_command en of None \<Rightarrow> v | Some (ty, payload) \<Rightarrow> pure_step (us k) ty payload v)"

text \<open>No order of the run was dropped because its event could not be written.\<close>

fun all_announced :: "(nat \<Rightarrow> HandlerIO) \<Rightarrow> int \<Rightarrow> nat \<Rightarrow> StreamEntry list \<Rightarrow> Engine \<Rightarrow> bool" where
  "all_announced ios pid k [] e = True"
| "all_announced ios pid k (en # ens) e =
     (case entry_command en of
        None \<Rightarrow> all_announced ios pid (Suc k) ens e
      | Some (ty, payload) \<Rightarrow>
          (case handleMessage (ios k) pid ty payload e of
             None \<Rightarrow> False
           | Some (resp, e') \<Rightarrow> announced resp \<and> all_announced ios pid (Suc k) ens e'))"

lemma processStreamEntry_command:
  assumes "processStreamEntry io pid en e = Some (reply, e')"
  shows "case entry_command en of None \<Rightarrow> e' = e
    | Some (ty, payload) \<Rightarrow> \<exists>resp. handleMessage io pid ty payload e = Some (resp, e')"
  using assms
  by (auto simp: processStreamEntry_def entry_command_def Let_def split: option.splits if_splits)

lemma live_view:
  "processEntries ios pid k ens e = Some (rs, k', e') \<Longrightarrow> all_announced ios pid k ens e \<Longrightarrow>
     view e' = pure_run (\<lambda>j. H_uuid (ios j)) k ens (view e)"
proof (induction ens arbitrary: k e rs)
  case (Cons en ens)
  obtain reply e1 rs1 where p: "processStreamEntry (ios k) pid en e = Some (reply, e1)"
    and r: "processEntries ios pid (Suc k) ens e1 = Some (rs1, k', e')"
    using Cons.prems(1) by (auto split: option.splits)
  note c = processStreamEntry_command [OF p]
  show ?case
  proof (cases "entry_command en")
    case None
    with c Cons.IH [OF r] Cons.prems(2) show ?thesis by simp
  next
    case (Some cmd)
    obtain ty payload where cmd: "cmd = (ty, payload)" by (cases cmd)
    with c Some obtain resp where h: "handleMessage (ios k) pid ty payload e = Some (resp, e1)" by auto
    with Cons.prems(2) Some cmd have a: "announced resp" "all_announced ios pid (Suc k) ens e1" by auto
    from Cons.IH [OF r a(2)] handleMessage_view [OF h a(1)] Some cmd show ?thesis by simp
  qed
qed simp

lemma replay_view:
  "replayEntries ios pid k ens e = Some e' \<Longrightarrow> all_announced ios pid k ens e \<Longrightarrow>
     view e' = pure_run (\<lambda>j. H_uuid (ios j)) k ens (view e)"
proof (induction ens arbitrary: k e)
  case (Cons en ens)
  show ?case
  proof (cases "entry_command en")
    case None
    then have "replayEntries ios pid (Suc k) ens e = Some e'"
      using Cons.prems(1) by (auto simp: entry_command_def applyCommand_def split: option.splits if_splits)
    from Cons.IH [OF this] Cons.prems(2) None show ?thesis by simp
  next
    case (Some cmd)
    obtain ty payload where cmd: "cmd = (ty, payload)" by (cases cmd)
    obtain resp e1 where h: "handleMessage (ios k) pid ty payload e = Some (resp, e1)"
      and a: "announced resp" "all_announced ios pid (Suc k) ens e1"
      using Cons.prems(2) Some cmd by (auto split: option.splits)
    have "replayEntries ios pid (Suc k) ens e1 = Some e'"
      using Cons.prems(1) Some cmd h
      by (auto simp: entry_command_def applyCommand_def split: option.splits if_splits)
    from Cons.IH [OF this a(2)] handleMessage_view [OF h a(1)] Some cmd show ?thesis by simp
  qed
qed simp

lemma view_eq:
  "view e1 = view e2 \<longleftrightarrow> markets e1 = markets e2 \<and> balances e1 = balances e2 \<and> positions e1 = positions e2 \<and>
     (\<forall>i. map_option erase (orders e1 i) = map_option erase (orders e2 i))"
  by (auto simp: view_def erase_store_def fun_eq_iff dest: arg_cong [of _ _ markets] arg_cong [of _ _ balances]
      arg_cong [of _ _ positions] arg_cong [of _ _ orders])


text \<open>
Replay does not always rebuild what the live engine had: an order whose ORDER_CREATED event
could not be published was refused and dropped when it came in, and is accepted when the same
command is replayed, because nothing is published then.
\<close>

theorem replay_resurrects_dropped_order:
  "\<exists>io resp1 e1 resp2 e2.
     handleMessage io 0 CreateOrderCommand buyPayload userEngine = Some (resp1, e1) \<and> \<not> Res_Success resp1 \<and>
     orders e1 ''o1'' = None \<and>
     handleMessage io 0 CreateOrderCommand buyPayload (userEngine\<lparr>replaying := Map.empty(0 \<mapsto> True)\<rparr>) = Some (resp2, e2) \<and>
     Res_Success resp2 \<and> orders e2 ''o1'' \<noteq> None"
proof -
  let ?io = "okHandlerIO\<lparr>H_emit := downIO ''m0''\<rparr>" and ?o = "buyOrder\<lparr>Ord_LockedFunds := 500\<rparr>"
  let ?r = "userEngine\<lparr>replaying := Map.empty(0 \<mapsto> True)\<rparr>" and ?a = "admittedEngine\<lparr>replaying := Map.empty(0 \<mapsto> True)\<rparr>"
  have w: "wanted_order ?io buyPayload = Some buyOrder"
    by (simp add: wanted_order_def buy_request requestOrder_def buyOrder_def okHandlerIO_def)
  obtain d e2 where d: "marshalOrder ?o = Some d"
    and em: "emitEventP (downIO ''m0'') 0 EventOrderCreated d False admittedEngine = Some (False, e2)"
    by (rule buy_emit_down)
  have "announceOrder ?io 0 ?o admittedEngine = Some (failure ''failed to stream order creation'', dropOrder ''o1'' e2)"
    using d em by (simp add: announceOrder_def buyOrder_def)
  with create_core_form [OF buy_request w buy_admitted, of 0] buy_valid
  obtain e1 where live: "handleMessage ?io 0 CreateOrderCommand buyPayload userEngine =
      Some (failure ''failed to stream order creation'', e1)" "orders e1 ''o1'' = None"
    by (auto simp: handleMessage_def handleCreateOrderP_def dropOrder_def failure_def)
  have ad: "admit_locked buyOrder ?r = (Admitted ?o, ?a)"
    using buy_admitted by (simp add: admit_locked_def reserve_buy buyOrder_def userEngine_def openEngine_def
        freshEngine_def newEngine_def admittedEngine_def split: if_splits)
  obtain trs e3 where m: "matchOrder_locked (H_tids ?io) (H_nows ?io) ''o1'' ?a = (trs, e3)"
    by (cases "matchOrder_locked (H_tids ?io) (H_nows ?io) ''o1'' ?a")
  have "orders e3 = orders ?a"
    using buy_rests [of ?a "H_tids ?io" "H_nows ?io"] m by (simp add: admittedEngine_def userEngine_def openEngine_def)
  moreover have "isReplaying 0 ?a" by (simp add: isReplaying_def)
  moreover have "replaying e3 = replaying ?a"
    using match_config [of ?a "H_tids ?io" "H_nows ?io" "''o1''"] m by (simp add: same_config_def)
  ultimately have "\<exists>r e4. announceOrder ?io 0 ?o ?a = Some (r, e4) \<and> Res_Success r \<and> orders e4 ''o1'' \<noteq> None"
    using d m by (simp add: announceOrder_def emitEventP_replaying matchOrder_def isReplaying_def successJSON_def
        buyOrder_def admittedEngine_def)
  then obtain r e4 where "announceOrder ?io 0 ?o ?a = Some (r, e4)" "Res_Success r" "orders e4 ''o1'' \<noteq> None" by blast
  with create_core_form [OF buy_request w ad, of 0] buy_valid
  have "\<exists>e5. handleMessage ?io 0 CreateOrderCommand buyPayload ?r = Some (r, e5) \<and> Res_Success r \<and> orders e5 ''o1'' \<noteq> None"
    by (simp add: handleMessage_def handleCreateOrderP_def)
  moreover have "\<not> Res_Success (failure m)" for m by (simp add: failure_def)
  ultimately show ?thesis using live by blast
qed

section \<open>A concrete log\<close>

definition eventEntry :: StreamEntry where
  "eventEntry = \<lparr>SE_clientId = [], SE_command = Some (JObj [(''type'', JStr CreateEventCommand),
     (''payload'', JObj [(''eventId'', JStr ''ev'')])])\<rparr>"

lemma eventEntry_decodes:
  "SE_clientId eventEntry = []"
  "\<exists>raw env. SE_command eventEntry = Some raw \<and> unmarshalCommand raw = Some env \<and> Cmd_Type env = CreateEventCommand \<and>
     Cmd_Payload env = JObj [(''eventId'', JStr ''ev'')]"
  by (simp_all add: eventEntry_def unmarshalCommand_def set_Command_field_def eq_fold_eval)

lemma eventEntry_command: "entry_command eventEntry = Some (CreateEventCommand, JObj [(''eventId'', JStr ''ev'')])"
  using eventEntry_decodes(2) by (auto simp: entry_command_def predix_const)

lemma eventEntry_handled:
  "markets e = Map.empty \<Longrightarrow> handleMessage io pid CreateEventCommand (JObj [(''eventId'', JStr ''ev'')]) e =
     Some (successJSON (Some (JObj [(''status'', JStr ''created'')])), e\<lparr>markets := Map.empty(''ev'' \<mapsto> NewMarket)\<rparr>)"
  by (simp add: command_apart handleMessage_def handleCreateEvent_def decodeRequest_def set_Request_field_def
      eq_fold_eval zeroRequest_def)


end
