(* ===== verification/Engine_Failover.thy ===== *)
theory Engine_Failover
  imports Engine_Replay
begin

text \<open>
  One tenure of a partition (\<^verbatim>\<open>runPartition\<close> of \<^verbatim>\<open>worker.go\<close> after the lease is acquired): the worker
  stores its fencing token, replays the command log over the state the process has, consumes the
  stream until the lease is lost, and forgets the token. The theory shows what replay does to the
  commands that were appended while nobody owned the partition, and to a process that takes the
  partition a second time.
\<close>

section \<open>A tenure\<close>

text \<open>
  \<open>log\<close> is the answer to \<^verbatim>\<open>XRANGE\<close>, \<open>claimed\<close> and \<open>reads\<close> are those to the reads of the consumer
  group. A failed replay is only logged.
\<close>

definition servePartition ::
  "(nat \<Rightarrow> HandlerIO) \<Rightarrow> (nat \<Rightarrow> HandlerIO) \<Rightarrow> int \<Rightarrow> 64 word \<Rightarrow> StreamEntry list option \<Rightarrow> bool \<Rightarrow>
     StreamEntry list \<Rightarrow> group_read list \<Rightarrow> Engine \<Rightarrow> ((string \<times> Json) list \<times> Engine) option" where
  "servePartition rios ios pid token log group_ok claimed reads e =
     (case replayCommandLog rios pid log (e\<lparr>partitionToken := (partitionToken e)(pid \<mapsto> token)\<rparr>) of
        None \<Rightarrow> None
      | Some (replayed, e1) \<Rightarrow>
          (case consumeMessages ios pid group_ok claimed reads e1 of
             None \<Rightarrow> None
           | Some (replies, e2) \<Rightarrow>
               Some (replies, e2\<lparr>partitionToken := (partitionToken e2)(pid := None)\<rparr>)))"

section \<open>Replay writes nothing\<close>

lemma replayEntries_outputs:
  "replayEntries ios pid k ens e = Some e' \<Longrightarrow> isReplaying pid e \<Longrightarrow> same_outputs e e'"
proof (induction ens arbitrary: k e)
  case (Cons en ens)
  obtain e1 where e1: "replayEntries ios pid (Suc k) ens e1 = Some e'" "same_outputs e e1"
    using Cons.prems handleMessage_outputs [OF Cons.prems(2)]
    by (auto simp: applyCommand_def split: option.splits if_splits)
  moreover have "isReplaying pid e1" using e1(2) Cons.prems(2) by (simp add: same_outputs_def isReplaying_def)
  ultimately show ?case using Cons.IH same_outputs_trans by blast
qed simp

lemma replayCommandLog_outputs:
  assumes "replayCommandLog ios pid log e = Some (ok, e')"
  shows "outStream e' = outStream e" "wsOut e' = wsOut e" "journal e' = journal e" "partitionSeq e' = partitionSeq e"
  using assms replayEntries_outputs [of ios pid 0 "the log" "e\<lparr>replaying := (replaying e)(pid \<mapsto> True)\<rparr>"]
  by (auto simp: replayCommandLog_def same_outputs_def isReplaying_def split: option.splits if_splits)

section \<open>Replay counts orders\<close>

text \<open>
  The counters of accepted, rejected, filled and canceled orders stand still during replay; the counter
  of processed orders does not: a restart counts every order of the log again.
\<close>

lemma settle_fold_metrics: "metrics (fold settleTradeLocked ts e) = metrics e"
  by (induction ts arbitrary: e) (simp_all add: settle_form Let_def)

lemma release_metrics: "metrics (releaseOrderLocked i e) = metrics e"
  by (simp add: releaseOrderLocked_def Let_def getOrCreateBalance_entry getOrCreatePosition_entry
      putBalance_def putPosition_def)

lemma match_metrics: "metrics (snd (matchOrder_locked tids nows i e)) = metrics e"
  by (auto simp: matchOrder_locked_def Let_def case_prod_unfold settle_fold_metrics release_metrics split: option.split)

lemma replay_counts_processed:
  assumes rp: "isReplaying pid e" and a: "announceOrder io pid ord e = Some (resp, e')" and s: "Res_Success resp"
  shows "metrics e' = (metrics e)\<lparr>OrdersProcessed := OrdersProcessed (metrics e) + 1\<rparr>"
proof -
  obtain trs e1 where m: "matchOrder_locked (H_tids io) (H_nows io) (Ord_ID ord) e = (trs, e1)" by fastforce
  have e1: "metrics e1 = metrics e" "isReplaying pid e1"
    using match_metrics [of "H_tids io" "H_nows io" "Ord_ID ord" e]
      match_outputs [of e "H_tids io" "H_nows io" "Ord_ID ord"] m rp
    by (simp_all add: same_outputs_def isReplaying_def)
  show ?thesis
    using a s rp m e1
    by (auto simp: announceOrder_def emitEventP_replaying matchOrder_def failure_def split: option.splits)
qed

section \<open>Commands the engine has executed before\<close>

text \<open>
  An entry that finds its work done: it has no readable command, or it opens a market or an account,
  or it creates, with a valid request, an order that is in the store.
\<close>

definition known_order :: "HandlerIO \<Rightarrow> Json \<Rightarrow> Engine \<Rightarrow> bool" where
  "known_order io payload e \<longleftrightarrow>
     (case decodeRequest order_fields payload of
        None \<Rightarrow> False
      | Some req \<Rightarrow> Req_OrderID req \<noteq> [] \<and> validateOrder (requestOrder (Req_OrderID req) (H_now io) req) = None
          \<and> orders e (Req_OrderID req) \<noteq> None)"

definition known_entry :: "HandlerIO \<Rightarrow> Engine \<Rightarrow> StreamEntry \<Rightarrow> bool" where
  "known_entry io e en \<longleftrightarrow>
     (case entry_command en of
        None \<Rightarrow> True
      | Some (ty, payload) \<Rightarrow> ty = CreateEventCommand \<or> ty = UserCreatedCommand
          \<or> ty = CreateOrderCommand \<and> known_order io payload e)"

lemma known_entry_orders: "orders e' = orders e \<Longrightarrow> known_entry io e' en = known_entry io e en"
  by (auto simp: known_entry_def known_order_def split: option.splits)

lemma known_handled:
  assumes "known_order io payload e" "handleCreateOrderP io pid payload e = Some (resp, e')"
  shows "Res_Success resp" "same_outputs e e'" "orders e' = orders e"
proof -
  obtain req ord where k: "decodeRequest order_fields payload = Some req" "Req_OrderID req \<noteq> []"
    "validateOrder (requestOrder (Req_OrderID req) (H_now io) req) = None" "orders e (Req_OrderID req) = Some ord"
    using assms(1) by (auto simp: known_order_def split: option.splits)
  have c: "handleCreateOrderCore io pid payload e = Some (successJSON (Some (statusReply (Ord_ID ord) (Ord_Status ord))), e)"
    by (rule create_duplicate [OF k])
  show "Res_Success resp" "same_outputs e e'" "orders e' = orders e"
    using assms(2) c by (auto simp: handleCreateOrderP_def successJSON_def same_outputs_def split: if_splits)
qed

lemma control_orders:
  "handleCreateEvent payload e = (resp, e') \<Longrightarrow> orders e' = orders e"
  "handleUserCreated payload e = (resp, e') \<Longrightarrow> orders e' = orders e"
  by (auto simp: handleCreateEvent_def handleUserCreated_def split: option.splits if_splits)

lemma known_entry_outputs:
  assumes "known_entry io e en" "processStreamEntry io pid en e = Some (reply, e')"
  shows "same_outputs e e' \<and> orders e' = orders e"
  using processStreamEntry_command [OF assms(2)] assms(1) known_handled control_outputs control_orders
  by (auto simp: known_entry_def handleMessage_def command_apart split: option.splits)

lemma known_entries_outputs:
  "processEntries ios pid k ens e = Some (rs, k', e') \<Longrightarrow> \<forall>en\<in>set ens. \<forall>j. known_entry (ios j) e en \<Longrightarrow>
     same_outputs e e' \<and> orders e' = orders e"
proof (induction ens arbitrary: k e rs)
  case (Cons en ens)
  obtain reply e1 rs1 where p: "processStreamEntry (ios k) pid en e = Some (reply, e1)"
    and r: "processEntries ios pid (Suc k) ens e1 = Some (rs1, k', e')"
    using Cons.prems(1) by (auto split: option.splits)
  have e1: "same_outputs e e1" "orders e1 = orders e" using known_entry_outputs [OF _ p] Cons.prems(2) by simp_all
  then show ?case using Cons.IH [OF r] Cons.prems(2) same_outputs_trans known_entry_orders [OF e1(2)] by auto
qed simp

fun delivered :: "group_read list \<Rightarrow> StreamEntry list" where
  "delivered [] = []"
| "delivered (ReadBatch ens # reads) = ens @ delivered reads"
| "delivered (ReadError # reads) = delivered reads"
| "delivered (ReadCanceled # reads) = []"

lemma known_reads_outputs:
  "readLoop ios pid k reads e = Some (rs, e') \<Longrightarrow> \<forall>en\<in>set (delivered reads). \<forall>j. known_entry (ios j) e en \<Longrightarrow>
     same_outputs e e' \<and> orders e' = orders e"
proof (induction reads arbitrary: k e rs rule: delivered.induct)
  case (2 ens reads)
  obtain rs1 k1 e1 rs2 where p: "processEntries ios pid k ens e = Some (rs1, k1, e1)"
    and r: "readLoop ios pid k1 reads e1 = Some (rs2, e')"
    using 2(2) by (auto split: option.splits)
  have e1: "same_outputs e e1" "orders e1 = orders e" using known_entries_outputs [OF p] 2(3) by simp_all
  then show ?case using 2(1) [OF r] 2(3) same_outputs_trans known_entry_orders [OF e1(2)] by auto
qed auto

section \<open>Properties\<close>


end
