(* ===== verification/Failover_Scenarios.thy ===== *)
theory Failover_Scenarios
  imports Engine_Failover
begin

text \<open>
  Tenures on concrete logs: a process that replays its log a second time accepts an order it had
  refused, and a backlog that was replayed is confirmed without an event.
\<close>

section \<open>Two replays of one log\<close>

text \<open>
  The engine during the replay of partition 0: one market with resting bids and one user with \<open>av\<close>
  available and \<open>rv\<close> reserved.
\<close>

definition replayEngine :: "(int \<rightharpoonup> 64 word) \<Rightarrow> store \<Rightarrow> string list \<Rightarrow> int \<Rightarrow> int \<Rightarrow> Metrics \<Rightarrow> Engine" where
  "replayEngine tk os bids av rv m = freshEngine\<lparr>orders := os,
     markets := Map.empty(''ev'' \<mapsto> setBook NewMarket OutcomeYes \<lparr>Bids = bids, Asks = []\<rparr>),
     balances := Map.empty(''u'' \<mapsto> \<lparr>Bal_Available = av, Bal_Reserved = rv\<rparr>),
     replaying := Map.empty(0 \<mapsto> True), metrics := m, partitionToken := tk\<rparr>"

definition bid :: "string \<Rightarrow> int \<Rightarrow> string \<Rightarrow> int \<Rightarrow> Order" where
  "bid i q st l = \<lparr>Ord_ID = i, Ord_EventID = ''ev'', Ord_UserID = ''u'', Ord_OrderType = OrderTypeLimit,
     Ord_Outcome = OutcomeYes, Ord_Side = SideBuy, Ord_Quantity = q, Ord_FilledQuantity = 0,
     Ord_RemainingQuantity = q, Ord_Price = 50, Ord_Status = st, Ord_LockedFunds = l,
     Ord_CreatedAt = 0\<rparr>"

definition bidPayload :: "string \<Rightarrow> int \<Rightarrow> Json" where
  "bidPayload i q = JObj [(''orderId'', JStr i), (''eventId'', JStr ''ev''), (''userId'', JStr ''u''),
     (''orderType'', JStr OrderTypeLimit), (''outcome'', JStr OutcomeYes), (''side'', JStr SideBuy),
     (''quantity'', JInt q), (''price'', JInt 50)]"

definition commandEntry :: "string \<Rightarrow> Json \<Rightarrow> StreamEntry" where
  "commandEntry ty payload = \<lparr>SE_clientId = ''c'', SE_command = Some (JObj [(''type'', JStr ty), (''payload'', payload)])\<rparr>"

lemma commandEntry_command:
  "ty \<noteq> [] \<Longrightarrow> payload \<noteq> JBad \<Longrightarrow> entry_command (commandEntry ty payload) = Some (ty, payload)"
  by (simp add: entry_command_def commandEntry_def unmarshalCommand_def set_Command_field_def eq_fold_eval)

lemma bid_request:
  assumes "in_i64 q"
  shows "decodeRequest order_fields (bidPayload i q) = Some \<lparr>Req_OrderID = i, Req_EventID = ''ev'', Req_UserID = ''u'',
     Req_OrderType = OrderTypeLimit, Req_Outcome = OutcomeYes, Req_Side = SideBuy, Req_Quantity = q, Req_Price = 50\<rparr>"
  using assms by (simp add: decodeRequest_def bidPayload_def set_Request_field_def eq_fold_eval zeroRequest_def order_fields_def
      in_i64_def)

lemma bid_wanted: "in_i64 q \<Longrightarrow> i \<noteq> [] \<Longrightarrow> wanted_order (quietIO u) (bidPayload i q) = Some (bid i q StatusPending 0)"
  by (simp add: wanted_order_def bid_request requestOrder_def bid_def quietIO_def)

lemma bid_valid: "0 < q \<Longrightarrow> validateOrder (bid i q StatusPending 0) = None"
  by (simp add: validateOrder_None_iff bid_def)

lemma replayEngine_replaying [simp]: "isReplaying 0 (replayEngine tk os bids av rv m)"
  by (simp add: isReplaying_def replayEngine_def)

lemma replayEngine_metrics [simp]:
  "(replayEngine tk os bids av rv m)\<lparr>metrics := m'\<rparr> = replayEngine tk os bids av rv m'"
  by (simp add: replayEngine_def)

lemma bid_admitted:
  assumes "os i = None" "0 < q" "q * 50 \<le> av" "av \<le> 1000000" "0 \<le> rv" "rv \<le> 1000000"
  shows "admit_locked (bid i q StatusPending 0) (replayEngine tk os bids av rv m)
    = (Admitted (bid i q StatusPending (q * 50)),
       replayEngine tk (os(i \<mapsto> bid i q StatusPending (q * 50))) bids (av - q * 50) (rv + q * 50) m)"
  using assms
  by (simp add: admit_locked_def reserve_buy bid_def replayEngine_def freshEngine_def newEngine_def
      cashbook.entry_def bal_freeze_def i64_id)

lemma bid_refused:
  assumes "os i = None" "0 < q" "av < q * 50" "q * 50 \<le> 1000000"
  shows "\<exists>err. admit_locked (bid i q StatusPending 0) (replayEngine tk os bids av rv m)
    = (NoFunds err, replayEngine tk os bids av rv m)"
  using assms
  by (simp add: admit_locked_def reserve_buy bid_def replayEngine_def freshEngine_def newEngine_def
      cashbook.entry_def i64_id)

lemma bid_rests:
  assumes "os i = Some (bid i q StatusPending l)" "0 < q"
  shows "matchOrder_locked tids nows i (replayEngine tk os [] av rv m) = ([], replayEngine tk os [i] av rv m)"
  using assms
  by (simp add: matchOrder_locked_def matchAgainstBook.simps deref_def bid_def replayEngine_def freshEngine_def
      newEngine_def NewMarket_def Book_def setBook_def removeInvalidAsks_def status_after_def modify_def addToBook_def
      Let_def map_upd_triv sliceStable_def)

lemma replay_bid:
  assumes "os i = None" "0 < q" "q * 50 \<le> av" "av \<le> 1000000" "0 \<le> rv" "rv \<le> 1000000" "i \<noteq> []"
  shows "\<exists>resp m'. handleMessage (quietIO u) 0 CreateOrderCommand (bidPayload i q) (replayEngine tk os [] av rv m)
    = Some (resp, replayEngine tk (os(i \<mapsto> bid i q StatusPending (q * 50))) [i] (av - q * 50) (rv + q * 50) m')"
proof -
  have q: "in_i64 q" using assms(2-4) by (simp add: in_i64_def)
  let ?o = "bid i q StatusPending (q * 50)"
  let ?e = "replayEngine tk (os(i \<mapsto> ?o)) [] (av - q * 50) (rv + q * 50) m"
  have ad: "admit_locked (bid i q StatusPending 0) (replayEngine tk os [] av rv m) = (Admitted ?o, ?e)"
    using bid_admitted [of os i q av rv tk "[]" m] assms by simp
  obtain d where d: "marshalOrder ?o = Some d" by (simp add: marshalOrder_def bid_def marshalTime_0)
  have "Ord_ID ?o = i" by (simp add: bid_def)
  then obtain resp m' where "announceOrder (quietIO u) 0 ?o ?e
      = Some (resp, replayEngine tk (os(i \<mapsto> ?o)) [i] (av - q * 50) (rv + q * 50) m')"
    using bid_rests [of "os(i \<mapsto> ?o)" i q] assms(2) d
    by (simp add: announceOrder_def emitEventP_replaying matchOrder_def)
  with create_core_form [OF bid_request [OF q] bid_wanted [OF q assms(7)] ad, where pid = 0] assms(2)
  show ?thesis by (auto simp: handleMessage_def handleCreateOrderP_def bid_valid)
qed

lemma replay_bid_refused:
  assumes "os i = None" "0 < q" "av < q * 50" "q * 50 \<le> 1000000" "i \<noteq> []"
  shows "\<exists>resp. handleMessage (quietIO u) 0 CreateOrderCommand (bidPayload i q) (replayEngine tk os bids av rv m)
    = Some (resp, replayEngine tk os bids av rv m)"
proof -
  have q: "in_i64 q" using assms(2-4) by (simp add: in_i64_def)
  obtain err where "admit_locked (bid i q StatusPending 0) (replayEngine tk os bids av rv m)
      = (NoFunds err, replayEngine tk os bids av rv m)" using bid_refused [of os i q av] assms by blast
  from create_core_form [OF bid_request [OF q] bid_wanted [OF q assms(5)] this, where pid = 0] assms(2)
  show ?thesis by (simp add: handleMessage_def handleCreateOrderP_def bid_valid)
qed

lemma replay_bid_known:
  assumes "os i = Some ord" "0 < q" "q \<le> 20000" "i \<noteq> []"
  shows "\<exists>resp. handleMessage (quietIO u) 0 CreateOrderCommand (bidPayload i q) (replayEngine tk os bids av rv m)
    = Some (resp, replayEngine tk os bids av rv m)"
proof -
  have q: "in_i64 q" using assms(2,3) by (simp add: in_i64_def)
  have "admit_locked (bid i q StatusPending 0) (replayEngine tk os bids av rv m) = (Duplicate ord, replayEngine tk os bids av rv m)"
    using assms(1) by (simp add: admit_locked_def bid_def replayEngine_def)
  from create_core_form [OF bid_request [OF q] bid_wanted [OF q assms(4)] this, where pid = 0] assms(2)
  show ?thesis by (simp add: handleMessage_def handleCreateOrderP_def bid_valid)
qed

definition cancelPayload :: Json where
  "cancelPayload = JObj [(''orderId'', JStr ''o0''), (''eventId'', JStr ''ev'')]"

lemma cancel_request: "decodeRequest [''orderId'', ''eventId''] cancelPayload =
    Some (zeroRequest\<lparr>Req_OrderID := ''o0'', Req_EventID := ''ev''\<rparr>)"
  by (simp add: decodeRequest_def cancelPayload_def set_Request_field_def eq_fold_eval zeroRequest_def)

lemma bid_canceled:
  assumes "0 \<le> av" "av \<le> 1000000" "0 \<le> rv" "rv \<le> 1000000"
  shows "cancel_locked ''o0'' ''ev'' (replayEngine tk (Map.empty(''o0'' \<mapsto> bid ''o0'' q StatusPending rv)) [''o0''] av rv m)
    = Some (Inr (replayEngine tk (Map.empty(''o0'' \<mapsto> bid ''o0'' q StatusCanceled 0)) [] (av + rv) 0 m))"
  using assms
  by (simp add: cancel_locked_def replayEngine_def freshEngine_def newEngine_def bid_def NewMarket_def Book_def setBook_def
      deref_def modify_def releaseOrderLocked_def getOrCreateBalance_entry putBalance_def
      cashbook.entry_def bal_thaw_def bal_credit_def bal_consume_def i64_id Let_def)

lemma replay_cancel:
  assumes "0 \<le> av" "av \<le> 1000000" "0 \<le> rv" "rv \<le> 1000000"
  shows "\<exists>resp. handleMessage (quietIO u) 0 CancelOrderCommand cancelPayload
      (replayEngine tk (Map.empty(''o0'' \<mapsto> bid ''o0'' q StatusPending rv)) [''o0''] av rv m)
    = Some (resp, replayEngine tk (Map.empty(''o0'' \<mapsto> bid ''o0'' q StatusCanceled 0)) [] (av + rv) 0 m)"
  using assms
  by (simp add: handleMessage_def command_apart handleCancelOrderP_def cancel_request bid_canceled emitEventP_replaying)

lemma replay_cancel_again:
  assumes "os ''o0'' = Some (bid ''o0'' q StatusCanceled 0)"
  shows "\<exists>resp. handleMessage (quietIO u) 0 CancelOrderCommand cancelPayload (replayEngine tk os bids av rv m)
    = Some (resp, replayEngine tk os bids av rv m)"
proof -
  have "cancel_locked ''o0'' ''ev'' (replayEngine tk os bids av rv m) = Some (Inl ErrOrderNotCancelable)"
    using assms by (simp add: cancel_locked_def replayEngine_def bid_def)
  then show ?thesis by (simp add: handleMessage_def command_apart handleCancelOrderP_def cancel_request)
qed

text \<open>The commands that open the market and the account.\<close>

definition eventPayload :: Json where
  "eventPayload = JObj [(''eventId'', JStr ''ev'')]"

definition userPayload :: Json where
  "userPayload = JObj [(''userId'', JStr ''u'')]"

lemma replay_setup:
  "\<exists>resp e1. handleMessage (quietIO a) 0 CreateEventCommand eventPayload (freshEngine\<lparr>partitionToken := tk, replaying := Map.empty(0 \<mapsto> True)\<rparr>)
      = Some (resp, e1) \<and> (\<exists>resp'. handleMessage (quietIO b) 0 UserCreatedCommand userPayload e1
      = Some (resp', replayEngine tk Map.empty [] 1000000 0 (metrics freshEngine)))"
  by (simp add: command_apart handleMessage_def handleCreateEvent_def handleUserCreated_def decodeRequest_def
      set_Request_field_def eq_fold_eval zeroRequest_def eventPayload_def userPayload_def replayEngine_def
      freshEngine_def newEngine_def NewMarket_def setBook_def zeroBalance_def DefaultStartingBalance_def PriceScale_def)

lemma replay_setup_again:
  "\<exists>resp. handleMessage (quietIO a) 0 CreateEventCommand eventPayload (replayEngine tk os bids av rv m)
    = Some (resp, replayEngine tk os bids av rv m)"
  "\<exists>resp. handleMessage (quietIO a) 0 UserCreatedCommand userPayload (replayEngine tk os bids av rv m)
    = Some (resp, replayEngine tk os bids av rv m)"
  by (simp_all add: command_apart handleMessage_def handleCreateEvent_def handleUserCreated_def decodeRequest_def
      set_Request_field_def eq_fold_eval zeroRequest_def eventPayload_def userPayload_def replayEngine_def)

lemma replayEntries_step:
  assumes "entry_command en = Some (ty, payload)" "handleMessage (ios k) pid ty payload e = Some (resp, e1)"
  shows "replayEntries ios pid k (en # ens) e = replayEntries ios pid (Suc k) ens e1"
  using assms by (auto simp: entry_command_def applyCommand_def split: option.splits if_splits)

text \<open>
  The log: a first bid takes all the cash of the user, a second is refused for want of it, and the
  first is canceled.
\<close>

definition refusalLog :: "StreamEntry list" where
  "refusalLog = [commandEntry CreateEventCommand eventPayload, commandEntry UserCreatedCommand userPayload,
     commandEntry CreateOrderCommand (bidPayload ''o0'' 20000), commandEntry CreateOrderCommand (bidPayload ''o1'' 10),
     commandEntry CancelOrderCommand cancelPayload]"

lemma refusal_commands:
  "entry_command (commandEntry CreateEventCommand eventPayload) = Some (CreateEventCommand, eventPayload)"
  "entry_command (commandEntry UserCreatedCommand userPayload) = Some (UserCreatedCommand, userPayload)"
  "entry_command (commandEntry CreateOrderCommand (bidPayload i q)) = Some (CreateOrderCommand, bidPayload i q)"
  "entry_command (commandEntry CancelOrderCommand cancelPayload) = Some (CancelOrderCommand, cancelPayload)"
  by (rule commandEntry_command; simp add: predix_const eventPayload_def userPayload_def bidPayload_def cancelPayload_def)+

abbreviation quietIOs :: "nat \<Rightarrow> HandlerIO" where
  "quietIOs \<equiv> \<lambda>k. quietIO ''id''"

lemma first_replay:
  "\<exists>m. replayEntries quietIOs 0 0 refusalLog (freshEngine\<lparr>partitionToken := tk, replaying := Map.empty(0 \<mapsto> True)\<rparr>)
     = Some (replayEngine tk (Map.empty(''o0'' \<mapsto> bid ''o0'' 20000 StatusCanceled 0)) [] 1000000 0 m)"
proof -
  obtain r1 e1 r2 m where s: "handleMessage (quietIO ''id'') 0 CreateEventCommand eventPayload
      (freshEngine\<lparr>partitionToken := tk, replaying := Map.empty(0 \<mapsto> True)\<rparr>) = Some (r1, e1)"
    "handleMessage (quietIO ''id'') 0 UserCreatedCommand userPayload e1 = Some (r2, replayEngine tk Map.empty [] 1000000 0 m)"
    using replay_setup by blast
  obtain r3 m' where b: "handleMessage (quietIO ''id'') 0 CreateOrderCommand (bidPayload ''o0'' 20000)
      (replayEngine tk Map.empty [] 1000000 0 m)
      = Some (r3, replayEngine tk (Map.empty(''o0'' \<mapsto> bid ''o0'' 20000 StatusPending 1000000)) [''o0''] 0 1000000 m')"
    using replay_bid [of Map.empty "''o0''" 20000 1000000 0 "''id''" tk m] by auto
  obtain r4 where c: "handleMessage (quietIO ''id'') 0 CreateOrderCommand (bidPayload ''o1'' 10)
      (replayEngine tk (Map.empty(''o0'' \<mapsto> bid ''o0'' 20000 StatusPending 1000000)) [''o0''] 0 1000000 m')
      = Some (r4, replayEngine tk (Map.empty(''o0'' \<mapsto> bid ''o0'' 20000 StatusPending 1000000)) [''o0''] 0 1000000 m')"
    using replay_bid_refused [of _ "''o1''" 10 0] by fastforce
  obtain r5 where d: "handleMessage (quietIO ''id'') 0 CancelOrderCommand cancelPayload
      (replayEngine tk (Map.empty(''o0'' \<mapsto> bid ''o0'' 20000 StatusPending 1000000)) [''o0''] 0 1000000 m')
      = Some (r5, replayEngine tk (Map.empty(''o0'' \<mapsto> bid ''o0'' 20000 StatusCanceled 0)) [] 1000000 0 m')"
    using replay_cancel [of 0 1000000] by fastforce
  from s b c d show ?thesis
    by (auto simp add: refusalLog_def replayEntries_step refusal_commands simp del: replayEntries.simps(2))
qed

lemma second_replay:
  "\<exists>m'. replayEntries quietIOs 0 0 refusalLog (replayEngine tk (Map.empty(''o0'' \<mapsto> bid ''o0'' 20000 StatusCanceled 0)) [] 1000000 0 m)
     = Some (replayEngine tk (Map.empty(''o0'' \<mapsto> bid ''o0'' 20000 StatusCanceled 0, ''o1'' \<mapsto> bid ''o1'' 10 StatusPending 500))
         [''o1''] 999500 500 m')"
proof -
  let ?os = "Map.empty(''o0'' \<mapsto> bid ''o0'' 20000 StatusCanceled 0)"
  let ?e = "replayEngine tk ?os [] 1000000 0 m"
  obtain r1 r2 where s: "handleMessage (quietIO ''id'') 0 CreateEventCommand eventPayload ?e = Some (r1, ?e)"
    "handleMessage (quietIO ''id'') 0 UserCreatedCommand userPayload ?e = Some (r2, ?e)"
    using replay_setup_again by blast
  obtain r3 where b: "handleMessage (quietIO ''id'') 0 CreateOrderCommand (bidPayload ''o0'' 20000) ?e = Some (r3, ?e)"
    using replay_bid_known [of ?os "''o0''" _ 20000] by fastforce
  let ?os' = "?os(''o1'' \<mapsto> bid ''o1'' 10 StatusPending 500)"
  obtain r4 m' where c: "handleMessage (quietIO ''id'') 0 CreateOrderCommand (bidPayload ''o1'' 10) ?e
      = Some (r4, replayEngine tk ?os' [''o1''] 999500 500 m')"
    using replay_bid [of ?os "''o1''" 10 1000000 0 "''id''" tk m] by auto
  obtain r5 where d: "handleMessage (quietIO ''id'') 0 CancelOrderCommand cancelPayload (replayEngine tk ?os' [''o1''] 999500 500 m')
      = Some (r5, replayEngine tk ?os' [''o1''] 999500 500 m')"
    using replay_cancel_again [of ?os' 20000] by fastforce
  from s b c d show ?thesis
    by (auto simp add: refusalLog_def replayEntries_step refusal_commands simp del: replayEntries.simps(2))
qed

lemma replayEngine_again:
  "(replayEngine tk os bids av rv m)\<lparr>partitionToken := tk', replaying := Map.empty(0 \<mapsto> True)\<rparr>
     = replayEngine tk' os bids av rv m"
  "(replayEngine tk os bids av rv m)\<lparr>replaying := rp, partitionToken := tk', replaying := Map.empty(0 \<mapsto> True)\<rparr>
     = replayEngine tk' os bids av rv m"
  by (simp_all add: replayEngine_def)

lemma replayEngine_fields [simp]:
  "redisManager (replayEngine tk os bids av rv m)" "replaying (replayEngine tk os bids av rv m) = Map.empty(0 \<mapsto> True)"
  "partitionToken (replayEngine tk os bids av rv m) = tk" "orders (replayEngine tk os bids av rv m) = os"
  "cashbook.entry (balances (replayEngine tk os bids av rv m)) ''u'' = \<lparr>Bal_Available = av, Bal_Reserved = rv\<rparr>"
  "outStream (replayEngine tk os bids av rv m) = []"
  by (simp_all add: replayEngine_def freshEngine_def newEngine_def cashbook.entry_def)

section \<open>Properties\<close>

text \<open>
C36: Replay is not idempotent. A process that loses the lease of a partition and takes it again
replays the whole log over the state it still has. Handlers skip orders they know, but an order that
was refused leaves no trace: if the user's funds have been released since, the second replay accepts
it. In the example the first tenure refuses the order, and the second, without any new command, has it
on the book with the user's cash reserved, and nobody is told.
\<close>

theorem replay_not_idempotent:
  "\<exists>log e1 e2. servePartition quietIOs quietIOs 0 1 (Some log) True [] [ReadCanceled] freshEngine = Some ([], e1)
     \<and> servePartition quietIOs quietIOs 0 2 (Some log) True [] [ReadCanceled] e1 = Some ([], e2)
     \<and> orders e1 ''o1'' = None \<and> Bal_Available (cashbook.entry (balances e1) ''u'') = 1000000
     \<and> map_option Ord_Status (orders e2 ''o1'') = Some StatusPending
     \<and> Bal_Available (cashbook.entry (balances e2) ''u'') = 999500 \<and> outStream e2 = outStream e1"
proof -
  let ?os = "Map.empty(''o0'' \<mapsto> bid ''o0'' 20000 StatusCanceled 0)"
  let ?os' = "?os(''o1'' \<mapsto> bid ''o1'' 10 StatusPending 500)"
  obtain m where r1: "replayEntries quietIOs 0 0 refusalLog
      (freshEngine\<lparr>partitionToken := Map.empty(0 \<mapsto> 1), replaying := Map.empty(0 \<mapsto> True)\<rparr>)
     = Some (replayEngine (Map.empty(0 \<mapsto> 1)) ?os [] 1000000 0 m)" using first_replay by blast
  obtain m' where r2: "replayEntries quietIOs 0 0 refusalLog (replayEngine (Map.empty(0 \<mapsto> 2)) ?os [] 1000000 0 m)
     = Some (replayEngine (Map.empty(0 \<mapsto> 2)) ?os' [''o1''] 999500 500 m')" using second_replay by blast
  have f: "partitionToken freshEngine = Map.empty" "replaying freshEngine = Map.empty" "redisManager freshEngine"
    by (simp_all add: freshEngine_def newEngine_def)
  obtain e1 where e1: "servePartition quietIOs quietIOs 0 1 (Some refusalLog) True [] [ReadCanceled] freshEngine = Some ([], e1)"
    "e1 = (replayEngine (Map.empty(0 \<mapsto> 1)) ?os [] 1000000 0 m)\<lparr>replaying := Map.empty, partitionToken := Map.empty\<rparr>"
    using r1 by (simp add: servePartition_def replayCommandLog_def consumeMessages_def f)
  moreover obtain e2 where "servePartition quietIOs quietIOs 0 2 (Some refusalLog) True [] [ReadCanceled] e1 = Some ([], e2)"
    "e2 = (replayEngine (Map.empty(0 \<mapsto> 2)) ?os' [''o1''] 999500 500 m')\<lparr>replaying := Map.empty, partitionToken := Map.empty\<rparr>"
    using r2 by (simp add: e1(2) servePartition_def replayCommandLog_def consumeMessages_def replayEngine_again)
  moreover have "orders e1 ''o1'' = None" "Bal_Available (cashbook.entry (balances e1) ''u'') = 1000000" "outStream e1 = []"
    by (simp_all add: e1(2))
  ultimately show ?thesis by (intro exI [of _ refusalLog] exI [of _ e1] exI [of _ e2]) (simp add: bid_def)
qed

section \<open>A replayed backlog\<close>

definition backlog :: "StreamEntry list" where
  "backlog = [commandEntry CreateEventCommand eventPayload, commandEntry UserCreatedCommand userPayload,
     commandEntry CreateOrderCommand (bidPayload ''o1'' 10)]"

definition afterBacklog :: "Metrics \<Rightarrow> Engine" where
  "afterBacklog m = (replayEngine (Map.empty(0 \<mapsto> 1)) (Map.empty(''o1'' \<mapsto> bid ''o1'' 10 StatusPending 500)) [''o1'']
     999500 500 m)\<lparr>replaying := Map.empty\<rparr>"

lemma backlog_replayed:
  "\<exists>m. replayCommandLog quietIOs 0 (Some backlog) (freshEngine\<lparr>partitionToken := (partitionToken freshEngine)(0 \<mapsto> 1)\<rparr>)
     = Some (True, afterBacklog m)"
proof -
  let ?tk = "Map.empty(0 \<mapsto> 1) :: int \<rightharpoonup> 64 word"
  obtain r1 e1 r2 m where s: "handleMessage (quietIO ''id'') 0 CreateEventCommand eventPayload
      (freshEngine\<lparr>partitionToken := ?tk, replaying := Map.empty(0 \<mapsto> True)\<rparr>) = Some (r1, e1)"
    "handleMessage (quietIO ''id'') 0 UserCreatedCommand userPayload e1 = Some (r2, replayEngine ?tk Map.empty [] 1000000 0 m)"
    using replay_setup by blast
  obtain r3 m' where b: "handleMessage (quietIO ''id'') 0 CreateOrderCommand (bidPayload ''o1'' 10)
      (replayEngine ?tk Map.empty [] 1000000 0 m)
      = Some (r3, replayEngine ?tk (Map.empty(''o1'' \<mapsto> bid ''o1'' 10 StatusPending 500)) [''o1''] 999500 500 m')"
    using replay_bid [of Map.empty "''o1''" 10 1000000 0 "''id''" ?tk m] by auto
  have f: "partitionToken freshEngine = Map.empty" "replaying freshEngine = Map.empty" "redisManager freshEngine"
    by (simp_all add: freshEngine_def newEngine_def)
  from s b show ?thesis
    by (auto simp add: replayCommandLog_def backlog_def replayEntries_step refusal_commands f afterBacklog_def
        simp del: replayEntries.simps(2))
qed

lemma backlog_known: "known_order (quietIO u) (bidPayload ''o1'' 10) (afterBacklog m)"
  using bid_valid [of 10 "''o1''"]
  by (simp add: known_order_def bid_request in_i64_def afterBacklog_def requestOrder_def quietIO_def bid_def)

lemma backlog_confirmed:
  "\<exists>reply e. processStreamEntry (quietIO u) 0 (commandEntry CreateOrderCommand (bidPayload ''o1'' 10)) (afterBacklog m)
     = Some (Some reply, e)"
proof -
  have v: "validateOrder (requestOrder ''o1'' (H_now (quietIO u)) \<lparr>Req_OrderID = ''o1'', Req_EventID = ''ev'', Req_UserID = ''u'',
     Req_OrderType = OrderTypeLimit, Req_Outcome = OutcomeYes, Req_Side = SideBuy, Req_Quantity = 10, Req_Price = 50\<rparr>) = None"
    using bid_valid [of 10 "''o1''"] by (simp add: requestOrder_def quietIO_def bid_def)
  have "\<exists>resp e. handleMessage (quietIO u) 0 CreateOrderCommand (bidPayload ''o1'' 10) (afterBacklog m) = Some (resp, e)"
    using create_duplicate [OF bid_request, of 10 "''o1''" "quietIO u" "afterBacklog m" _ 0] v
    by (simp add: handleMessage_def handleCreateOrderP_def in_i64_def afterBacklog_def)
  then show ?thesis
    by (auto simp: processStreamEntry_def commandEntry_def unmarshalCommand_def set_Command_field_def eq_fold_eval
        predix_const bidPayload_def Let_def)
qed


end
