(* ===== verification/Engine_Concurrency.thy ===== *)
theory Engine_Concurrency
  imports Engine_Safety
begin

text \<open>
  The partition workers of one engine process run concurrently on the same engine. A handler takes
  the engine mutex for its critical sections and gives it back between them, so the sections of
  different partitions interleave: between the admission of an order and its match another worker
  may cancel it, match other orders, open markets or publish events.

  \<open>node_step\<close> is the step relation of all workers, one critical section, emit cycle or counter update
  at a time, with the point each worker has reached in its handler. The theory shows that the
  invariant of \<open>Engine_Safety\<close> survives every interleaving, and that the sequential handlers are one of
  the interleavings.
\<close>

section \<open>The workers\<close>

text \<open>
  Where a worker is in its handler: between commands; with an admitted order that is to be
  serialized; with the bytes that are to be emitted; after a failed announcement; before the match;
  with trades to publish; with a cancellation to report.
\<close>

datatype activity =
    Idle | Admitting string | Emitting string Json | Failing string | Matching string
  | Publishing "Trade list" | Reporting string

record Node =
  N_engine :: Engine
  N_at :: "int \<Rightarrow> activity"

definition goto :: "int \<Rightarrow> activity \<Rightarrow> Engine \<Rightarrow> Node \<Rightarrow> Node" where
  "goto p a e n = \<lparr>N_engine = e, N_at = (N_at n)(p := a)\<rparr>"

text \<open>
  The steps. The two limits of \<open>Engine_Safety\<close> are part of the rules: the cost of an admitted order fits
  into 64 bits, and a market BUY can pay for what the book gives it when it is matched.
\<close>

definition match_funded :: "string \<Rightarrow> Engine \<Rightarrow> bool" where
  "match_funded i e \<longleftrightarrow>
     (\<forall>t m book. orders e i = Some t \<longrightarrow> markets e (Ord_EventID t) = Some m \<longrightarrow>
        Book m (Ord_Outcome t) = Some book \<longrightarrow> affordable (orders e) book t)"

inductive node_step :: "Node \<Rightarrow> Node \<Rightarrow> bool" where
  admit: "N_at n p = Idle \<Longrightarrow> new_order ord \<Longrightarrow> bounded_cost ord \<Longrightarrow>
    admit_locked ord (N_engine n) = (Admitted ord', e) \<Longrightarrow> node_step n (goto p (Admitting (Ord_ID ord)) e n)"
| refuse: "N_at n p = Idle \<Longrightarrow> new_order ord \<Longrightarrow> bounded_cost ord \<Longrightarrow>
    admit_locked ord (N_engine n) = (a, e) \<Longrightarrow> (\<And>ord'. a \<noteq> Admitted ord') \<Longrightarrow> node_step n (goto p Idle e n)"
| serialize: "N_at n p = Admitting i \<Longrightarrow> marshalOrder (deref (orders (N_engine n)) i) = Some d \<Longrightarrow>
    node_step n (goto p (Emitting i d) (N_engine n) n)"
| unserializable: "N_at n p = Admitting i \<Longrightarrow> marshalOrder (deref (orders (N_engine n)) i) = None \<Longrightarrow>
    node_step n (goto p (Failing i) (N_engine n) n)"
| announce: "N_at n p = Emitting i d \<Longrightarrow>
    emitEventP io p EventOrderCreated d False (N_engine n) = Some (ok, e) \<Longrightarrow>
    node_step n (goto p (if ok then Matching i else Failing i) e n)"
| drop: "N_at n p = Failing i \<Longrightarrow> node_step n (goto p Idle (dropOrder i (N_engine n)) n)"
| match: "N_at n p = Matching i \<Longrightarrow> match_funded i (N_engine n) \<Longrightarrow>
    matchOrder_locked tids nows i (N_engine n) = (trades, e) \<Longrightarrow>
    node_step n (goto p (if isReplaying p e then Idle else Publishing trades) e n)"
| publish: "N_at n p = Publishing (t # ts) \<Longrightarrow> publishTrade io p t (N_engine n) = Some (ok, e) \<Longrightarrow>
    node_step n (goto p (Publishing ts) e n)"
| published: "N_at n p = Publishing [] \<Longrightarrow> node_step n (goto p Idle (N_engine n) n)"
| cancel: "N_at n p = Idle \<Longrightarrow> cancel_locked i ev (N_engine n) = Some (Inr e) \<Longrightarrow>
    node_step n (goto p (Reporting i) e n)"
| report: "N_at n p = Reporting i \<Longrightarrow>
    emitEventP io p EventOrderCanceled (JObj [(''orderId'', JStr i)]) False (N_engine n) = Some (ok, e) \<Longrightarrow>
    node_step n (goto p Idle e n)"
| event: "N_at n p = Idle \<Longrightarrow> handleCreateEvent payload (N_engine n) = (resp, e) \<Longrightarrow>
    node_step n (goto p Idle e n)"
| user: "N_at n p = Idle \<Longrightarrow> total_cash (N_engine n) + DefaultStartingBalance \<le> max_i64 \<Longrightarrow>
    handleUserCreated payload (N_engine n) = (resp, e) \<Longrightarrow> node_step n (goto p Idle e n)"
| count: "node_step n (n\<lparr>N_engine := (N_engine n)\<lparr>metrics := m\<rparr>\<rparr>)"
| token: "node_step n (n\<lparr>N_engine := (N_engine n)\<lparr>partitionToken := tk\<rparr>\<rparr>)"

definition all_idle :: "Engine \<Rightarrow> Node" where
  "all_idle e = \<lparr>N_engine = e, N_at = (\<lambda>_. Idle)\<rparr>"

inductive interleaved :: "Engine \<Rightarrow> Node \<Rightarrow> bool" for e0 where
  start: "interleaved e0 (all_idle e0)"
| step: "interleaved e0 n \<Longrightarrow> node_step n n' \<Longrightarrow> interleaved e0 n'"

lemma goto_simps [simp]: "N_engine (goto p a e n) = e" "N_at (goto p a e n) q = (if q = p then a else N_at n q)"
  by (simp_all add: goto_def)

lemma all_idle_simps [simp]: "N_engine (all_idle e) = e" "N_at (all_idle e) p = Idle"
  by (simp_all add: all_idle_def)

section \<open>Orders in flight\<close>

text \<open>The order a worker has admitted and not yet matched.\<close>

fun in_hand :: "activity \<Rightarrow> string option" where
  "in_hand (Admitting i) = Some i"
| "in_hand (Emitting i d) = Some i"
| "in_hand (Failing i) = Some i"
| "in_hand (Matching i) = Some i"
| "in_hand _ = None"

text \<open>
  Such an order is stored, in an existing market, in no book, and open or canceled by another
  worker; and no two workers hold the same.
\<close>

definition waiting :: "Engine \<Rightarrow> string \<Rightarrow> bool" where
  "waiting e i \<longleftrightarrow> unlisted i e \<and> (\<exists>t m. orders e i = Some t \<and> (is_open t \<or> Ord_Status t = StatusCanceled)
     \<and> markets e (Ord_EventID t) = Some m)"

definition node_ok :: "Node \<Rightarrow> bool" where
  "node_ok n \<longleftrightarrow> engine_ok (N_engine n)
     \<and> (\<forall>p i. in_hand (N_at n p) = Some i \<longrightarrow> waiting (N_engine n) i)
     \<and> (\<forall>p q i. in_hand (N_at n p) = Some i \<longrightarrow> in_hand (N_at n q) = Some i \<longrightarrow> p = q)"

lemma waiting_core: "same_core e e' \<Longrightarrow> waiting e' i = waiting e i"
  by (simp add: same_core_def waiting_def unlisted_def)

section \<open>What a section does to the orders of others\<close>

lemma slices_same_set: "set (sliceStable (bid_less st) xs) = set xs" "set (sliceStable (ask_less st) xs) = set xs"
  by (simp_all add: bid.set_sliceStable ask.set_sliceStable)

lemma matched_book_sub:
  "set (Bids (matched_book st book i t)) \<subseteq> insert i (set (Bids book))"
  "set (Asks (matched_book st book i t)) \<subseteq> insert i (set (Asks book))"
  by (auto simp: matched_book_def Let_def addToBook_def set_opposite_def opposite_def slices_same_set split: if_splits)

lemma match_effect:
  assumes ok: "engine_ok e" and inc: "incoming_ok e i t market book" and aff: "affordable (orders e) book t"
    and m: "matchOrder_locked tids nows i e = (trades, e')"
  shows "markets e' = (markets e)(Ord_EventID t \<mapsto> setBook market (Ord_Outcome t) (matched_book (orders e) book i t))"
    and "\<exists>x. orders e' j = map_option (\<lambda>ord. ord\<lparr>Ord_LockedFunds := x\<rparr>) (matched_store (orders e) book i t j)"
    and "trades = matched_trades tids nows (orders e) book t"
proof -
  let ?mk = "(markets e)(Ord_EventID t \<mapsto> setBook market (Ord_Outcome t) (matched_book (orders e) book i t))"
  define e2 where "e2 = fold settleTradeLocked (matched_trades tids nows (orders e) book t)
      (e\<lparr>orders := matched_store (orders e) book i t, markets := ?mk\<rparr>)"
  note S = matched_settled [OF ok inc aff, of tids nows ?mk, folded e2_def]
  obtain t' where t': "orders e2 i = Some t'" using S(5) [of i] by (auto simp: matched_lookup Let_def)
  note R = release_ledger_ok(4,5) [OF S(1) t']
  have e': "e' = e2 \<or> e' = releaseOrderLocked i e2" and tr: "trades = matched_trades tids nows (orders e) book t"
    using m unfolding matchOrder_form [OF ok inc] by (auto simp: e2_def)
  show "trades = matched_trades tids nows (orders e) book t" by (rule tr)
  show "markets e' = ?mk" using e' R(2) S(4) by auto
  have "orders e' j = orders e2 j \<or> j = i \<and> orders e' j = Some (t'\<lparr>Ord_LockedFunds := 0\<rparr>)"
    using e' R(1) by (cases "j = i") auto
  then show "\<exists>x. orders e' j = map_option (\<lambda>ord. ord\<lparr>Ord_LockedFunds := x\<rparr>) (matched_store (orders e) book i t j)"
    using S(5) t' by (cases "matched_store (orders e) book i t j") auto
qed

lemma unlisted_match:
  assumes "engine_ok e" "incoming_ok e i t market book" "affordable (orders e) book t"
    and "matchOrder_locked tids nows i e = (trades, e')" "unlisted j e" "j \<noteq> i"
  shows "unlisted j e'"
  using assms(2,5,6) matched_book_sub [of "orders e" book i t] unfolding unlisted_def match_effect(1) [OF assms(1-4)]
  by (auto simp: incoming_ok_def Book_setBook split: if_splits)

lemma waiting_match:
  assumes ok: "engine_ok e" and inc: "incoming_ok e i t market book" and aff: "affordable (orders e) book t"
    and m: "matchOrder_locked tids nows i e = (trades, e')" and j: "j \<noteq> i" "waiting e j"
  shows "waiting e' j"
proof -
  obtain o' mk where o': "orders e j = Some o'" "is_open o' \<or> Ord_Status o' = StatusCanceled"
    "markets e (Ord_EventID o') = Some mk" "unlisted j e" using j(2) by (auto simp: waiting_def)
  have "j \<notin> set (opposite (Ord_Side t) book)"
    using o'(4) inc by (auto simp: unlisted_def incoming_ok_def opposite_def)
  then have "j \<notin> fst ` set (allocation (orders e) book t)" using allocation_member by blast
  then have "map_of (allocation (orders e) book t) j = None" by (simp add: map_of_eq_None_iff)
  then obtain x where "orders e' j = Some (o'\<lparr>Ord_LockedFunds := x\<rparr>)"
    using match_effect(2) [OF ok inc aff m, of j] o'(1) j(1) by (auto simp: matched_lookup)
  with o' unlisted_match [OF ok inc aff m o'(4) j(1)] match_effect(1) [OF ok inc aff m]
  show ?thesis by (auto simp: waiting_def is_open_def)
qed

text \<open>The order of a match is the worker's own; a canceled one is left alone.\<close>

lemma waiting_incoming:
  assumes "engine_ok e" "waiting e i" "match_funded i e"
  obtains (canceled) "matchOrder_locked tids nows i e = ([], e)"
  | (matched) t market book where "incoming_ok e i t market book" "affordable (orders e) book t"
proof -
  obtain t m where t: "orders e i = Some t" "is_open t \<or> Ord_Status t = StatusCanceled"
    "markets e (Ord_EventID t) = Some m" "unlisted i e" using assms(2) by (auto simp: waiting_def)
  have "order_ok i t" using assms(1) t(1) by (auto simp: engine_ok_def orders_ok_def)
  then obtain book where "Book m (Ord_Outcome t) = Some book"
    using Book_Some_iff [of m "Ord_Outcome t"] by (auto simp: order_ok_def)
  with t assms(3) that show thesis
    by (auto simp: match_funded_def incoming_ok_def matchOrder_locked_def Let_def)
qed

lemma unlisted_cancel:
  assumes ok: "engine_ok e" and c: "cancel_locked i ev e = Some (Inr e')" and j: "unlisted j e"
  shows "unlisted j e'" "markets e v \<noteq> None \<Longrightarrow> markets e' v \<noteq> None"
proof -
  from cancel_form [OF ok c] obtain o' market book where o': "orders e i = Some o'"
    and mk: "markets e (Ord_EventID o') = Some market" "Book market (Ord_Outcome o') = Some book"
    and e': "e' = releaseOrderLocked i (e\<lparr>markets := (markets e)(Ord_EventID o' \<mapsto>
            setBook market (Ord_Outcome o') (without i book)),
          orders := (orders e)(i \<mapsto> o'\<lparr>Ord_Status := StatusCanceled\<rparr>)\<rparr>)" .
  have m: "markets e' = (markets e)(Ord_EventID o' \<mapsto> setBook market (Ord_Outcome o') (without i book))"
    unfolding e' by (simp add: releaseOrderLocked_def Let_def getOrCreateBalance_entry getOrCreatePosition_entry
        putBalance_def putPosition_def)
  show "unlisted j e'" using j mk unfolding unlisted_def m
    by (auto simp: Book_setBook without_def split: if_splits)
  show "markets e v \<noteq> None \<Longrightarrow> markets e' v \<noteq> None" by (simp add: m)
qed

lemma waiting_cancel:
  assumes ok: "engine_ok e" and c: "cancel_locked i ev e = Some (Inr e')" and w: "waiting e j"
  shows "waiting e' j"
proof -
  obtain t where "orders e i = Some t" using cancel_form [OF ok c] by blast
  from cancel_ok(4) [OF ok c this] \<open>orders e i = Some t\<close>
    unlisted_cancel [OF ok c, of j] w show ?thesis
    by (fastforce simp: waiting_def)
qed

lemma create_event_frame:
  assumes "handleCreateEvent payload e = (resp, e')"
  shows "orders e' = orders e" "unlisted i e \<Longrightarrow> unlisted i e'" "markets e v \<noteq> None \<Longrightarrow> markets e' v \<noteq> None"
  using assms
  by (auto simp: handleCreateEvent_def unlisted_def Book_def NewMarket_def split: option.splits if_splits)

lemma user_created_frame:
  "handleUserCreated payload e = (resp, e') \<Longrightarrow> orders e' = orders e \<and> markets e' = markets e"
  by (auto simp: handleUserCreated_def split: option.splits if_splits)

lemma waiting_frame:
  assumes "waiting e i" "orders e' i = orders e i" "unlisted i e \<Longrightarrow> unlisted i e'"
    and "\<And>v. markets e v \<noteq> None \<Longrightarrow> markets e' v \<noteq> None"
  shows "waiting e' i"
  using assms by (fastforce simp: waiting_def)

section \<open>The invariant in every interleaving\<close>

lemma node_okD:
  assumes "node_ok n"
  shows "engine_ok (N_engine n)" "in_hand (N_at n p) = Some i \<Longrightarrow> waiting (N_engine n) i"
    "in_hand (N_at n p) = Some i \<Longrightarrow> in_hand (N_at n q) = Some i \<Longrightarrow> p = q"
  using assms unfolding node_ok_def by blast+

text \<open>A worker moves on with the order it holds or without one; the others keep theirs.\<close>

lemma node_ok_goto:
  assumes n: "node_ok n" and e: "engine_ok e" and a: "in_hand a = in_hand (N_at n p) \<or> in_hand a = None"
    and w: "\<And>q j. in_hand (N_at n q) = Some j \<Longrightarrow> q \<noteq> p \<or> in_hand a = Some j \<Longrightarrow> waiting e j"
  shows "node_ok (goto p a e n)"
  unfolding node_ok_def
proof (intro conjI allI impI)
  have old: "in_hand (N_at (goto p a e n) q) = Some j \<Longrightarrow> in_hand (N_at n q) = Some j" for q j
    using a by (auto split: if_splits)
  show "waiting (N_engine (goto p a e n)) j" if "in_hand (N_at (goto p a e n) q) = Some j" for q j
    using w [OF old [OF that]] that by (auto split: if_splits)
  show "q = r" if "in_hand (N_at (goto p a e n) q) = Some j" "in_hand (N_at (goto p a e n) r) = Some j" for q r j
    using node_okD(3) [OF n old [OF that(1)] old [OF that(2)]] .
qed (use e in simp)

lemma node_ok_core:
  assumes "node_ok n" "same_core (N_engine n) e" "in_hand a = in_hand (N_at n p) \<or> in_hand a = None"
  shows "node_ok (goto p a e n)" "total_cash e = total_cash (N_engine n)" "total_shares e = total_shares (N_engine n)"
proof -
  have "engine_ok e" using node_okD(1) [OF assms(1)] assms(2) by (simp add: same_core_ok)
  then show "node_ok (goto p a e n)"
    using node_okD(2) [OF assms(1)] waiting_core [OF assms(2)] by (intro node_ok_goto [OF assms(1) _ assms(3)]) auto
  show "total_cash e = total_cash (N_engine n)" "total_shares e = total_shares (N_engine n)"
    using assms(2) by (simp_all add: same_core_ok)
qed

lemma node_ok_field:
  assumes "node_ok n" "same_core (N_engine n) e"
  shows "node_ok (n\<lparr>N_engine := e\<rparr>)"
  using assms by (simp add: node_ok_def same_core_ok waiting_core)

text \<open>Two nodes with the same money, but for the starting balance of a new user.\<close>

definition sound_move :: "Node \<Rightarrow> Node \<Rightarrow> bool" where
  "sound_move n n' \<longleftrightarrow> node_ok n' \<and> total_shares (N_engine n') = total_shares (N_engine n)
     \<and> (total_cash (N_engine n') = total_cash (N_engine n)
        \<or> total_cash (N_engine n') = total_cash (N_engine n) + DefaultStartingBalance)"

lemma admit_step_ok:
  assumes "node_ok n" "N_at n p = Idle" "new_order ord" "bounded_cost ord"
    and "admit_locked ord (N_engine n) = (Admitted ord', e)"
  shows "sound_move n (goto p (Admitting (Ord_ID ord)) e n)"
proof -
  let ?i = "Ord_ID ord" and ?e = "N_engine n"
  note A = admit_ok [OF _ assms(3-5)]
  have ok: "engine_ok ?e" using assms(1) by (simp add: node_ok_def)
  with A obtain market book where inc: "incoming_ok e ?i ord' market book" and o': "orders ?e ?i = None"
    "orders e = (orders ?e)(?i \<mapsto> ord')" "reserveOrderLocked ord ?e = (None, ord', e\<lparr>orders := orders ?e\<rparr>)" by auto
  have m: "markets e = markets ?e" using reserve_frame [OF o'(3)] by simp
  have w: "waiting e j" if "waiting ?e j" for j
    using waiting_frame [OF that, of e] that o'(1,2) m by (auto simp: waiting_def unlisted_def)
  have "in_hand (N_at n q) \<noteq> Some ?i" for q
    using node_okD(2) [OF assms(1), of q ?i] o'(1) by (auto simp: waiting_def)
  moreover have "waiting e ?i" using inc by (auto simp: waiting_def incoming_ok_def)
  ultimately have "node_ok (goto p (Admitting ?i) e n)"
    using assms(1,2) w A ok unfolding node_ok_def by (auto split: if_splits)
  with A ok show ?thesis by (simp add: sound_move_def)
qed

lemma match_step_ok:
  assumes n: "node_ok n" "N_at n p = Matching i" and f: "match_funded i (N_engine n)"
    and m: "matchOrder_locked tids nows i (N_engine n) = (trades, e)" and a: "in_hand a = None"
  shows "sound_move n (goto p a e n)"
proof -
  have ok: "engine_ok (N_engine n)" and w: "waiting (N_engine n) i"
    using node_okD(1) [OF n(1)] node_okD(2) [OF n(1), of p i] n(2) by simp_all
  show ?thesis
  proof (cases rule: waiting_incoming [OF ok w f, of tids nows])
    case 1
    with m a node_ok_core [OF n(1), of e a p] show ?thesis by (simp add: sound_move_def)
  next
    case (2 t market book)
    note M = matchOrder_locked_ok [OF ok 2, of tids nows, unfolded m]
    have "node_ok (goto p a e n)"
    proof (rule node_ok_goto [OF n(1)])
      fix q j assume q: "in_hand (N_at n q) = Some j" "q \<noteq> p \<or> in_hand a = Some j"
      with a n(2) node_okD(3) [OF n(1), of q i p] have "j \<noteq> i" by auto
      moreover have "waiting (N_engine n) j" using node_okD(2) [OF n(1) q(1)] .
      ultimately show "waiting e j" by (rule waiting_match [OF ok 2 m])
    qed (use M a in simp_all)
    with M show ?thesis by (simp add: sound_move_def)
  qed
qed

lemma drop_step_ok:
  assumes n: "node_ok n" "N_at n p = Failing i"
  shows "sound_move n (goto p Idle (dropOrder i (N_engine n)) n)"
proof -
  have ok: "engine_ok (N_engine n)" and w: "waiting (N_engine n) i"
    using node_okD(1) [OF n(1)] node_okD(2) [OF n(1), of p i] n(2) by simp_all
  note D = drop_ok [OF ok, of i]
  have "node_ok (goto p Idle (dropOrder i (N_engine n)) n)"
  proof (rule node_ok_goto [OF n(1)])
    fix q j assume q: "in_hand (N_at n q) = Some j" "q \<noteq> p \<or> in_hand Idle = Some j"
    with n(2) node_okD(3) [OF n(1), of q i p] have "j \<noteq> i" by auto
    then show "waiting (dropOrder i (N_engine n)) j" 
      using node_okD(2) [OF n(1) q(1)] by (simp add: waiting_def unlisted_def dropOrder_def)
  qed (use D w in \<open>simp_all add: waiting_def\<close>)
  with D w show ?thesis by (simp add: sound_move_def waiting_def)
qed

lemma core_step_ok:
  assumes "node_ok n" "same_core (N_engine n) e" "in_hand a = in_hand (N_at n p) \<or> in_hand a = None"
  shows "sound_move n (goto p a e n)"
  using node_ok_core [OF assms] by (simp add: sound_move_def)

lemma cancel_step_ok:
  assumes n: "node_ok n" "N_at n p = Idle" and c: "cancel_locked i ev (N_engine n) = Some (Inr e)"
  shows "sound_move n (goto p (Reporting i) e n)"
proof -
  note ok = node_okD(1) [OF n(1)]
  have "node_ok (goto p (Reporting i) e n)"
    using cancel_ok(1) [OF ok c] node_okD(2) [OF n(1)] waiting_cancel [OF ok c]
    by (intro node_ok_goto [OF n(1)]) auto
  with cancel_ok(2,3) [OF ok c] show ?thesis by (simp add: sound_move_def)
qed

lemma refuse_step_ok:
  assumes n: "node_ok n" "N_at n p = Idle" and "new_order ord" "bounded_cost ord"
    and "admit_locked ord (N_engine n) = (a, e)" "\<And>ord'. a \<noteq> Admitted ord'"
  shows "sound_move n (goto p Idle e n)"
proof -
  note A = admit_ok [OF node_okD(1) [OF n(1)] assms(3-5)]
  from A assms(6) have "orders e = orders (N_engine n)" "markets e = markets (N_engine n)"
    by (auto split: admission.splits)
  then have "waiting e j = waiting (N_engine n) j" for j by (simp add: waiting_def unlisted_def)
  then have "node_ok (goto p Idle e n)"
    using A node_okD(2) [OF n(1)] by (intro node_ok_goto [OF n(1)]) auto
  with A show ?thesis by (simp add: sound_move_def)
qed

lemma event_step_ok:
  assumes n: "node_ok n" "N_at n p = Idle" and h: "handleCreateEvent payload (N_engine n) = (resp, e)"
  shows "sound_move n (goto p Idle e n)"
proof -
  note ok = node_okD(1) [OF n(1)]
  have w: "waiting (N_engine n) j \<Longrightarrow> waiting e j" for j
    using create_event_frame [OF h] by (auto intro: waiting_frame)
  have "node_ok (goto p Idle e n)"
    using create_event_ok(1) [OF ok h] node_okD(2) [OF n(1)] w by (intro node_ok_goto [OF n(1)]) auto
  with create_event_ok(2,3) [OF ok h] show ?thesis by (simp add: sound_move_def)
qed

lemma user_step_ok:
  assumes n: "node_ok n" "N_at n p = Idle" and r: "total_cash (N_engine n) + DefaultStartingBalance \<le> max_i64"
    and h: "handleUserCreated payload (N_engine n) = (resp, e)"
  shows "sound_move n (goto p Idle e n)"
proof -
  note U = user_created_ok [OF node_okD(1) [OF n(1)] r h]
  have "waiting e j = waiting (N_engine n) j" for j
    using user_created_frame [OF h] by (simp add: waiting_def unlisted_def)
  then have "node_ok (goto p Idle e n)"
    using U(1) node_okD(2) [OF n(1)] by (intro node_ok_goto [OF n(1)]) auto
  with U show ?thesis by (auto simp: sound_move_def)
qed

lemma publishTrade_core: "publishTrade io p t e = Some (ok, e') \<Longrightarrow> same_core e e'"
  by (auto simp: publishTrade_def split: option.splits dest: emit_same_core)

text \<open>Each step keeps the invariant of the node.\<close>

lemma node_step_sound:
  assumes "node_step n n'" "node_ok n"
  shows "sound_move n n'"
  using assms
proof (cases rule: node_step.cases)
  case (count m)
  then show ?thesis
    using node_ok_field [OF assms(2), of "(N_engine n)\<lparr>metrics := m\<rparr>"]
    by (simp add: sound_move_def total_cash_def total_shares_def)
next
  case (token tk)
  then show ?thesis
    using node_ok_field [OF assms(2), of "(N_engine n)\<lparr>partitionToken := tk\<rparr>"]
    by (simp add: sound_move_def total_cash_def total_shares_def same_core_def)
next
  case (announce p i d io ok e)
  then show ?thesis using core_step_ok [OF assms(2) emit_same_core] by simp
next
  case (report p i io ok e)
  then show ?thesis using core_step_ok [OF assms(2) emit_same_core] by simp
next
  case (publish p t ts io ok e)
  then show ?thesis using core_step_ok [OF assms(2) publishTrade_core] by simp
next
  case (match p i tids nows trades e)
  then show ?thesis using match_step_ok [OF assms(2)] by simp
qed (use assms(2) in \<open>auto intro: admit_step_ok refuse_step_ok drop_step_ok cancel_step_ok event_step_ok
    user_step_ok core_step_ok\<close>)

lemma node_ok_idle: "node_ok (all_idle e) \<longleftrightarrow> engine_ok e"
  by (simp add: node_ok_def)

lemma interleaved_ok:
  assumes "interleaved e0 n" "engine_ok e0"
  shows "node_ok n \<and> total_shares (N_engine n) = total_shares e0
    \<and> (\<exists>k. total_cash (N_engine n) = total_cash e0 + int k * DefaultStartingBalance)"
  using assms(1)
proof (induction rule: interleaved.induct)
  case start
  with assms(2) show ?case by (auto simp: node_ok_idle intro: exI [of _ 0])
next
  case (step n n')
  then obtain k where k: "total_cash (N_engine n) = total_cash e0 + int k * DefaultStartingBalance" by blast
  have "total_cash e0 + int k * DefaultStartingBalance + DefaultStartingBalance
      = total_cash e0 + int (Suc k) * DefaultStartingBalance" by (simp add: distrib_right)
  with node_step_sound [OF step.hyps(2)] step.IH k show ?case
    unfolding sound_move_def by metis
qed

section \<open>The sequential handlers are an interleaving\<close>

text \<open>Several steps that start and end with all workers idle.\<close>

definition idle_run :: "Engine \<Rightarrow> Engine \<Rightarrow> bool" where
  "idle_run e e' \<longleftrightarrow> node_step\<^sup>*\<^sup>* (all_idle e) (all_idle e')"

lemma idle_run_refl [simp]: "idle_run e e"
  by (simp add: idle_run_def)

lemma idle_run_trans [trans]: "idle_run e e1 \<Longrightarrow> idle_run e1 e2 \<Longrightarrow> idle_run e e2"
  by (simp add: idle_run_def)

text \<open>The node with one worker at work.\<close>

definition busy :: "int \<Rightarrow> activity \<Rightarrow> Engine \<Rightarrow> Node" where
  "busy p a e = goto p a e (all_idle e)"

lemma goto_busy [simp]: "goto p b e' (busy p a e) = busy p b e'" "N_engine (busy p a e) = e" "N_at (busy p a e) p = a"
  "busy p Idle e = all_idle e" "goto p a e' (all_idle e) = busy p a e'"
  by (auto simp: busy_def goto_def all_idle_def)

lemma count_run: "node_step\<^sup>*\<^sup>* (busy p a e) (busy p a (e\<lparr>metrics := m\<rparr>))"
  using node_step.count [of "busy p a e" m] by (simp add: busy_def goto_def all_idle_def)

lemma publish_run:
  "publishTrades ios p k ts e = Some e' \<Longrightarrow> node_step\<^sup>*\<^sup>* (busy p (Publishing ts) e) (all_idle e')"
proof (induction ts arbitrary: k e)
  case Nil
  then show ?case using node_step.published [of "busy p (Publishing []) e" p] by simp
next
  case (Cons t ts)
  let ?e1 = "e\<lparr>metrics := (metrics e)\<lparr>TradesExecuted := TradesExecuted (metrics e) + 1\<rparr>\<rparr>"
  obtain ok e2 where t: "publishTrade (ios k) p t ?e1 = Some (ok, e2)" "publishTrades ios p (Suc k) ts e2 = Some e'"
    using Cons.prems by (auto split: option.splits)
  note count_run [of p "Publishing (t # ts)" e]
  also have "node_step (busy p (Publishing (t # ts)) ?e1) (busy p (Publishing ts) e2)"
    using node_step.publish [of "busy p (Publishing (t # ts)) ?e1" p] t(1) by simp
  also note Cons.IH [OF t(2)]
  finally show ?case .
qed

lemma match_run:
  assumes "matchOrder io i p e = Some (trades, e')" "match_funded i e"
  shows "node_step\<^sup>*\<^sup>* (busy p (Matching i) e) (all_idle e')"
proof -
  obtain trs e1 where m: "matchOrder_locked (H_tids io) (H_nows io) i e = (trs, e1)" by fastforce
  have s: "node_step (busy p (Matching i) e) (busy p (if isReplaying p e1 then Idle else Publishing trs) e1)"
    using node_step.match [of "busy p (Matching i) e" p i] m assms(2) by simp
  show ?thesis
  proof (cases "isReplaying p e1")
    case True
    with assms(1) m s show ?thesis by (auto simp: matchOrder_def)
  next
    case False
    let ?e2 = "if Ord_Status (deref (orders e1) i) = StatusFilled
        then e1\<lparr>metrics := (metrics e1)\<lparr>OrdersFilled := OrdersFilled (metrics e1) + 1\<rparr>\<rparr> else e1"
    have "publishTrades (H_trade io) p 0 trs ?e2 = Some e'"
      using assms(1) m False by (auto simp: matchOrder_def Let_def split: option.splits)
    from publish_run [OF this] have "node_step\<^sup>*\<^sup>* (busy p (Publishing trs) ?e2) (all_idle e')" .
    moreover have "node_step\<^sup>*\<^sup>* (busy p (Publishing trs) e1) (busy p (Publishing trs) ?e2)"
      using count_run by simp
    ultimately show ?thesis using s False by simp
  qed
qed

lemma announce_run:
  assumes a: "announceOrder io p ord e = Some (resp, e')" and o: "orders e (Ord_ID ord) = Some ord"
    and f: "match_funded (Ord_ID ord) e"
  shows "node_step\<^sup>*\<^sup>* (busy p (Admitting (Ord_ID ord)) e) (all_idle e')"
proof -
  let ?i = "Ord_ID ord"
  have drop: "node_step (busy p (Failing ?i) e1) (all_idle (dropOrder ?i e1))" for e1
    using node_step.drop [of "busy p (Failing ?i) e1" p ?i] by simp
  show ?thesis
  proof (cases "marshalOrder ord")
    case None
    have "node_step (busy p (Admitting ?i) e) (busy p (Failing ?i) e)"
      using node_step.unserializable [of "busy p (Admitting ?i) e" p ?i] None o by simp
    with drop a None show ?thesis by (auto simp: announceOrder_def intro: converse_rtranclp_into_rtranclp)
  next
    case (Some d)
    have ser: "node_step (busy p (Admitting ?i) e) (busy p (Emitting ?i d) e)"
      using node_step.serialize [of "busy p (Admitting ?i) e" p ?i] Some o by simp
    obtain b e1 where em: "emitEventP (H_emit io) p EventOrderCreated d False e = Some (b, e1)"
      using a Some by (auto simp: announceOrder_def split: option.splits)
    have ann: "node_step (busy p (Emitting ?i d) e) (busy p (if b then Matching ?i else Failing ?i) e1)"
      using node_step.announce [of "busy p (Emitting ?i d) e" p ?i d] em by simp
    show ?thesis
    proof (cases b)
      case False
      with a Some em have "e' = dropOrder ?i e1" by (auto simp: announceOrder_def)
      moreover have "node_step (busy p (Emitting ?i d) e) (busy p (Failing ?i) e1)" using ann False by simp
      ultimately show ?thesis
        using converse_rtranclp_into_rtranclp [OF ser converse_rtranclp_into_rtranclp [OF _ r_into_rtranclp [of node_step, OF drop]]]
        by simp
    next
      case True
      then obtain trades e2 where m: "matchOrder io ?i p e1 = Some (trades, e2)"
        and e': "e' = e2\<lparr>metrics := (metrics e2)\<lparr>OrdersProcessed := OrdersProcessed (metrics e2) + 1\<rparr>\<rparr>"
        using a Some em by (auto simp: announceOrder_def split: option.splits)
      have "match_funded ?i e1" using f emit_same_core [OF em] by (simp add: match_funded_def same_core_def)
      note match_run [OF m this]
      also have "node_step\<^sup>*\<^sup>* (all_idle e2) (all_idle e')" using count_run [of p Idle e2] by (simp add: e')
      finally show ?thesis using ser ann True by (auto intro: converse_rtranclp_into_rtranclp)
    qed
  qed
qed

definition counted :: "Engine \<Rightarrow> Engine \<Rightarrow> bool" where
  "counted e e' \<longleftrightarrow> (\<exists>m. e' = e\<lparr>metrics := m\<rparr>)"

lemma counted_simps [simp]: "counted e e" "counted e (e\<lparr>metrics := m\<rparr>)"
  by (cases e, simp add: counted_def) (auto simp: counted_def)

lemma counted_run: "counted e e' \<Longrightarrow> node_step\<^sup>*\<^sup>* (busy p a e) (busy p a e')"
  using count_run by (auto simp: counted_def)

lemma metrics_run: "counted e e' \<Longrightarrow> idle_run e e'"
  using counted_run [of e e' 0 Idle] by (simp add: idle_run_def)

lemma create_counted:
  "handleCreateOrderP io p payload e = Some (resp, e') \<Longrightarrow>
   \<exists>e1. handleCreateOrderCore io p payload e = Some (resp, e1) \<and> counted e1 e'"
  by (auto simp: handleCreateOrderP_def split: option.splits)

lemma cancel_emits:
  assumes "handleCancelOrderP io p payload e = Some (resp, e')" "e' \<noteq> e"
  shows "\<exists>i ev e1 e2 ok. cancel_locked i ev e = Some (Inr e1) \<and> counted e1 e2
    \<and> emitEventP (H_emit io) p EventOrderCanceled
        (JObj [(''orderId'', JStr (Ord_ID (deref (orders e1) i)))]) False e2 = Some (ok, e')"
proof -
  from assms obtain req where d: "decodeRequest [''orderId'', ''eventId''] payload = Some req" "Req_OrderID req \<noteq> []"
    by (auto simp: handleCancelOrderP_def split: option.splits if_splits)
  let ?c = "cancel_locked (Req_OrderID req) (Req_EventID req) e"
  obtain e1 where c: "?c = Some (Inr e1)"
  proof (cases ?c)
    case (Some r)
    with assms d that show thesis by (cases r) (auto simp: handleCancelOrderP_def)
  qed (use assms d in \<open>simp add: handleCancelOrderP_def\<close>)
  define e2 where "e2 = (if isReplaying p e1 then e1
    else e1\<lparr>metrics := (metrics e1)\<lparr>OrdersCanceled := OrdersCanceled (metrics e1) + 1\<rparr>\<rparr>)"
  have "counted e1 e2" by (simp add: e2_def)
  moreover have "\<exists>ok. emitEventP (H_emit io) p EventOrderCanceled
      (JObj [(''orderId'', JStr (Ord_ID (deref (orders e1) (Req_OrderID req))))]) False e2 = Some (ok, e')"
    using assms(1) d c unfolding e2_def
    by (cases "isReplaying p e1") (auto simp: handleCancelOrderP_def Let_def split: option.splits)
  ultimately show ?thesis using c by blast
qed

lemma admit_run:
  assumes ok: "engine_ok e" and new: "new_order ord" "bounded_cost ord" "market_covered ord e"
    and ad: "admit_locked ord e = (Admitted o', e1)" and an: "announceOrder io p o' e1 = Some (resp, e')"
  shows "idle_run e e'"
proof -
  let ?i = "Ord_ID ord"
  from admit_ok [OF ok new(1,2) ad] obtain market book where inc: "incoming_ok e1 ?i o' market book"
    and st: "orders e1 = (orders e)(?i \<mapsto> o')" and res: "reserveOrderLocked ord e = (None, o', e1\<lparr>orders := orders e\<rparr>)"
    by auto
  have i: "Ord_ID o' = ?i" and m: "markets e1 = markets e" using reserve_frame [OF res] by auto
  have "affordable (orders e1) book o'" by (rule admitted_affordable [OF new(3) res st m inc])
  with inc have f: "match_funded ?i e1" by (auto simp: match_funded_def incoming_ok_def)
  have "node_step (all_idle e) (busy p (Admitting ?i) e1)"
    using node_step.admit [of "all_idle e" p ord o' e1] new ad by simp
  moreover have "node_step\<^sup>*\<^sup>* (busy p (Admitting ?i) e1) (all_idle e')"
    using announce_run [OF an] st f by (simp add: i)
  ultimately show ?thesis unfolding idle_run_def by (rule converse_rtranclp_into_rtranclp)
qed

lemma create_core_run:
  assumes ok: "engine_ok e" and safe: "safe_order io payload e"
    and h: "handleCreateOrderCore io p payload e = Some (resp, e')"
  shows "idle_run e e'"
proof (cases "decodeRequest order_fields payload")
  case None
  with h show ?thesis by (simp add: handleCreateOrderCore_def)
next
  case (Some req)
  obtain ord where w: "wanted_order io payload = Some ord" using Some by (simp add: wanted_order_def)
  have sf: "bounded_cost ord" "market_covered ord e" using safe w by (simp_all add: safe_order_def)
  obtain a e1 where ad: "admit_locked ord e = (a, e1)" by (cases "admit_locked ord e")
  note form = create_core_form [OF Some w ad, of p]
  show ?thesis
  proof (cases "Req_Quantity req \<le> 0 \<or> validateOrder ord \<noteq> None")
    case True
    with h form show ?thesis by (auto split: if_splits)
  next
    case False
    have new: "new_order ord" using False w Some by (auto simp: wanted_order_def intro: requestOrder_new)
    have refused: "idle_run e e1" if "\<And>ord'. a \<noteq> Admitted ord'"
      using node_step.refuse [of "all_idle e" p ord a e1] new sf(1) ad that by (auto simp: idle_run_def)
    show ?thesis
    proof (cases a)
      case (Admitted o')
      with h form False admit_run [OF ok new sf] ad show ?thesis by simp
    qed (use h form False refused in auto)
  qed
qed

lemma cancel_run:
  assumes ok: "engine_ok e" and h: "handleCancelOrderP io p payload e = Some (resp, e')"
  shows "idle_run e e'"
proof (cases "e' = e")
  case False
  from cancel_emits [OF h False] obtain i ev e1 e2 ok1 where c: "cancel_locked i ev e = Some (Inr e1)"
    and cnt: "counted e1 e2" and em: "emitEventP (H_emit io) p EventOrderCanceled
        (JObj [(''orderId'', JStr (Ord_ID (deref (orders e1) i)))]) False e2 = Some (ok1, e')" by blast
  obtain t where t: "orders e i = Some t" using cancel_form [OF ok c] by blast
  have i: "Ord_ID (deref (orders e1) i) = i"
    using cancel_ok(4) [OF ok c t] ok t by (simp add: engine_ok_def orders_ok_def order_ok_def)
  have "node_step (all_idle e) (busy p (Reporting i) e1)"
    using node_step.cancel [of "all_idle e" p i] c by simp
  moreover note counted_run [OF cnt, of p "Reporting i"]
  moreover have "node_step (busy p (Reporting i) e2) (all_idle e')"
    using node_step.report [of "busy p (Reporting i) e2" p i] em by (simp add: i)
  ultimately show ?thesis
    unfolding idle_run_def by (meson converse_rtranclp_into_rtranclp rtranclp.rtrancl_into_rtrancl)
qed simp

text \<open>Handling a command without interruption is a run of the workers.\<close>

lemma handleMessage_run:
  assumes ok: "engine_ok e" and safe: "safe_command io ty payload e"
    and h: "handleMessage io p ty payload e = Some (resp, e')"
  shows "idle_run e e'"
  using handleMessage_cases [OF h]
proof (elim disjE conjE)
  assume c: "ty = CreateOrderCommand" "handleCreateOrderP io p payload e = Some (resp, e')"
  from create_counted [OF c(2)] obtain e1 where core: "handleCreateOrderCore io p payload e = Some (resp, e1)"
    and m: "counted e1 e'" by blast
  have "idle_run e e1" using create_core_run [OF ok _ core] safe c(1) by (simp add: safe_command_def)
  with m metrics_run idle_run_trans show ?thesis by blast
next
  assume "handleCancelOrderP io p payload e = Some (resp, e')"
  then show ?thesis by (rule cancel_run [OF ok])
next
  assume "handleCreateEvent payload e = (resp, e')"
  with node_step.event [of "all_idle e" p payload resp e'] show ?thesis by (simp add: idle_run_def)
next
  assume c: "ty = UserCreatedCommand" "handleUserCreated payload e = (resp, e')"
  with node_step.user [of "all_idle e" p payload resp e'] safe show ?thesis
    by (simp add: idle_run_def safe_command_def)
qed simp

section \<open>Properties\<close>



end
