(* ===== verification/Event_Ordering.thy ===== *)
theory Event_Ordering
  imports Engine_Concurrency Engine_Behaviour
begin

text \<open>
  The order of the events of one engine. The handler emits ORDER_CREATED before the order can be
  matched, so that the event stream sees it ahead of any TRADE_EXECUTED for the order
  (\<^verbatim>\<open>handleCreateOrderCore\<close>). The DB worker depends on it: the rows of a trade refer to the rows of its
  two orders. The theory proves it for every interleaving of the partition workers.
\<close>

section \<open>Events on the stream\<close>

definition created_event :: "string \<Rightarrow> Json \<Rightarrow> bool" where
  "created_event i x \<longleftrightarrow> (\<exists>env ord. marshalEnvelope env = Some x \<and> Env_Type env = EventOrderCreated
     \<and> marshalOrder ord = Some (Env_Data env) \<and> Ord_ID ord = i)"

definition traded_event :: "Trade \<Rightarrow> Json \<Rightarrow> bool" where
  "traded_event t x \<longleftrightarrow> (\<exists>env. marshalEnvelope env = Some x \<and> Env_Type env = EventTradeExecuted
     \<and> marshalTrade t = Some (Env_Data env))"

definition created_on :: "Json list \<Rightarrow> string \<Rightarrow> bool" where
  "created_on stream i \<longleftrightarrow> (\<exists>x\<in>set stream. created_event i x)"

text \<open>Ahead of every trade both its orders were announced.\<close>

definition created_first :: "Json list \<Rightarrow> bool" where
  "created_first stream \<longleftrightarrow> (\<forall>k t. k < length stream \<longrightarrow> traded_event t (stream ! k) \<longrightarrow>
     created_on (take k stream) (Trd_OrderID t) \<and> created_on (take k stream) (Trd_MatchOrderID t))"

lemma created_on_append [simp]: "created_on (xs @ ys) i \<longleftrightarrow> created_on xs i \<or> created_on ys i"
  by (auto simp: created_on_def)

lemma created_on_Nil [simp]: "\<not> created_on [] i"
  by (simp add: created_on_def)

lemma created_first_snoc:
  "created_first (xs @ [x]) \<longleftrightarrow> created_first xs
     \<and> (\<forall>t. traded_event t x \<longrightarrow> created_on xs (Trd_OrderID t) \<and> created_on xs (Trd_MatchOrderID t))"
  (is "?l \<longleftrightarrow> ?r")
proof
  assume l: ?l
  have "created_first xs" unfolding created_first_def
  proof (intro allI impI)
    fix k t assume "k < length xs" "traded_event t (xs ! k)"
    with l [unfolded created_first_def, rule_format, of k t]
    show "created_on (take k xs) (Trd_OrderID t) \<and> created_on (take k xs) (Trd_MatchOrderID t)"
      by (simp add: nth_append)
  qed
  with l [unfolded created_first_def, rule_format, of "length xs"] show ?r by simp
next
  assume ?r
  then show ?l by (auto simp: created_first_def nth_append less_Suc_eq)
qed

lemma envelope_inj:
  "marshalEnvelope env = Some x \<Longrightarrow> marshalEnvelope env' = Some x \<Longrightarrow> Env_Data env' = JObj kvs \<Longrightarrow>
   Env_Type env' = Env_Type env \<and> Env_Data env = JObj kvs"
  by (auto simp: marshalEnvelope_def rawJson_def split: option.splits if_splits)

lemma marshalTrade_obj: "marshalTrade t = Some d \<Longrightarrow> \<exists>kvs. d = JObj kvs"
  by (auto simp: marshalTrade_def split: option.splits)

lemma traded_envelope:
  "marshalEnvelope env = Some x \<Longrightarrow>
   traded_event t x \<longleftrightarrow> Env_Type env = EventTradeExecuted \<and> marshalTrade t = Some (Env_Data env)"
  unfolding traded_event_def using envelope_inj marshalTrade_obj by metis

lemma trade_ids_inj:
  "marshalTrade t = Some d \<Longrightarrow> marshalTrade t' = Some d \<Longrightarrow>
   Trd_OrderID t' = Trd_OrderID t \<and> Trd_MatchOrderID t' = Trd_MatchOrderID t"
  by (auto simp: marshalTrade_def split: option.splits)

lemma event_types [simp]:
  "EventOrderCreated \<noteq> EventTradeExecuted" "EventOrderCanceled \<noteq> EventTradeExecuted"
  by (simp_all add: predix_const)

section \<open>What the steps put on the stream\<close>

text \<open>An emit cycle appends its own envelope or nothing, and the envelope when it reports success.\<close>

lemma emit_stream:
  assumes "emitEventP io p ty d b e = Some (ok, e')"
  shows "outStream e' = outStream e \<or> (\<exists>env x. marshalEnvelope env = Some x \<and> Env_Type env = ty \<and> Env_Data env = d
      \<and> outStream e' = outStream e @ [x])"
    and "ok \<Longrightarrow> \<not> isReplaying p e \<Longrightarrow> redisManager e \<Longrightarrow> outStream e' \<noteq> outStream e"
proof -
  have env: "Env_Type (stampEnvelope io p ty d e) = ty" "Env_Data (stampEnvelope io p ty d e) = d"
    by (simp_all add: stampEnvelope_def NewEnvelope_def)
  show "outStream e' = outStream e \<or> (\<exists>env x. marshalEnvelope env = Some x \<and> Env_Type env = ty \<and> Env_Data env = d
      \<and> outStream e' = outStream e @ [x])"
    using assms env
    by (auto simp: emitEventP_def Let_def case_prod_unfold outboxAppend_def publishEnvelope_def xaddEvent_def
        publishWS_def outboxReset_def split: if_splits option.splits)
  show "outStream e' \<noteq> outStream e" if "ok" "\<not> isReplaying p e" "redisManager e"
    using assms that
    by (auto simp: emitEventP_def Let_def case_prod_unfold outboxAppend_def publishEnvelope_def xaddEvent_def
        publishWS_def outboxReset_def applied_def split: if_splits option.splits)
qed

lemma emit_stamped:
  assumes "emitEventP io p ty d b e = Some (True, e')" "\<not> isReplaying p e" "redisManager e"
  obtains x where "marshalEnvelope (stampEnvelope io p ty d e) = Some x" "outStream e' = outStream e @ [x]"
  using assms
  by (auto simp: emitEventP_def Let_def case_prod_unfold outboxAppend_def publishEnvelope_def xaddEvent_def
      publishWS_def outboxReset_def applied_def split: if_splits option.splits)

text \<open>The critical sections do not write events.\<close>

definition silent :: "Engine \<Rightarrow> Engine \<Rightarrow> bool" where
  "silent e e' \<longleftrightarrow> same_outputs e e' \<and> redisManager e' = redisManager e"

lemma silent_refl [simp]: "silent e e"
  by (simp add: silent_def)

lemma match_silent: "matchOrder_locked tids nows i e = (trades, e') \<Longrightarrow> silent e e'"
  using match_outputs [of e tids nows i] match_config [of e tids nows i] by (simp add: silent_def same_config_def)

lemma admit_silent: "admit_locked ord e = (a, e') \<Longrightarrow> silent e e'"
  using admit_outputs [of ord e a e'] admit_config [of e ord] by (simp add: silent_def same_config_def)

lemma cancel_silent:
  assumes "cancel_locked i ev e = Some (Inr e')"
  shows "silent e e'"
proof -
  have "same_config e' (releaseOrderLocked i e')" for e' by simp
  then have "redisManager e' = redisManager e"
    using assms by (auto simp: cancel_locked_def Let_def same_config_def split: option.splits if_splits)
  with cancel_outputs [OF assms] show ?thesis by (simp add: silent_def)
qed

lemma handler_silent:
  "handleCreateEvent payload e = (resp, e') \<Longrightarrow> silent e e'"
  "handleUserCreated payload e = (resp, e') \<Longrightarrow> silent e e'"
  by (auto simp: handleCreateEvent_def handleUserCreated_def silent_def same_outputs_def split: option.splits if_splits)

section \<open>The invariant of the stream\<close>

text \<open>
  The engine reports its events: it has a Redis manager and no partition replays. What a worker has
  in hand was announced as far as its handler has come.
\<close>

definition reporting :: "Engine \<Rightarrow> bool" where
  "reporting e \<longleftrightarrow> redisManager e \<and> (\<forall>p. \<not> isReplaying p e)"

fun told :: "Json list \<Rightarrow> activity \<Rightarrow> bool" where
  "told stream (Emitting i d) \<longleftrightarrow> (\<exists>ord. marshalOrder ord = Some d \<and> Ord_ID ord = i)"
| "told stream (Matching i) \<longleftrightarrow> created_on stream i"
| "told stream (Publishing ts) \<longleftrightarrow>
     (\<forall>t\<in>set ts. created_on stream (Trd_OrderID t) \<and> created_on stream (Trd_MatchOrderID t))"
| "told stream _ \<longleftrightarrow> True"

definition stream_ok :: "Node \<Rightarrow> bool" where
  "stream_ok n \<longleftrightarrow> reporting (N_engine n) \<and> created_first (outStream (N_engine n))
     \<and> (\<forall>i. unlisted i (N_engine n) \<or> created_on (outStream (N_engine n)) i)
     \<and> (\<forall>p. told (outStream (N_engine n)) (N_at n p))"

lemma stream_okD:
  assumes "stream_ok n"
  shows "reporting (N_engine n)" "created_first (outStream (N_engine n))"
    "\<not> unlisted i (N_engine n) \<Longrightarrow> created_on (outStream (N_engine n)) i" "told (outStream (N_engine n)) (N_at n p)"
  using assms unfolding stream_ok_def by blast+

lemma told_append: "told xs a \<Longrightarrow> told (xs @ ys) a"
  by (cases a) auto

lemma stream_ok_silent:
  assumes n: "stream_ok n" and s: "silent (N_engine n) e"
    and u: "\<And>j. unlisted j (N_engine n) \<Longrightarrow> unlisted j e \<or> created_on (outStream (N_engine n)) j"
    and a: "told (outStream (N_engine n)) a"
  shows "stream_ok (goto p a e n)"
  using s a u stream_okD [OF n]
  by (auto simp: stream_ok_def silent_def same_outputs_def reporting_def isReplaying_def)

lemma reporting_emit:
  assumes "emitEventP io p ty d b e = Some (ok, e')"
  shows "reporting e' = reporting e" "unlisted i e' = unlisted i e"
  using emit_config [OF assms] emit_same_core [OF assms]
  by (simp_all add: reporting_def isReplaying_def unlisted_def same_core_def same_config_def)

lemma stream_ok_emit:
  assumes n: "stream_ok n" and e: "emitEventP io p ty d b (N_engine n) = Some (ok, e)"
    and t: "\<And>t. ty = EventTradeExecuted \<Longrightarrow> marshalTrade t = Some d \<Longrightarrow>
      created_on (outStream (N_engine n)) (Trd_OrderID t) \<and> created_on (outStream (N_engine n)) (Trd_MatchOrderID t)"
    and a: "told (outStream e) a"
  shows "stream_ok (goto p a e n)"
proof -
  let ?s = "outStream (N_engine n)"
  have "created_first (outStream e) \<and> (\<exists>ys. outStream e = ?s @ ys)"
    using emit_stream(1) [OF e] stream_okD(2) [OF n] t
    by (auto simp: created_first_snoc traded_envelope)
  with n a reporting_emit [OF e] show ?thesis
    unfolding stream_ok_def by (auto simp: told_append)
qed

lemma announce_told:
  assumes n: "stream_ok n" "N_at n p = Emitting i d"
    and e: "emitEventP io p EventOrderCreated d False (N_engine n) = Some (True, e)"
  shows "created_on (outStream e) i"
proof -
  obtain ord where ord: "marshalOrder ord = Some d" "Ord_ID ord = i" using stream_okD(4) [OF n(1), of p] n(2) by auto
  have "outStream e \<noteq> outStream (N_engine n)"
    using emit_stream(2) [OF e] stream_okD(1) [OF n(1)] by (simp add: reporting_def)
  then obtain env x where env: "marshalEnvelope env = Some x" "Env_Type env = EventOrderCreated" "Env_Data env = d"
    and s: "outStream e = outStream (N_engine n) @ [x]" using emit_stream(1) [OF e] by blast
  have "created_event i x" unfolding created_event_def using env ord by blast
  then show ?thesis by (simp add: s created_on_def)
qed

text \<open>A match trades with listed orders only, and lists no order but its own.\<close>

lemma match_trade_orders:
  assumes ok: "engine_ok e" and inc: "incoming_ok e i t market book"
    and tr: "tr \<in> set (matched_trades tids nows (orders e) book t)"
  shows "Trd_OrderID tr = i" "\<not> unlisted (Trd_MatchOrderID tr) e"
proof -
  obtain k r q where rq: "(r, q) \<in> set (allocation (orders e) book t)"
    and b: "tr = buildTrade (tids k) (nows k) t (deref (orders e) r) q"
    using tr set_trades_ofD unfolding matched_trades_def by blast
  show "Trd_OrderID tr = i" using incoming_order(1) [OF ok inc] by (simp add: b buildTrade_def)
  from allocation_maker [OF ok inc rq] obtain m where m: "orders e r = Some m" "order_ok r m"
    "r \<in> set (opposite (Ord_Side t) book)" by metis
  then have "Trd_MatchOrderID tr = r" by (simp add: b buildTrade_def order_ok_def)
  with m(3) inc show "\<not> unlisted (Trd_MatchOrderID tr) e"
    by (auto simp: unlisted_def incoming_ok_def opposite_def split: if_splits)
qed

lemma match_stream_ok:
  assumes ok: "node_ok n" and n: "stream_ok n" "N_at n p = Matching i" and f: "match_funded i (N_engine n)"
    and m: "matchOrder_locked tids nows i (N_engine n) = (trades, e)"
  shows "stream_ok (goto p (if isReplaying p e then Idle else Publishing trades) e n)"
proof -
  let ?e = "N_engine n" and ?s = "outStream (N_engine n)"
  have eok: "engine_ok ?e" and w: "waiting ?e i" and i: "created_on ?s i"
    using node_okD(1) [OF ok] node_okD(2) [OF ok, of p i] stream_okD(4) [OF n(1), of p] n(2) by simp_all
  show ?thesis
  proof (cases rule: waiting_incoming [OF eok w f, of tids nows])
    case 1
    with m show ?thesis by (intro stream_ok_silent [OF n(1)]) auto
  next
    case (2 t market book)
    have "trades = matched_trades tids nows (orders ?e) book t" by (rule match_effect(3) [OF eok 2 m])
    with match_trade_orders [OF eok 2(1)] stream_okD(3) [OF n(1)] i
    have "told ?s (Publishing trades)" by auto
    then have "told ?s (if isReplaying p e then Idle else Publishing trades)" by simp
    with unlisted_match [OF eok 2 m] i show ?thesis
      by (intro stream_ok_silent [OF n(1) match_silent [OF m]]) metis+
  qed
qed

lemma admit_unlisted:
  assumes "admit_locked ord e = (a, e')"
  shows "unlisted i e' = unlisted i e"
proof -
  obtain r o1 e1 where res: "reserveOrderLocked ord e = (r, o1, e1)" by (cases "reserveOrderLocked ord e") auto
  have "markets e1 = markets e"
    using res by (cases "Ord_Side ord = SideBuy") (auto simp: reserve_buy reserve_sell split: if_splits)
  with assms res have "markets e' = markets e" by (auto simp: admit_locked_def split: option.splits if_splits)
  then show ?thesis by (simp add: unlisted_def)
qed

lemma publish_stream_ok:
  assumes n: "stream_ok n" "N_at n p = Publishing (t # ts)"
    and e: "publishTrade io p t (N_engine n) = Some (ok, e)"
  shows "stream_ok (goto p (Publishing ts) e n)"
proof (cases "marshalTrade t")
  case None
  with n e stream_okD(4) [OF n(1), of p] show ?thesis
    by (intro stream_ok_silent [OF n(1)]) (auto simp: publishTrade_def)
next
  case (Some d)
  with e have em: "emitEventP io p EventTradeExecuted d True (N_engine n) = Some (ok, e)"
    by (simp add: publishTrade_def)
  have told: "told (outStream (N_engine n)) (Publishing (t # ts))" using stream_okD(4) [OF n(1), of p] n(2) by simp
  have "\<exists>ys. outStream e = outStream (N_engine n) @ ys" using emit_stream(1) [OF em] by auto
  with told have "told (outStream e) (Publishing ts)" by auto
  with told show ?thesis by (intro stream_ok_emit [OF n(1) em]) (auto dest: trade_ids_inj [OF Some])
qed

lemma node_step_stream:
  assumes "node_step n n'" "node_ok n" "stream_ok n"
  shows "stream_ok n'"
  using assms(1)
proof (cases rule: node_step.cases)
  case (admit p ord ord' e)
  then show ?thesis
    using admit_unlisted by (auto intro!: stream_ok_silent [OF assms(3)] admit_silent)
next
  case (refuse p ord a e)
  then show ?thesis
    using admit_unlisted by (auto intro!: stream_ok_silent [OF assms(3)] admit_silent)
next
  case (serialize p i d)
  have "waiting (N_engine n) i" using node_okD(2) [OF assms(2), of p i] serialize by simp
  then have "Ord_ID (deref (orders (N_engine n)) i) = i"
    using node_okD(1) [OF assms(2)] by (auto simp: waiting_def engine_ok_def orders_ok_def order_ok_def)
  with serialize show ?thesis by (auto intro!: stream_ok_silent [OF assms(3)])
next
  case (announce p i d io ok e)
  have "told (outStream e) (if ok then Matching i else Failing i)"
    using announce_told [OF assms(3)] announce by auto
  with announce show ?thesis by (auto intro!: stream_ok_emit [OF assms(3)])
next
  case (report p i io ok e)
  then show ?thesis by (auto intro!: stream_ok_emit [OF assms(3)])
next
  case (match p i tids nows trades e)
  then show ?thesis using match_stream_ok [OF assms(2,3)] by simp
next
  case (publish p t ts io ok e)
  then show ?thesis using publish_stream_ok [OF assms(3)] by simp
next
  case (cancel p i ev e)
  note c = node_okD(1) [OF assms(2)] cancel(3)
  show ?thesis unfolding cancel(1)
    using unlisted_cancel(1) [OF c] by (intro stream_ok_silent [OF assms(3) cancel_silent [OF cancel(3)]]) simp_all
next
  case (event p payload resp e)
  then show ?thesis
    using create_event_frame(2) [OF event(3)] handler_silent(1) [OF event(3)]
    by (auto intro!: stream_ok_silent [OF assms(3)])
next
  case (user p payload resp e)
  then show ?thesis
    using user_created_frame [OF user(4)] handler_silent(2) [OF user(4)]
    by (auto intro!: stream_ok_silent [OF assms(3)] simp: unlisted_def)
next
  case (drop p i)
  then show ?thesis
    by (auto intro!: stream_ok_silent [OF assms(3)] simp: silent_def same_outputs_def dropOrder_def unlisted_def)
qed (use assms(3) in \<open>auto intro!: stream_ok_silent simp: stream_ok_def reporting_def isReplaying_def unlisted_def\<close>)

lemma stream_ok_start:
  "stream_ok (all_idle e) \<longleftrightarrow> reporting e \<and> created_first (outStream e)
     \<and> (\<forall>i. unlisted i e \<or> created_on (outStream e) i)"
  by (simp add: stream_ok_def)

lemma interleaved_stream:
  assumes "interleaved e0 n" "engine_ok e0" "stream_ok (all_idle e0)"
  shows "stream_ok n"
  using assms(1)
proof (induction rule: interleaved.induct)
  case start
  then show ?case by (rule assms(3))
next
  case (step n n')
  then show ?case using node_step_stream interleaved_ok [OF _ assms(2)] by blast
qed

section \<open>Properties\<close>


end
