(* ===== verification/Db_Tables.thy ===== *)
theory Db_Tables
  imports Predix_Json
begin

text \<open>
  The Postgres tables (\<^verbatim>\<open>db/migrations\<close>) and the queries of \<^verbatim>\<open>internal/repository\<close> that the
  DB worker runs, as functions on a record of tables.

  A \<^verbatim>\<open>DECIMAL(20,8)\<close> column holds an integer number of \<open>10\<^sup>-\<^sup>8\<close> units of less than 20 digits.
  A statement checks the column ranges and the \<^verbatim>\<open>CHECK\<close> constraints, then the primary key, then
  the foreign keys, and changes nothing when it fails. UUIDs are their canonical text. The
  timestamps and the generated key of \<^verbatim>\<open>transactions\<close> are left out: no query reads them. The
  rounding of a numeric division is the parameter \<open>pg_div\<close>.
\<close>

section \<open>Numerics\<close>

record Numeric =
  Num_Int :: int
  Num_Exp :: int
  Num_Valid :: bool

definition numericFromInt :: "int \<Rightarrow> Numeric" where
  "numericFromInt v = \<lparr>Num_Int = v, Num_Exp = 0, Num_Valid = True\<rparr>"

definition numericFromScaled :: "int \<Rightarrow> Numeric" where
  "numericFromScaled v = \<lparr>Num_Int = v, Num_Exp = -4, Num_Valid = True\<rparr>"

text \<open>The value as a number of \<open>10\<^sup>-\<^sup>8\<close> units, and a column read back.\<close>

definition column :: "Numeric \<Rightarrow> int" where
  "column n = Num_Int n * 10 ^ nat (Num_Exp n + 8)"

definition from_column :: "int \<Rightarrow> Numeric" where
  "from_column c = \<lparr>Num_Int = c, Num_Exp = -8, Num_Valid = True\<rparr>"

definition fits :: "int \<Rightarrow> bool" where
  "fits c \<longleftrightarrow> \<bar>c\<bar> < 10 ^ 20"

text \<open>
  \<^verbatim>\<open>numericToInt64\<close>: the conversion to a float64 and back is exact for the whole counts a column
  of this range holds; a fraction is cut off.
\<close>

definition numericToInt64 :: "Numeric \<Rightarrow> int" where
  "numericToInt64 n =
     (if \<not> Num_Valid n then 0
      else let c = column n in if 0 \<le> c then c div 10 ^ 8 else - ((- c) div 10 ^ 8))"

section \<open>Tables\<close>

record OrderRow =
  OR_EventID :: string
  OR_UserID :: string
  OR_OrderType :: string
  OR_Outcome :: string
  OR_Side :: string
  OR_Quantity :: int
  OR_Price :: int
  OR_Status :: string
  OR_FilledQuantity :: int
  OR_RemainingQuantity :: int

record TradeRow =
  TR_EventID :: string
  TR_Outcome :: string
  TR_TakerOrderID :: string
  TR_MakerOrderID :: string
  TR_BuyerID :: string
  TR_SellerID :: string
  TR_TakerSide :: string
  TR_Quantity :: int
  TR_Price :: int

record TransactionRow =
  TX_UserID :: string
  TX_OrderID :: string
  TX_TradeID :: string
  TX_Type :: string
  TX_Outcome :: string
  TX_Quantity :: int
  TX_Price :: int
  TX_Amount :: int

record PositionRow =
  PR_Shares :: int
  PR_AvgPrice :: int

record DB =
  db_users :: "string \<rightharpoonup> int"
  db_events :: "string \<rightharpoonup> int"
  db_orders :: "string \<rightharpoonup> OrderRow"
  db_trades :: "string \<rightharpoonup> TradeRow"
  db_positions :: "(string \<times> string \<times> string) \<rightharpoonup> PositionRow"
  db_transactions :: "TransactionRow list"

datatype db_error = UniqueViolation | OtherViolation

definition valid_outcome :: "string \<Rightarrow> bool" where
  "valid_outcome oc \<longleftrightarrow> oc = ''YES'' \<or> oc = ''NO''"

definition valid_side :: "string \<Rightarrow> bool" where
  "valid_side s \<longleftrightarrow> s = ''BUY'' \<or> s = ''SELL''"

definition valid_status :: "string \<Rightarrow> bool" where
  "valid_status s \<longleftrightarrow> s = ''PENDING'' \<or> s = ''PARTIAL'' \<or> s = ''FILLED'' \<or> s = ''CANCELED'' \<or> s = ''REJECTED''"

section \<open>Queries\<close>

definition InsertOrder :: "string \<Rightarrow> OrderRow \<Rightarrow> DB \<Rightarrow> db_error + DB" where
  "InsertOrder oid row db =
     (if \<not> (fits (OR_Quantity row) \<and> fits (OR_Price row) \<and> fits (OR_FilledQuantity row) \<and>
             fits (OR_RemainingQuantity row) \<and>
             (OR_OrderType row = ''LIMIT'' \<or> OR_OrderType row = ''MARKET'') \<and>
             valid_outcome (OR_Outcome row) \<and> valid_side (OR_Side row) \<and>
             0 < OR_Quantity row \<and> 0 \<le> OR_Price row \<and> valid_status (OR_Status row))
        then Inl OtherViolation
      else if db_orders db oid \<noteq> None then Inl UniqueViolation
      else if db_events db (OR_EventID row) = None \<or> db_users db (OR_UserID row) = None
        then Inl OtherViolation
      else Inr (db\<lparr>db_orders := (db_orders db)(oid \<mapsto> row)\<rparr>))"

definition GetOrderByID :: "string \<Rightarrow> DB \<Rightarrow> OrderRow option" where
  "GetOrderByID oid db = db_orders db oid"

definition UpdateOrderFill :: "string \<Rightarrow> Numeric \<Rightarrow> string \<Rightarrow> DB \<Rightarrow> db_error + DB" where
  "UpdateOrderFill oid q status db =
     (case db_orders db oid of
        None \<Rightarrow> Inr db
      | Some row \<Rightarrow>
          (let filled = OR_FilledQuantity row + column q;
               remaining = max (OR_Quantity row - filled) 0
           in if \<not> (fits filled \<and> fits remaining \<and> valid_status status) then Inl OtherViolation
              else Inr (db\<lparr>db_orders := (db_orders db)(oid \<mapsto> row\<lparr>OR_FilledQuantity := filled,
                     OR_RemainingQuantity := remaining, OR_Status := status\<rparr>)\<rparr>)))"

definition UpdateOrderStatus :: "string \<Rightarrow> string \<Rightarrow> DB \<Rightarrow> db_error + DB" where
  "UpdateOrderStatus oid status db =
     (case db_orders db oid of
        None \<Rightarrow> Inr db
      | Some row \<Rightarrow>
          if \<not> valid_status status then Inl OtherViolation
          else Inr (db\<lparr>db_orders := (db_orders db)(oid \<mapsto> row\<lparr>OR_Status := status\<rparr>)\<rparr>))"

definition InsertTrade :: "string \<Rightarrow> TradeRow \<Rightarrow> DB \<Rightarrow> db_error + DB" where
  "InsertTrade tid row db =
     (if \<not> (fits (TR_Quantity row) \<and> fits (TR_Price row) \<and> valid_outcome (TR_Outcome row) \<and>
             valid_side (TR_TakerSide row))
        then Inl OtherViolation
      else if db_trades db tid \<noteq> None then Inl UniqueViolation
      else if db_events db (TR_EventID row) = None \<or> db_orders db (TR_TakerOrderID row) = None \<or>
              db_orders db (TR_MakerOrderID row) = None \<or> db_users db (TR_BuyerID row) = None \<or>
              db_users db (TR_SellerID row) = None
        then Inl OtherViolation
      else Inr (db\<lparr>db_trades := (db_trades db)(tid \<mapsto> row)\<rparr>))"

text \<open>\<^verbatim>\<open>DeductBalance\<close> also returns the number of rows it changed.\<close>

definition DeductBalance :: "string \<Rightarrow> Numeric \<Rightarrow> DB \<Rightarrow> db_error + nat \<times> DB" where
  "DeductBalance u n db =
     (case db_users db u of
        None \<Rightarrow> Inr (0, db)
      | Some b \<Rightarrow>
          if b < column n then Inr (0, db)
          else if \<not> fits (b - column n) then Inl OtherViolation
          else Inr (1, db\<lparr>db_users := (db_users db)(u \<mapsto> b - column n)\<rparr>))"

definition AddBalance :: "string \<Rightarrow> Numeric \<Rightarrow> DB \<Rightarrow> db_error + DB" where
  "AddBalance u n db =
     (case db_users db u of
        None \<Rightarrow> Inr db
      | Some b \<Rightarrow>
          if \<not> fits (b + column n) then Inl OtherViolation
          else Inr (db\<lparr>db_users := (db_users db)(u \<mapsto> b + column n)\<rparr>))"

text \<open>The position after an upsert of \<open>q\<close> shares at price \<open>p\<close>.\<close>

definition upsert_row :: "(int \<Rightarrow> int \<Rightarrow> int) \<Rightarrow> int \<Rightarrow> int \<Rightarrow> PositionRow option \<Rightarrow> PositionRow" where
  "upsert_row pg_div q p old =
     (case old of
        None \<Rightarrow> \<lparr>PR_Shares = q, PR_AvgPrice = p\<rparr>
      | Some r \<Rightarrow>
          \<lparr>PR_Shares = PR_Shares r + q,
           PR_AvgPrice = (if PR_Shares r + q = 0 then p
             else pg_div (PR_AvgPrice r * PR_Shares r + p * q) (PR_Shares r + q))\<rparr>)"

definition UpsertPosition ::
  "(int \<Rightarrow> int \<Rightarrow> int) \<Rightarrow> string \<Rightarrow> string \<Rightarrow> string \<Rightarrow> Numeric \<Rightarrow> Numeric \<Rightarrow> DB \<Rightarrow> db_error + DB" where
  "UpsertPosition pg_div u ev oc shares price db =
     (let row = upsert_row pg_div (column shares) (column price) (db_positions db (u, ev, oc))
      in if \<not> (fits (column shares) \<and> fits (column price) \<and> fits (PR_Shares row) \<and>
               fits (PR_AvgPrice row) \<and> valid_outcome oc)
           then Inl OtherViolation
         else if db_users db u = None \<or> db_events db ev = None then Inl OtherViolation
         else Inr (db\<lparr>db_positions := (db_positions db)((u, ev, oc) \<mapsto> row)\<rparr>))"

definition InsertTransaction :: "TransactionRow \<Rightarrow> DB \<Rightarrow> db_error + DB" where
  "InsertTransaction row db =
     (if \<not> (fits (TX_Quantity row) \<and> fits (TX_Price row) \<and> fits (TX_Amount row)) then Inl OtherViolation
      else if db_users db (TX_UserID row) = None \<or> db_orders db (TX_OrderID row) = None \<or>
              db_trades db (TX_TradeID row) = None
        then Inl OtherViolation
      else Inr (db\<lparr>db_transactions := db_transactions db @ [row]\<rparr>))"

definition IncrementEventVolume :: "string \<Rightarrow> Numeric \<Rightarrow> DB \<Rightarrow> db_error + DB" where
  "IncrementEventVolume ev n db =
     (case db_events db ev of
        None \<Rightarrow> Inr db
      | Some v \<Rightarrow>
          if \<not> fits (v + column n) then Inl OtherViolation
          else Inr (db\<lparr>db_events := (db_events db)(ev \<mapsto> v + column n)\<rparr>))"

section \<open>Lemmas\<close>

lemma column_Int [simp]: "column (numericFromInt v) = v * 10 ^ 8"
  by (simp add: column_def numericFromInt_def)

lemma column_Scaled [simp]: "column (numericFromScaled v) = v * 10 ^ 4"
  by (simp add: column_def numericFromScaled_def)

lemma column_from_column [simp]: "column (from_column c) = c"
  by (simp add: column_def from_column_def)

text \<open>A whole count survives the way into a column and back.\<close>

lemma numeric_roundtrip [simp]: "numericToInt64 (from_column (column (numericFromInt v))) = v"
proof -
  have "(- (v * 10 ^ 8)) div 10 ^ 8 = - v" by (simp flip: mult_minus_left)
  then show ?thesis
    by (simp add: numericToInt64_def Let_def from_column_def column_def numericFromInt_def)
qed

end
