(* ===== verification/Db_Worker.thy ===== *)
theory Db_Worker
  imports Db_Tables Engine_Handlers
begin

text \<open>
  The DB worker (\<^verbatim>\<open>internal/dbworker/worker.go\<close>): the fencing decision, the handlers of the three
  event types, the settlement transaction, and the consumer loop.

  \<open>parse\<close> is \<^verbatim>\<open>uuid.Parse\<close> (the canonical text of a UUID, or an error). \<open>DbIO\<close> holds the answers
  of the environment for one entry: the token Redis has for the partition, whether the transaction
  could be opened, whether the connection carried the \<open>k\<close>-th statement, the fate of the commit (an
  unacknowledged commit may have been applied), and whether the entry could be acknowledged.
\<close>

section \<open>Definitions\<close>

datatype fencingDecision = fencingAccept | fencingStale

definition fencingDecisionForToken :: "64 word \<Rightarrow> 64 word \<Rightarrow> fencingDecision" where
  "fencingDecisionForToken token current =
     (if token = 0 then fencingAccept
      else if token < current then fencingStale
      else fencingAccept)"

datatype token_read = TokenNil | TokenError | TokenIs "64 word"

definition fencing :: "token_read \<Rightarrow> EventEnvelope \<Rightarrow> fencingDecision option" where
  "fencing current envelope =
     (case current of
        TokenNil \<Rightarrow> Some fencingAccept
      | TokenError \<Rightarrow> None
      | TokenIs c \<Rightarrow> Some (fencingDecisionForToken (Env_FencingToken envelope) c))"

datatype worker_error =
    DecodeEnvelope | ReadFencingToken | DecodePayload | InvalidTrade string | InvalidID
  | BeginFailed | QueryFailed | InsufficientBuyerBalance | CommitFailed | AckFailed | GroupFailed

definition validateTrade :: "Trade \<Rightarrow> string option" where
  "validateTrade trade =
     (if Trd_ID trade = [] then Some ''trade id is required''
      else if Trd_EventID trade = [] then Some ''event id is required''
      else if Trd_OrderID trade = [] then Some ''taker order id is required''
      else if Trd_MatchOrderID trade = [] then Some ''maker order id is required''
      else if Trd_BuyerID trade = [] then Some ''buyer id is required''
      else if Trd_SellerID trade = [] then Some ''seller id is required''
      else if Trd_Outcome trade \<noteq> ''YES'' \<and> Trd_Outcome trade \<noteq> ''NO'' then Some ''invalid outcome''
      else if Trd_Quantity trade \<le> 0 then Some ''quantity must be greater than zero''
      else if Trd_Price trade < 0 then Some ''price cannot be negative''
      else None)"

record DbIO =
  Db_token :: token_read
  Db_begin :: bool
  Db_up :: "nat \<Rightarrow> bool"
  Db_commit :: io
  Db_ack :: bool

text \<open>A statement whose connection fails is an error; statements are chained until the first error.\<close>

definition exec :: "bool \<Rightarrow> (DB \<Rightarrow> db_error + 'a) \<Rightarrow> DB \<Rightarrow> db_error + 'a" where
  "exec up stmt db = (if up then stmt db else Inl OtherViolation)"

definition query :: "bool \<Rightarrow> (DB \<Rightarrow> db_error + DB) \<Rightarrow> worker_error + DB \<Rightarrow> worker_error + DB" where
  "query up stmt r =
     (case r of
        Inl err \<Rightarrow> Inl err
      | Inr db \<Rightarrow> (case exec up stmt db of Inl _ \<Rightarrow> Inl QueryFailed | Inr db' \<Rightarrow> Inr db'))"

text \<open>\<^verbatim>\<open>applyOrderFill\<close>; \<open>up1\<close> and \<open>up2\<close> are for its two statements.\<close>

definition fill_status :: "OrderRow \<Rightarrow> int \<Rightarrow> string" where
  "fill_status row fillQuantity =
     (if i64 (numericToInt64 (from_column (OR_FilledQuantity row)) + fillQuantity)
         \<ge> numericToInt64 (from_column (OR_Quantity row))
      then StatusFilled else StatusPartial)"

definition applyOrderFill ::
  "bool \<Rightarrow> bool \<Rightarrow> string \<Rightarrow> int \<Rightarrow> worker_error + DB \<Rightarrow> worker_error + DB" where
  "applyOrderFill up1 up2 oid fillQuantity r =
     (case r of
        Inl err \<Rightarrow> Inl err
      | Inr db \<Rightarrow>
          if \<not> up1 then Inl QueryFailed
          else
            (case GetOrderByID oid db of
               None \<Rightarrow> Inl QueryFailed
             | Some row \<Rightarrow>
                 query up2 (UpdateOrderFill oid (numericFromInt fillQuantity)
                   (fill_status row fillQuantity)) (Inr db)))"

definition deduct :: "bool \<Rightarrow> string \<Rightarrow> int \<Rightarrow> worker_error + DB \<Rightarrow> worker_error + DB" where
  "deduct up buyer amount r =
     (case r of
        Inl err \<Rightarrow> Inl err
      | Inr db \<Rightarrow>
          (case exec up (DeductBalance buyer (numericFromScaled amount)) db of
             Inl _ \<Rightarrow> Inl QueryFailed
           | Inr (tag, db') \<Rightarrow> if tag = 0 then Inl InsufficientBuyerBalance else Inr db'))"

text \<open>The six identifiers of a trade, parsed.\<close>

record TradeIDs =
  I_trade :: string
  I_event :: string
  I_buyer :: string
  I_seller :: string
  I_taker :: string
  I_maker :: string

definition parseTrade :: "(string \<Rightarrow> string option) \<Rightarrow> Trade \<Rightarrow> TradeIDs option" where
  "parseTrade parse trade =
     (case (parse (Trd_ID trade), parse (Trd_EventID trade), parse (Trd_BuyerID trade),
            parse (Trd_SellerID trade), parse (Trd_OrderID trade), parse (Trd_MatchOrderID trade)) of
        (Some t, Some ev, Some b, Some s, Some tk, Some mk) \<Rightarrow>
          Some \<lparr>I_trade = t, I_event = ev, I_buyer = b, I_seller = s, I_taker = tk, I_maker = mk\<rparr>
      | _ \<Rightarrow> None)"

definition tradeRow :: "TradeIDs \<Rightarrow> Trade \<Rightarrow> TradeRow" where
  "tradeRow ids trade =
     \<lparr>TR_EventID = I_event ids, TR_Outcome = Trd_Outcome trade, TR_TakerOrderID = I_taker ids,
      TR_MakerOrderID = I_maker ids, TR_BuyerID = I_buyer ids, TR_SellerID = I_seller ids,
      TR_TakerSide = Trd_TakerSide trade, TR_Quantity = column (numericFromInt (Trd_Quantity trade)),
      TR_Price = column (numericFromScaled (Trd_Price trade))\<rparr>"

definition transactionRow :: "string \<Rightarrow> string \<Rightarrow> string \<Rightarrow> string \<Rightarrow> int \<Rightarrow> Trade \<Rightarrow> TransactionRow" where
  "transactionRow user order tid kind amount trade =
     \<lparr>TX_UserID = user, TX_OrderID = order, TX_TradeID = tid, TX_Type = kind,
      TX_Outcome = Trd_Outcome trade, TX_Quantity = column (numericFromInt (Trd_Quantity trade)),
      TX_Price = column (numericFromScaled (Trd_Price trade)),
      TX_Amount = column (numericFromScaled amount)\<rparr>"

text \<open>The statements after the insertion of the trade, in the order of the source.\<close>

definition settle_rest ::
  "(int \<Rightarrow> int \<Rightarrow> int) \<Rightarrow> (nat \<Rightarrow> bool) \<Rightarrow> TradeIDs \<Rightarrow> Trade \<Rightarrow> DB \<Rightarrow> worker_error + DB" where
  "settle_rest pg_div up ids trade db =
     (let qty = Trd_Quantity trade; amount = i64 (Trd_Quantity trade * Trd_Price trade);
          price = numericFromScaled (Trd_Price trade); oc = Trd_Outcome trade;
          r2 = applyOrderFill (up 1) (up 2) (I_taker ids) qty (Inr db);
          r3 = applyOrderFill (up 3) (up 4) (I_maker ids) qty r2;
          r4 = deduct (up 5) (I_buyer ids) amount r3;
          r5 = query (up 6) (AddBalance (I_seller ids) (numericFromScaled amount)) r4;
          r6 = query (up 7) (UpsertPosition pg_div (I_buyer ids) (I_event ids) oc
                 (numericFromInt qty) price) r5;
          r7 = query (up 8) (UpsertPosition pg_div (I_seller ids) (I_event ids) oc
                 (numericFromInt (i64 (- qty))) price) r6;
          r8 = query (up 9) (InsertTransaction
                 (transactionRow (I_buyer ids) (I_taker ids) (I_trade ids) ''BUY'' amount trade)) r7;
          r9 = query (up 10) (InsertTransaction
                 (transactionRow (I_seller ids) (I_maker ids) (I_trade ids) ''SELL'' amount trade)) r8
      in query (up 11) (IncrementEventVolume (I_event ids) (numericFromScaled amount)) r9)"

text \<open>Everything before the commit works on the transaction's copy; a rollback drops it.\<close>

definition settleTrade ::
  "(string \<Rightarrow> string option) \<Rightarrow> (int \<Rightarrow> int \<Rightarrow> int) \<Rightarrow> DbIO \<Rightarrow> Trade \<Rightarrow> DB \<Rightarrow> worker_error option \<times> DB" where
  "settleTrade parse pg_div io trade db =
     (if \<not> Db_begin io then (Some BeginFailed, db)
      else
        (case parseTrade parse trade of
           None \<Rightarrow> (Some InvalidID, db)
         | Some ids \<Rightarrow>
             (case exec (Db_up io 0) (InsertTrade (I_trade ids) (tradeRow ids trade)) db of
                Inl UniqueViolation \<Rightarrow> (None, db)
              | Inl OtherViolation \<Rightarrow> (Some QueryFailed, db)
              | Inr db1 \<Rightarrow>
                  (case settle_rest pg_div (Db_up io) ids trade db1 of
                     Inl err \<Rightarrow> (Some err, db)
                   | Inr db2 \<Rightarrow>
                       (if Db_commit io = IoOk then None else Some CommitFailed,
                        if applied (Db_commit io) then db2 else db)))))"

definition handleTradeExecuted ::
  "(string \<Rightarrow> string option) \<Rightarrow> (int \<Rightarrow> int \<Rightarrow> int) \<Rightarrow> DbIO \<Rightarrow> EventEnvelope \<Rightarrow> DB \<Rightarrow> worker_error option \<times> DB" where
  "handleTradeExecuted parse pg_div io envelope db =
     (case unmarshalTrade (Env_Data envelope) of
        None \<Rightarrow> (Some DecodePayload, db)
      | Some trade \<Rightarrow>
          (case validateTrade trade of
             Some msg \<Rightarrow> (Some (InvalidTrade msg), db)
           | None \<Rightarrow> settleTrade parse pg_div io trade db))"

definition orderRow :: "string \<Rightarrow> string \<Rightarrow> Order \<Rightarrow> OrderRow" where
  "orderRow ev u ord =
     \<lparr>OR_EventID = ev, OR_UserID = u, OR_OrderType = Ord_OrderType ord, OR_Outcome = Ord_Outcome ord,
      OR_Side = Ord_Side ord, OR_Quantity = column (numericFromInt (Ord_Quantity ord)),
      OR_Price = column (numericFromScaled (Ord_Price ord)), OR_Status = Ord_Status ord,
      OR_FilledQuantity = column (numericFromInt (Ord_FilledQuantity ord)),
      OR_RemainingQuantity = column (numericFromInt (Ord_RemainingQuantity ord))\<rparr>"

text \<open>
  The statements outside a transaction commit on their own; \<open>Db_commit\<close> is their fate.
\<close>

definition autocommit :: "DbIO \<Rightarrow> (DB \<Rightarrow> db_error + DB) \<Rightarrow> DB \<Rightarrow> (db_error option \<times> DB)" where
  "autocommit io stmt db =
     (case exec (Db_up io 0) stmt db of
        Inl err \<Rightarrow> (Some err, db)
      | Inr db' \<Rightarrow>
          (if Db_commit io = IoOk then None else Some OtherViolation,
           if applied (Db_commit io) then db' else db))"

definition handleOrderCreated ::
  "(string \<Rightarrow> string option) \<Rightarrow> DbIO \<Rightarrow> EventEnvelope \<Rightarrow> DB \<Rightarrow> worker_error option \<times> DB" where
  "handleOrderCreated parse io envelope db =
     (case unmarshalOrder (Env_Data envelope) of
        None \<Rightarrow> (Some DecodePayload, db)
      | Some ord \<Rightarrow>
          (case (parse (Ord_ID ord), parse (Ord_EventID ord), parse (Ord_UserID ord)) of
             (Some oid, Some ev, Some u) \<Rightarrow>
               (case autocommit io (InsertOrder oid (orderRow ev u ord)) db of
                  (None, db') \<Rightarrow> (None, db')
                | (Some UniqueViolation, db') \<Rightarrow> (None, db')
                | (Some OtherViolation, db') \<Rightarrow> (Some QueryFailed, db'))
           | _ \<Rightarrow> (Some InvalidID, db)))"

definition handleOrderCanceled ::
  "(string \<Rightarrow> string option) \<Rightarrow> DbIO \<Rightarrow> EventEnvelope \<Rightarrow> DB \<Rightarrow> worker_error option \<times> DB" where
  "handleOrderCanceled parse io envelope db =
     (case decodeRequest [''orderId''] (Env_Data envelope) of
        None \<Rightarrow> (Some DecodePayload, db)
      | Some payload \<Rightarrow>
          (case parse (Req_OrderID payload) of
             None \<Rightarrow> (Some InvalidID, db)
           | Some oid \<Rightarrow>
               (case autocommit io (UpdateOrderStatus oid StatusCanceled) db of
                  (None, db') \<Rightarrow> (None, db')
                | (Some _, db') \<Rightarrow> (Some QueryFailed, db'))))"

definition handleEnvelope ::
  "(string \<Rightarrow> string option) \<Rightarrow> (int \<Rightarrow> int \<Rightarrow> int) \<Rightarrow> DbIO \<Rightarrow> EventEnvelope \<Rightarrow> DB \<Rightarrow> worker_error option \<times> DB" where
  "handleEnvelope parse pg_div io envelope db =
     (case fencing (Db_token io) envelope of
        None \<Rightarrow> (Some ReadFencingToken, db)
      | Some fencingStale \<Rightarrow> (None, db)
      | Some fencingAccept \<Rightarrow>
          if Env_Type envelope = EventTradeExecuted then handleTradeExecuted parse pg_div io envelope db
          else if Env_Type envelope = EventOrderCreated then handleOrderCreated parse io envelope db
          else if Env_Type envelope = EventOrderCanceled then handleOrderCanceled parse io envelope db
          else (None, db))"

text \<open>One stream entry: the error, whether the entry was acknowledged, and the tables.\<close>

definition processEventEntry ::
  "(string \<Rightarrow> string option) \<Rightarrow> (int \<Rightarrow> int \<Rightarrow> int) \<Rightarrow> DbIO \<Rightarrow> Json \<Rightarrow> DB \<Rightarrow> worker_error option \<times> bool \<times> DB" where
  "processEventEntry parse pg_div io rawEvent db =
     (case unmarshalEnvelope rawEvent of
        None \<Rightarrow> (Some DecodeEnvelope, False, db)
      | Some envelope \<Rightarrow>
          (case handleEnvelope parse pg_div io envelope db of
             (Some err, db') \<Rightarrow> (Some err, False, db')
           | (None, db') \<Rightarrow>
               if Db_ack io then (None, True, db') else (Some AckFailed, False, db')))"

text \<open>
  \<^verbatim>\<open>Run\<close> stops at the first entry that fails. The result of processing a list of entries holds the
  error and the tables, and the number of the next entry, which selects its answers of the
  environment.
\<close>

fun runEntries ::
  "(string \<Rightarrow> string option) \<Rightarrow> (int \<Rightarrow> int \<Rightarrow> int) \<Rightarrow> (nat \<Rightarrow> DbIO) \<Rightarrow> nat \<Rightarrow> Json list \<Rightarrow> DB \<Rightarrow>
     worker_error option \<times> nat \<times> DB" where
  "runEntries parse pg_div ios k [] db = (None, k, db)"
| "runEntries parse pg_div ios k (raw # raws) db =
     (case processEventEntry parse pg_div (ios k) raw db of
        (Some err, _, db') \<Rightarrow> (Some err, Suc k, db')
      | (None, _, db') \<Rightarrow> runEntries parse pg_div ios (Suc k) raws db')"

text \<open>The answers of Redis to the blocking reads of the group.\<close>

datatype event_read = EventBatch "Json list" | EventReadError | EventReadCanceled

fun runReads ::
  "(string \<Rightarrow> string option) \<Rightarrow> (int \<Rightarrow> int \<Rightarrow> int) \<Rightarrow> (nat \<Rightarrow> DbIO) \<Rightarrow> nat \<Rightarrow> event_read list \<Rightarrow> DB \<Rightarrow>
     worker_error option \<times> DB" where
  "runReads parse pg_div ios k [] db = (None, db)"
| "runReads parse pg_div ios k (EventReadCanceled # reads) db = (None, db)"
| "runReads parse pg_div ios k (EventReadError # reads) db = runReads parse pg_div ios k reads db"
| "runReads parse pg_div ios k (EventBatch raws # reads) db =
     (case runEntries parse pg_div ios k raws db of
        (Some err, _, db') \<Rightarrow> (Some err, db')
      | (None, k', db') \<Rightarrow> runReads parse pg_div ios k' reads db')"

text \<open>\<open>claimed\<close> is what \<^verbatim>\<open>XAUTOCLAIM\<close> returned, empty on an error.\<close>

definition Run ::
  "(string \<Rightarrow> string option) \<Rightarrow> (int \<Rightarrow> int \<Rightarrow> int) \<Rightarrow> (nat \<Rightarrow> DbIO) \<Rightarrow> bool \<Rightarrow> Json list \<Rightarrow> event_read list \<Rightarrow>
     DB \<Rightarrow> worker_error option \<times> DB" where
  "Run parse pg_div ios group_ok claimed reads db =
     (if \<not> group_ok then (Some GroupFailed, db)
      else
        (case runEntries parse pg_div ios 0 claimed db of
           (Some err, _, db') \<Rightarrow> (Some err, db')
         | (None, k, db') \<Rightarrow> runReads parse pg_div ios k reads db'))"

end
