(* ===== verification/Db_Settlement.thy ===== *)
theory Db_Settlement
  imports Db_Worker
begin

text \<open>
  What the DB worker does to the tables: a settlement is all or nothing, happens once per trade
  however often the event is delivered, and conserves cash and shares; stale events do not reach
  the tables; and where the code falls short of its comments.
\<close>

section \<open>The effect of a settlement\<close>

definition fill_row :: "int \<Rightarrow> OrderRow \<Rightarrow> OrderRow" where
  "fill_row q row = row\<lparr>OR_FilledQuantity := OR_FilledQuantity row + q * 10 ^ 8,
     OR_RemainingQuantity := max (OR_Quantity row - (OR_FilledQuantity row + q * 10 ^ 8)) 0,
     OR_Status := fill_status row q\<rparr>"

definition change :: "('v \<Rightarrow> 'v) \<Rightarrow> 'k \<Rightarrow> ('k \<rightharpoonup> 'v) \<Rightarrow> ('k \<rightharpoonup> 'v)" where
  "change f k m = m(k \<mapsto> f (the (m k)))"

definition hold ::
  "(int \<Rightarrow> int \<Rightarrow> int) \<Rightarrow> int \<Rightarrow> int \<Rightarrow> 'k \<Rightarrow> ('k \<rightharpoonup> PositionRow) \<Rightarrow> ('k \<rightharpoonup> PositionRow)" where
  "hold pg_div q p k m = m(k \<mapsto> upsert_row pg_div (q * 10 ^ 8) (p * 10 ^ 4) (m k))"

text \<open>The tables after a trade was settled, written down at once.\<close>

definition settled :: "(int \<Rightarrow> int \<Rightarrow> int) \<Rightarrow> TradeIDs \<Rightarrow> Trade \<Rightarrow> DB \<Rightarrow> DB" where
  "settled pg_div ids t db =
     (let q = Trd_Quantity t; p = Trd_Price t; a = i64 (Trd_Quantity t * Trd_Price t);
          key = (\<lambda>u. (u, I_event ids, Trd_Outcome t))
      in db\<lparr>db_users := change (\<lambda>b. b + a * 10 ^ 4) (I_seller ids)
               (change (\<lambda>b. b - a * 10 ^ 4) (I_buyer ids) (db_users db)),
            db_events := change (\<lambda>v. v + a * 10 ^ 4) (I_event ids) (db_events db),
            db_orders := change (fill_row q) (I_maker ids) (change (fill_row q) (I_taker ids) (db_orders db)),
            db_trades := (db_trades db)(I_trade ids \<mapsto> tradeRow ids t),
            db_positions := hold pg_div (i64 (- q)) p (key (I_seller ids))
               (hold pg_div q p (key (I_buyer ids)) (db_positions db)),
            db_transactions := db_transactions db @
              [transactionRow (I_buyer ids) (I_taker ids) (I_trade ids) ''BUY'' a t,
               transactionRow (I_seller ids) (I_maker ids) (I_trade ids) ''SELL'' a t]\<rparr>)"

lemma query_Inr: "query up stmt r = Inr db' \<longleftrightarrow> (\<exists>db. r = Inr db \<and> up \<and> stmt db = Inr db')"
  by (auto simp: query_def exec_def split: sum.splits)

lemma UpdateOrderFill_Inr:
  "db_orders db oid = Some row \<Longrightarrow> UpdateOrderFill oid (numericFromInt q) (fill_status row q) db = Inr db' \<Longrightarrow>
     db' = db\<lparr>db_orders := change (fill_row q) oid (db_orders db)\<rparr>"
  by (auto simp: UpdateOrderFill_def fill_row_def change_def Let_def split: if_splits)

lemma applyOrderFill_Inr:
  assumes "applyOrderFill up1 up2 oid q r = Inr db'"
  shows "\<exists>db row. r = Inr db \<and> db_orders db oid = Some row \<and>
    db' = db\<lparr>db_orders := change (fill_row q) oid (db_orders db)\<rparr>"
  using assms UpdateOrderFill_Inr
  by (auto simp: applyOrderFill_def GetOrderByID_def query_Inr split: sum.splits option.splits if_splits)

lemma deduct_Inr:
  assumes "deduct up u a r = Inr db'"
  shows "\<exists>db bal. r = Inr db \<and> db_users db u = Some bal \<and> a * 10 ^ 4 \<le> bal \<and>
    db' = db\<lparr>db_users := change (\<lambda>b. b - a * 10 ^ 4) u (db_users db)\<rparr>"
  using assms
  by (auto simp: deduct_def exec_def DeductBalance_def change_def split: sum.splits option.splits if_splits)

lemma AddBalance_Inr:
  "db_users db u \<noteq> None \<Longrightarrow> AddBalance u (numericFromScaled a) db = Inr db' \<Longrightarrow>
     db' = db\<lparr>db_users := change (\<lambda>b. b + a * 10 ^ 4) u (db_users db)\<rparr>"
  by (auto simp: AddBalance_def change_def split: if_splits)

lemma UpsertPosition_Inr:
  "UpsertPosition pg_div u ev oc (numericFromInt q) (numericFromScaled p) db = Inr db' \<Longrightarrow>
     db' = db\<lparr>db_positions := hold pg_div q p (u, ev, oc) (db_positions db)\<rparr>"
  by (auto simp: UpsertPosition_def hold_def Let_def split: if_splits)

lemma InsertTransaction_Inr:
  "InsertTransaction row db = Inr db' \<Longrightarrow> db' = db\<lparr>db_transactions := db_transactions db @ [row]\<rparr>"
  by (auto simp: InsertTransaction_def split: if_splits)

lemma IncrementEventVolume_Inr:
  "db_events db ev \<noteq> None \<Longrightarrow> IncrementEventVolume ev (numericFromScaled a) db = Inr db' \<Longrightarrow>
     db' = db\<lparr>db_events := change (\<lambda>v. v + a * 10 ^ 4) ev (db_events db)\<rparr>"
  by (auto simp: IncrementEventVolume_def change_def split: if_splits)

lemma InsertTrade_Inr:
  "InsertTrade tid row db = Inr db' \<Longrightarrow>
     db_trades db tid = None \<and> db_events db (TR_EventID row) \<noteq> None \<and> db_users db (TR_BuyerID row) \<noteq> None \<and>
     db_users db (TR_SellerID row) \<noteq> None \<and> valid_outcome (TR_Outcome row) \<and>
     db' = db\<lparr>db_trades := (db_trades db)(tid \<mapsto> row)\<rparr>"
  by (auto simp: InsertTrade_def split: if_splits)

text \<open>The intermediate tables of a settlement that goes through.\<close>

lemma settle_rest_steps:
  assumes rest: "settle_rest pg_div up ids t db1 = Inr db2"
  defines "a \<equiv> i64 (Trd_Quantity t * Trd_Price t)"
  obtains d2 d3 d4 d5 d6 d7 d8 d9 bal where
    "d2 = db1\<lparr>db_orders := change (fill_row (Trd_Quantity t)) (I_taker ids) (db_orders db1)\<rparr>"
    "d3 = d2\<lparr>db_orders := change (fill_row (Trd_Quantity t)) (I_maker ids) (db_orders d2)\<rparr>"
    "db_users d3 (I_buyer ids) = Some bal" "a * 10 ^ 4 \<le> bal"
    "d4 = d3\<lparr>db_users := change (\<lambda>b. b - a * 10 ^ 4) (I_buyer ids) (db_users d3)\<rparr>"
    "AddBalance (I_seller ids) (numericFromScaled a) d4 = Inr d5"
    "UpsertPosition pg_div (I_buyer ids) (I_event ids) (Trd_Outcome t)
      (numericFromInt (Trd_Quantity t)) (numericFromScaled (Trd_Price t)) d5 = Inr d6"
    "UpsertPosition pg_div (I_seller ids) (I_event ids) (Trd_Outcome t)
      (numericFromInt (i64 (- Trd_Quantity t))) (numericFromScaled (Trd_Price t)) d6 = Inr d7"
    "InsertTransaction (transactionRow (I_buyer ids) (I_taker ids) (I_trade ids) ''BUY'' a t) d7 = Inr d8"
    "InsertTransaction (transactionRow (I_seller ids) (I_maker ids) (I_trade ids) ''SELL'' a t) d8 = Inr d9"
    "IncrementEventVolume (I_event ids) (numericFromScaled a) d9 = Inr db2"
proof -
  from rest obtain d9 d8 d7 d6 d5 d4 where
    r4: "deduct (up 5) (I_buyer ids) a (applyOrderFill (up 3) (up 4) (I_maker ids) (Trd_Quantity t)
        (applyOrderFill (up 1) (up 2) (I_taker ids) (Trd_Quantity t) (Inr db1))) = Inr d4"
    and r5: "AddBalance (I_seller ids) (numericFromScaled a) d4 = Inr d5"
      "UpsertPosition pg_div (I_buyer ids) (I_event ids) (Trd_Outcome t)
        (numericFromInt (Trd_Quantity t)) (numericFromScaled (Trd_Price t)) d5 = Inr d6"
      "UpsertPosition pg_div (I_seller ids) (I_event ids) (Trd_Outcome t)
        (numericFromInt (i64 (- Trd_Quantity t))) (numericFromScaled (Trd_Price t)) d6 = Inr d7"
      "InsertTransaction (transactionRow (I_buyer ids) (I_taker ids) (I_trade ids) ''BUY'' a t) d7 = Inr d8"
      "InsertTransaction (transactionRow (I_seller ids) (I_maker ids) (I_trade ids) ''SELL'' a t) d8 = Inr d9"
      "IncrementEventVolume (I_event ids) (numericFromScaled a) d9 = Inr db2"
    unfolding settle_rest_def Let_def query_Inr a_def by blast
  from deduct_Inr [OF r4] obtain d3 bal where
    R3: "applyOrderFill (up 3) (up 4) (I_maker ids) (Trd_Quantity t)
        (applyOrderFill (up 1) (up 2) (I_taker ids) (Trd_Quantity t) (Inr db1)) = Inr d3"
    and b: "db_users d3 (I_buyer ids) = Some bal" "a * 10 ^ 4 \<le> bal"
      "d4 = d3\<lparr>db_users := change (\<lambda>b. b - a * 10 ^ 4) (I_buyer ids) (db_users d3)\<rparr>" by blast
  from applyOrderFill_Inr [OF R3] obtain d2 where
    R2: "applyOrderFill (up 1) (up 2) (I_taker ids) (Trd_Quantity t) (Inr db1) = Inr d2"
    and d3: "d3 = d2\<lparr>db_orders := change (fill_row (Trd_Quantity t)) (I_maker ids) (db_orders d2)\<rparr>" by blast
  from applyOrderFill_Inr [OF R2]
  have d2: "d2 = db1\<lparr>db_orders := change (fill_row (Trd_Quantity t)) (I_taker ids) (db_orders db1)\<rparr>" by auto
  show thesis by (rule that [OF d2 d3 b r5])
qed

lemma settle_rest_Inr:
  assumes ins: "InsertTrade (I_trade ids) (tradeRow ids t) db = Inr db1"
    and rest: "settle_rest pg_div up ids t db1 = Inr db2"
  shows "db2 = settled pg_div ids t db"
    and "\<exists>bal. db_users db (I_buyer ids) = Some bal \<and> i64 (Trd_Quantity t * Trd_Price t) * 10 ^ 4 \<le> bal"
proof -
  let ?a = "i64 (Trd_Quantity t * Trd_Price t)"
  note I = InsertTrade_Inr [OF ins]
  from settle_rest_steps [OF rest] obtain d2 d3 d4 d5 d6 d7 d8 d9 bal where
    d2: "d2 = db1\<lparr>db_orders := change (fill_row (Trd_Quantity t)) (I_taker ids) (db_orders db1)\<rparr>"
    and d3: "d3 = d2\<lparr>db_orders := change (fill_row (Trd_Quantity t)) (I_maker ids) (db_orders d2)\<rparr>"
    and b: "db_users d3 (I_buyer ids) = Some bal" "?a * 10 ^ 4 \<le> bal"
    and d4: "d4 = d3\<lparr>db_users := change (\<lambda>b. b - ?a * 10 ^ 4) (I_buyer ids) (db_users d3)\<rparr>"
    and r5: "AddBalance (I_seller ids) (numericFromScaled ?a) d4 = Inr d5"
    and r6: "UpsertPosition pg_div (I_buyer ids) (I_event ids) (Trd_Outcome t)
      (numericFromInt (Trd_Quantity t)) (numericFromScaled (Trd_Price t)) d5 = Inr d6"
    and r7: "UpsertPosition pg_div (I_seller ids) (I_event ids) (Trd_Outcome t)
      (numericFromInt (i64 (- Trd_Quantity t))) (numericFromScaled (Trd_Price t)) d6 = Inr d7"
    and r8: "InsertTransaction (transactionRow (I_buyer ids) (I_taker ids) (I_trade ids) ''BUY'' ?a t) d7 = Inr d8"
    and r9: "InsertTransaction (transactionRow (I_seller ids) (I_maker ids) (I_trade ids) ''SELL'' ?a t) d8 = Inr d9"
    and r10: "IncrementEventVolume (I_event ids) (numericFromScaled ?a) d9 = Inr db2" .
  have e: "db_users db (I_seller ids) \<noteq> None" "db_events db (I_event ids) \<noteq> None"
    using I by (simp_all add: tradeRow_def)
  have "db_users d4 (I_seller ids) \<noteq> None"
    using e(1) I by (simp add: d4 d3 d2 change_def)
  note d5 = AddBalance_Inr [OF this r5]
  note d6 = UpsertPosition_Inr [OF r6] and d7 = UpsertPosition_Inr [OF r7]
  note d8 = InsertTransaction_Inr [OF r8] and d9 = InsertTransaction_Inr [OF r9]
  have "db_events d9 (I_event ids) \<noteq> None"
    using e(2) I by (simp add: d9 d8 d7 d6 d5 d4 d3 d2)
  note d10 = IncrementEventVolume_Inr [OF this r10]
  show "db2 = settled pg_div ids t db"
    using I by (simp add: d10 d9 d8 d7 d6 d5 d4 d3 d2 settled_def Let_def)
  show "\<exists>bal. db_users db (I_buyer ids) = Some bal \<and> ?a * 10 ^ 4 \<le> bal"
    using b I by (simp add: d3 d2)
qed

text \<open>The cases of \<open>settleTrade\<close>: nothing happened, or the whole settlement did.\<close>

lemma settleTrade_cases:
  assumes "settleTrade parse pg_div io t db = (err, db')"
  obtains (unchanged) "db' = db"
      "err = None \<longrightarrow> (\<exists>ids. parseTrade parse t = Some ids \<and> db_trades db (I_trade ids) \<noteq> None)"
  | (settled) ids bal where "parseTrade parse t = Some ids" "db_trades db (I_trade ids) = None"
      "db' = settled pg_div ids t db" "applied (Db_commit io)" "valid_outcome (Trd_Outcome t)"
      "db_users db (I_buyer ids) = Some bal" "i64 (Trd_Quantity t * Trd_Price t) * 10 ^ 4 \<le> bal"
      "db_users db (I_seller ids) \<noteq> None" "db_events db (I_event ids) \<noteq> None"
proof (cases "db' = db \<and> (err = None \<longrightarrow> (\<exists>ids. parseTrade parse t = Some ids \<and> db_trades db (I_trade ids) \<noteq> None))")
  case True
  then show thesis using unchanged by blast
next
  case False
  then obtain ids db1 db2 where p: "parseTrade parse t = Some ids"
    and ins: "InsertTrade (I_trade ids) (tradeRow ids t) db = Inr db1"
    and rest: "settle_rest pg_div (Db_up io) ids t db1 = Inr db2"
    and db': "applied (Db_commit io)" "db' = db2"
    using assms
    by (auto simp: settleTrade_def exec_def InsertTrade_def applied_def
        split: if_splits option.splits sum.splits db_error.splits)
  note S = settle_rest_Inr [OF ins rest]
  note I = InsertTrade_Inr [OF ins]
  from S(2) obtain bal where "db_users db (I_buyer ids) = Some bal"
    "i64 (Trd_Quantity t * Trd_Price t) * 10 ^ 4 \<le> bal" by blast
  with p I db' S(1) show thesis by (intro settled) (auto simp: tradeRow_def)
qed

section \<open>Conservation\<close>

definition total_balance :: "DB \<Rightarrow> int" where
  "total_balance db = sum_map (\<lambda>b. b) (db_users db)"

definition total_holdings :: "DB \<Rightarrow> int" where
  "total_holdings db = sum_map PR_Shares (db_positions db)"

text \<open>A trade is booked by one BUY and one SELL entry of the same amount.\<close>

definition booked :: "string \<Rightarrow> TradeRow \<Rightarrow> TransactionRow list \<Rightarrow> bool" where
  "booked tid row xs \<longleftrightarrow> (\<exists>a.
     xs = [\<lparr>TX_UserID = TR_BuyerID row, TX_OrderID = TR_TakerOrderID row, TX_TradeID = tid, TX_Type = ''BUY'',
             TX_Outcome = TR_Outcome row, TX_Quantity = TR_Quantity row, TX_Price = TR_Price row, TX_Amount = a\<rparr>,
           \<lparr>TX_UserID = TR_SellerID row, TX_OrderID = TR_MakerOrderID row, TX_TradeID = tid, TX_Type = ''SELL'',
             TX_Outcome = TR_Outcome row, TX_Quantity = TR_Quantity row, TX_Price = TR_Price row, TX_Amount = a\<rparr>])"

definition db_ok :: "DB \<Rightarrow> bool" where
  "db_ok db \<longleftrightarrow> finite (dom (db_users db)) \<and> finite (dom (db_positions db)) \<and>
     (\<forall>tid. case db_trades db tid of
        None \<Rightarrow> filter (\<lambda>x. TX_TradeID x = tid) (db_transactions db) = []
      | Some row \<Rightarrow> booked tid row (filter (\<lambda>x. TX_TradeID x = tid) (db_transactions db)))"

lemma sum_change:
  "finite (dom m) \<Longrightarrow> m k = Some v \<Longrightarrow> sum_map f (change g k m) = sum_map f m - f v + f (g v)"
  by (simp add: change_def sum_map_upd)

lemma dom_change: "m k \<noteq> None \<Longrightarrow> dom (change g k m) = dom m"
  by (auto simp: change_def)

lemma sum_hold:
  "finite (dom m) \<Longrightarrow> sum_map PR_Shares (hold d q p k m) = sum_map PR_Shares m + q * 10 ^ 8"
  by (cases "m k") (simp_all add: hold_def sum_map_upd upsert_row_def)

lemma finite_hold: "finite (dom m) \<Longrightarrow> finite (dom (hold d q p k m))"
  by (simp add: hold_def)

lemma settled_conserves:
  assumes fin: "finite (dom (db_users db))" "finite (dom (db_positions db))"
    and u: "db_users db (I_buyer ids) = Some bal" "db_users db (I_seller ids) \<noteq> None"
    and q: "in_i64 (- Trd_Quantity t)"
  shows "total_balance (settled d ids t db) = total_balance db"
    "total_holdings (settled d ids t db) = total_holdings db"
proof -
  let ?a = "i64 (Trd_Quantity t * Trd_Price t)"
  define m1 where "m1 = change (\<lambda>b. b - ?a * 10 ^ 4) (I_buyer ids) (db_users db)"
  have "m1 (I_seller ids) \<noteq> None" using u(2) by (simp add: m1_def change_def)
  then obtain s where s: "m1 (I_seller ids) = Some s" by auto
  have "finite (dom m1)" using fin(1) u(1) by (simp add: m1_def dom_change)
  from sum_change [OF this s] sum_change [OF fin(1) u(1)]
  show "total_balance (settled d ids t db) = total_balance db"
    by (simp add: total_balance_def settled_def Let_def m1_def)
  show "total_holdings (settled d ids t db) = total_holdings db"
    using fin(2) i64_id [OF q] by (simp add: total_holdings_def settled_def Let_def sum_hold finite_hold)
qed

lemma settled_ok:
  assumes ok: "db_ok db" and new: "db_trades db (I_trade ids) = None"
    and u: "db_users db (I_buyer ids) = Some bal" "db_users db (I_seller ids) \<noteq> None"
  shows "db_ok (settled d ids t db)"
proof -
  have "finite (dom (db_users (settled d ids t db)))" "finite (dom (db_positions (settled d ids t db)))"
    using ok by (simp_all add: db_ok_def settled_def Let_def change_def hold_def)
  moreover have "case db_trades (settled d ids t db) tid of
        None \<Rightarrow> filter (\<lambda>x. TX_TradeID x = tid) (db_transactions (settled d ids t db)) = []
      | Some row \<Rightarrow> booked tid row (filter (\<lambda>x. TX_TradeID x = tid) (db_transactions (settled d ids t db)))" for tid
  proof (cases "tid = I_trade ids")
    case True
    have "filter (\<lambda>x. TX_TradeID x = I_trade ids) (db_transactions db) = []"
      using ok new by (auto simp: db_ok_def split: option.splits dest: spec [of _ "I_trade ids"])
    with True show ?thesis
      by (simp add: settled_def Let_def booked_def transactionRow_def tradeRow_def)
  next
    case False
    then have f: "db_trades (settled d ids t db) tid = db_trades db tid"
      "filter (\<lambda>x. TX_TradeID x = tid) (db_transactions (settled d ids t db)) =
        filter (\<lambda>x. TX_TradeID x = tid) (db_transactions db)"
      by (simp_all add: settled_def Let_def transactionRow_def)
    show ?thesis using ok unfolding db_ok_def f by blast
  qed
  ultimately show ?thesis unfolding db_ok_def by blast
qed

text \<open>A step of the worker that keeps the tables in order.\<close>

definition sound_step :: "DB \<Rightarrow> DB \<Rightarrow> bool" where
  "sound_step db db' \<longleftrightarrow> (db_ok db \<longrightarrow> db_ok db' \<and> total_balance db' = total_balance db \<and>
     total_holdings db' = total_holdings db)"

lemma sound_step_refl [simp]: "sound_step db db"
  by (simp add: sound_step_def)

lemma sound_step_trans: "sound_step a b \<Longrightarrow> sound_step b c \<Longrightarrow> sound_step a c"
  by (auto simp: sound_step_def)

lemma sound_step_orders [simp]: "sound_step db (db\<lparr>db_orders := x\<rparr>)"
  by (simp add: sound_step_def db_ok_def total_balance_def total_holdings_def cong: option.case_cong)

lemma decoded_quantity: "unmarshalTrade j = Some t \<Longrightarrow> in_i64 (Trd_Quantity t)"
proof -
  have f: "set_Trade_field k v r = Some r' \<Longrightarrow> in_i64 (Trd_Quantity r) \<Longrightarrow> in_i64 (Trd_Quantity r')" for k v r r'
    by (cases v) (auto simp: set_Trade_field_def split: if_splits)
  have "in_i64 (Trd_Quantity zeroTrade)" by (simp add: zeroTrade_def in_i64_def)
  moreover assume "unmarshalTrade j = Some t"
  ultimately show ?thesis
    using dec_members_inv [of set_Trade_field "\<lambda>r. in_i64 (Trd_Quantity r)", OF f]
    by (cases j) (auto simp: unmarshalTrade_def)
qed

lemma settleTrade_sound:
  assumes "settleTrade parse pg_div io t db = (err, db')" and "in_i64 (- Trd_Quantity t)"
  shows "sound_step db db'"
  using assms(1)
proof (cases rule: settleTrade_cases)
  case (settled ids bal)
  show ?thesis
    unfolding sound_step_def settled(3)
    using settled_ok [OF _ settled(2,6,8)] settled_conserves [OF _ _ settled(6,8) assms(2)]
    by (auto simp: db_ok_def)
qed simp

lemma autocommit_cases:
  "autocommit io stmt db = (err, db') \<Longrightarrow> db' = db \<or> stmt db = Inr db'"
  by (auto simp: autocommit_def exec_def split: sum.splits if_splits)

lemma handleEnvelope_sound:
  assumes h: "handleEnvelope parse pg_div io env db = (err, db')"
  shows "sound_step db db'"
proof -
  have tr: "sound_step db db'" if "handleTradeExecuted parse pg_div io env db = (err, db')"
  proof -
    have "in_i64 (- Trd_Quantity t)" if "unmarshalTrade (Env_Data env) = Some t" "validateTrade t = None" for t
      using decoded_quantity [OF that(1)] that(2) by (auto simp: validateTrade_def in_i64_def split: if_splits)
    with that settleTrade_sound show ?thesis
      by (fastforce simp: handleTradeExecuted_def split: option.splits)
  qed
  have cr: "sound_step db db'" if "handleOrderCreated parse io env db = (err, db')"
  proof -
    have "sound_step db x" if "autocommit io (InsertOrder oid row) db = (r, x)" for oid row r x
      using autocommit_cases [OF that] by (auto simp: InsertOrder_def split: if_splits)
    with that show ?thesis
      by (auto simp: handleOrderCreated_def split: option.splits prod.splits db_error.splits)
  qed
  have ca: "sound_step db db'" if "handleOrderCanceled parse io env db = (err, db')"
  proof -
    have "sound_step db x" if "autocommit io (UpdateOrderStatus oid s) db = (r, x)" for oid s r x
      using autocommit_cases [OF that] by (auto simp: UpdateOrderStatus_def split: if_splits option.splits)
    with that show ?thesis
      by (auto simp: handleOrderCanceled_def split: option.splits prod.splits)
  qed
  show ?thesis
    using h tr cr ca
    by (auto simp: handleEnvelope_def split: option.splits fencingDecision.splits if_splits)
qed

lemma processEventEntry_sound: "processEventEntry parse pg_div io raw db = (err, ack, db') \<Longrightarrow> sound_step db db'"
  by (auto simp: processEventEntry_def split: option.splits prod.splits if_splits dest: handleEnvelope_sound)

lemma runEntries_sound: "runEntries parse pg_div ios k raws db = (err, k', db') \<Longrightarrow> sound_step db db'"
proof (induction raws arbitrary: k db)
  case (Cons raw raws)
  obtain e1 ack d1 where p: "processEventEntry parse pg_div (ios k) raw db = (e1, ack, d1)"
    by (cases "processEventEntry parse pg_div (ios k) raw db")
  note s = processEventEntry_sound [OF p]
  show ?case
  proof (cases e1)
    case None
    with Cons.prems p have "runEntries parse pg_div ios (Suc k) raws d1 = (err, k', db')" by simp
    from sound_step_trans [OF s Cons.IH [OF this]] show ?thesis .
  qed (use Cons.prems p s in auto)
qed simp

lemma runReads_sound: "runReads parse pg_div ios k reads db = (err, db') \<Longrightarrow> sound_step db db'"
proof (induction parse pg_div ios k reads db rule: runReads.induct)
  case (4 parse pg_div ios k raws reads db)
  obtain e1 k1 d1 where r: "runEntries parse pg_div ios k raws db = (e1, k1, d1)"
    by (cases "runEntries parse pg_div ios k raws db")
  note s = runEntries_sound [OF r]
  show ?case
  proof (cases e1)
    case None
    with 4(2) r have "runReads parse pg_div ios k1 reads d1 = (err, db')" by simp
    from sound_step_trans [OF s 4(1) [OF r [symmetric] None refl this]] show ?thesis by simp
  qed (use 4(2) r s in auto)
qed auto

section \<open>Properties\<close>

text \<open>
C16: A settlement is all or nothing. Whatever the database and the network do, the tables
afterwards are the ones before, or they hold the whole settlement of a trade that was not there
before: the trade, the fills of both orders, the payment, both positions, both ledger entries and
the event volume. Success is reported only for a trade that is in the table.
\<close>

theorem settleTrade_atomic:
  assumes "settleTrade parse pg_div io t db = (err, db')"
  shows "(db' = db \<or> (\<exists>ids. parseTrade parse t = Some ids \<and> db_trades db (I_trade ids) = None \<and>
      db' = settled pg_div ids t db)) \<and>
    (err = None \<longrightarrow> (\<exists>ids. parseTrade parse t = Some ids \<and> db_trades db' (I_trade ids) \<noteq> None))"
  using assms
proof (cases rule: settleTrade_cases)
  case (settled ids bal)
  then show ?thesis by (auto simp: settled_def Let_def)
qed auto

text \<open>
C17: A trade is settled at most once: when it is in the table, another delivery changes nothing,
and with a working database it is confirmed.
\<close>

theorem settle_once:
  assumes "parseTrade parse t = Some ids" and "db_trades db (I_trade ids) \<noteq> None"
  shows "snd (settleTrade parse pg_div io t db) = db \<and>
    (Db_begin io \<and> Db_up io 0 \<and> fits (TR_Quantity (tradeRow ids t)) \<and> fits (TR_Price (tradeRow ids t)) \<and>
      valid_outcome (Trd_Outcome t) \<and> valid_side (Trd_TakerSide t) \<longrightarrow>
      settleTrade parse pg_div io t db = (None, db))"
  using assms
  by (auto simp: settleTrade_def exec_def InsertTrade_def tradeRow_def
      split: option.splits sum.splits db_error.splits if_splits)


text \<open>
Fencing: an event that carries a token older than the one Redis has for its partition does not
touch the tables and is acknowledged. Only events without a token, or with one at least as new as
the current one, are applied.
\<close>

theorem stale_events_do_not_apply:
  assumes "unmarshalEnvelope raw = Some env"
  shows "(Db_token io = TokenIs c \<and> Env_FencingToken env \<noteq> 0 \<and> Env_FencingToken env < c \<and> Db_ack io \<longrightarrow>
      processEventEntry parse pg_div io raw db = (None, True, db)) \<and>
    (snd (snd (processEventEntry parse pg_div io raw db)) \<noteq> db \<longrightarrow>
      Db_token io = TokenNil \<or> Env_FencingToken env = 0 \<or>
      (\<exists>c. Db_token io = TokenIs c \<and> c \<le> Env_FencingToken env))"
  using assms
  by (auto simp: processEventEntry_def handleEnvelope_def fencing_def fencingDecisionForToken_def
      split: token_read.splits if_splits prod.splits option.splits)

text \<open>
One entry that can never be processed stops the worker: the run ends with its error before any
entry behind it is looked at, and since the entry stays pending, every later run that claims it
ends in the same way.
\<close>

theorem poison_entry_stops_worker:
  assumes "unmarshalEnvelope raw = None"
  shows "Run parse pg_div ios True (raw # raws) reads db = (Some DecodeEnvelope, db)"
  using assms by (simp add: Run_def processEventEntry_def)

text \<open>
The ledger entry of the buyer always names the taker's order and that of the seller the
maker's, also when the taker is the one who sells: then both entries name the order of the other
user.
\<close>

theorem ledger_entries_name_taker_and_maker:
  assumes "settleTrade parse pg_div io t db = (err, db')" and "db' \<noteq> db" and "parseTrade parse t = Some ids"
  shows "\<exists>buy sell. db_transactions db' = db_transactions db @ [buy, sell] \<and>
    TX_UserID buy = I_buyer ids \<and> TX_OrderID buy = I_taker ids \<and>
    TX_UserID sell = I_seller ids \<and> TX_OrderID sell = I_maker ids"
  using assms(1)
proof (cases rule: settleTrade_cases)
  case (settled ids' bal)
  then show ?thesis using assms(3) by (simp add: settled_def Let_def transactionRow_def)
qed (use assms(2) in simp)

section \<open>A concrete settlement\<close>

definition sampleRow :: "string \<Rightarrow> string \<Rightarrow> OrderRow" where
  "sampleRow u side = \<lparr>OR_EventID = ''ev'', OR_UserID = u, OR_OrderType = ''LIMIT'', OR_Outcome = ''YES'',
     OR_Side = side, OR_Quantity = 10 * 10 ^ 8, OR_Price = 50 * 10 ^ 4, OR_Status = ''PENDING'',
     OR_FilledQuantity = 0, OR_RemainingQuantity = 10 * 10 ^ 8\<rparr>"

definition sampleDB :: DB where
  "sampleDB = \<lparr>db_users = Map.empty(''b'' \<mapsto> 10 ^ 10, ''s'' \<mapsto> 0), db_events = Map.empty(''ev'' \<mapsto> 0),
     db_orders = Map.empty(''tk'' \<mapsto> sampleRow ''s'' ''SELL'', ''mk'' \<mapsto> sampleRow ''b'' ''BUY''),
     db_trades = Map.empty, db_positions = Map.empty, db_transactions = []\<rparr>"

definition sampleTrade :: Trade where
  "sampleTrade = \<lparr>Trd_ID = ''t1'', Trd_OrderID = ''tk'', Trd_MatchOrderID = ''mk'', Trd_EventID = ''ev'',
     Trd_Outcome = ''YES'', Trd_BuyerID = ''b'', Trd_SellerID = ''s'', Trd_TakerSide = ''SELL'',
     Trd_Quantity = 4, Trd_Price = 50, Trd_CreatedAt = 0\<rparr>"

definition okDbIO :: DbIO where
  "okDbIO = \<lparr>Db_token = TokenNil, Db_begin = True, Db_up = (\<lambda>_. True), Db_commit = IoOk, Db_ack = True\<rparr>"

definition sampleIDs :: TradeIDs where
  "sampleIDs = \<lparr>I_trade = ''t1'', I_event = ''ev'', I_buyer = ''b'', I_seller = ''s'', I_taker = ''tk'', I_maker = ''mk''\<rparr>"

lemma sampleDB_ok: "db_ok sampleDB"
  by (simp add: db_ok_def sampleDB_def)

lemma sample_parse: "parseTrade Some sampleTrade = Some sampleIDs"
  by (simp add: parseTrade_def sampleTrade_def sampleIDs_def)

lemma sample_settles:
  "\<exists>db'. settleTrade Some (div) okDbIO sampleTrade sampleDB = (None, db') \<and> db' \<noteq> sampleDB"
  by (simp add: settleTrade_def parseTrade_def predix_const okDbIO_def exec_def InsertTrade_def tradeRow_def fits_def
      valid_outcome_def valid_side_def valid_status_def settle_rest_def query_def applyOrderFill_def GetOrderByID_def UpdateOrderFill_def
      deduct_def DeductBalance_def AddBalance_def UpsertPosition_def upsert_row_def InsertTransaction_def transactionRow_def
      IncrementEventVolume_def fill_status_def numericToInt64_def sampleDB_def sampleTrade_def sampleRow_def
      i64_id in_i64_def applied_def Let_def)

theorem settleTrade_atomic_witness:
  "db_trades (snd (settleTrade Some (div) okDbIO sampleTrade sampleDB)) ''t1'' \<noteq> None"
proof -
  obtain db' where s: "settleTrade Some (div) okDbIO sampleTrade sampleDB = (None, db')"
    using sample_settles by blast
  from settleTrade_atomic [OF s] s sample_parse show ?thesis by (auto simp: sampleIDs_def)
qed

theorem settle_once_witness:
  "settleTrade Some (div) okDbIO sampleTrade (settled (div) sampleIDs sampleTrade sampleDB) =
     (None, settled (div) sampleIDs sampleTrade sampleDB)"
  by (rule settle_once [OF sample_parse, THEN conjunct2, rule_format])
    (simp_all add: settled_def Let_def okDbIO_def fits_def tradeRow_def sampleTrade_def valid_outcome_def valid_side_def)


theorem stale_events_do_not_apply_witness:
  "processEventEntry Some (div) (okDbIO\<lparr>Db_token := TokenIs 7\<rparr>)
     (JObj [(''type'', JStr EventTradeExecuted), (''fencingToken'', JInt 6)]) sampleDB = (None, True, sampleDB)"
proof -
  let ?env = "zeroEnvelope\<lparr>Env_Type := EventTradeExecuted, Env_FencingToken := 6\<rparr>"
  have "unmarshalEnvelope (JObj [(''type'', JStr EventTradeExecuted), (''fencingToken'', JInt 6)]) = Some ?env"
    by (simp add: unmarshalEnvelope_def set_Envelope_field_def eq_fold_eval)
  from stale_events_do_not_apply [OF this, of "okDbIO\<lparr>Db_token := TokenIs 7\<rparr>" 7 Some "(div)" sampleDB]
  show ?thesis by (simp add: okDbIO_def)
qed

theorem poison_entry_stops_worker_witness:
  "Run Some (div) (\<lambda>_. okDbIO) True [JBad, JNull] [] sampleDB = (Some DecodeEnvelope, sampleDB)"
  by (rule poison_entry_stops_worker) (simp add: unmarshalEnvelope_def)

theorem ledger_entries_name_taker_and_maker_witness:
  "\<exists>err db' buy sell. settleTrade Some (div) okDbIO sampleTrade sampleDB = (err, db') \<and> Trd_TakerSide sampleTrade = ''SELL'' \<and>
     db_transactions db' = [buy, sell] \<and> TX_UserID buy = ''b'' \<and> TX_OrderID buy = ''tk'' \<and>
     map_option OR_UserID (db_orders sampleDB ''tk'') = Some ''s''"
proof -
  obtain db' where s: "settleTrade Some (div) okDbIO sampleTrade sampleDB = (None, db')" "db' \<noteq> sampleDB"
    using sample_settles by blast
  from ledger_entries_name_taker_and_maker [OF s sample_parse] s(1) show ?thesis
    by (auto simp: sampleIDs_def sampleDB_def sampleTrade_def sampleRow_def)
qed

end
