(* ===== verification/Projection_Order.thy ===== *)
theory Projection_Order
  imports Event_Ordering Db_Settlement
begin

text \<open>
  The DB worker on the event stream of a concurrent engine. The row of a trade refers to the rows of
  its two orders, and the order rows come from ORDER_CREATED events; since the stream announces the
  orders first (\<open>Event_Ordering\<close>), the worker has both rows when it reaches the trade.
\<close>

section \<open>Order rows stay\<close>

definition keeps_orders :: "DB \<Rightarrow> DB \<Rightarrow> bool" where
  "keeps_orders db db' \<longleftrightarrow> dom (db_orders db) \<subseteq> dom (db_orders db')"

lemma keeps_orders_refl [simp]: "keeps_orders db db"
  by (simp add: keeps_orders_def)

lemma keeps_orders_trans: "keeps_orders a b \<Longrightarrow> keeps_orders b c \<Longrightarrow> keeps_orders a c"
  by (auto simp: keeps_orders_def)

lemma settleTrade_keeps:
  assumes "settleTrade parse pg_div io t db = (err, db')"
  shows "keeps_orders db db'"
  using assms by (cases rule: settleTrade_cases) (auto simp: keeps_orders_def settled_def change_def Let_def)

lemma autocommit_keeps:
  "autocommit io (InsertOrder oid row) db = (r, db') \<Longrightarrow> keeps_orders db db'"
  "autocommit io (UpdateOrderStatus oid s) db = (r, db') \<Longrightarrow> keeps_orders db db'"
  by (auto simp: keeps_orders_def InsertOrder_def UpdateOrderStatus_def split: if_splits option.splits
      dest!: autocommit_cases)

lemma handleEnvelope_keeps:
  assumes "handleEnvelope parse pg_div io env db = (err, db')"
  shows "keeps_orders db db'"
proof -
  have "handleTradeExecuted parse pg_div io env db = (err, db') \<Longrightarrow> keeps_orders db db'"
    using settleTrade_keeps by (fastforce simp: handleTradeExecuted_def split: option.splits)
  moreover have "handleOrderCreated parse io env db = (err, db') \<Longrightarrow> keeps_orders db db'"
    using autocommit_keeps(1) by (auto simp: handleOrderCreated_def split: option.splits prod.splits db_error.splits)
  moreover have "handleOrderCanceled parse io env db = (err, db') \<Longrightarrow> keeps_orders db db'"
    using autocommit_keeps(2) by (auto simp: handleOrderCanceled_def split: option.splits prod.splits)
  ultimately show ?thesis
    using assms by (auto simp: handleEnvelope_def split: option.splits fencingDecision.splits if_splits)
qed

lemma processEventEntry_keeps: "processEventEntry parse pg_div io raw db = (err, ack, db') \<Longrightarrow> keeps_orders db db'"
  by (auto simp: processEventEntry_def split: option.splits prod.splits if_splits dest: handleEnvelope_keeps)

lemma runEntries_keeps: "runEntries parse pg_div ios k xs db = (None, k', db') \<Longrightarrow> keeps_orders db db'"
proof (induction xs arbitrary: k db)
  case (Cons x xs)
  obtain ack d1 where p: "processEventEntry parse pg_div (ios k) x db = (None, ack, d1)"
    and r: "runEntries parse pg_div ios (Suc k) xs d1 = (None, k', db')"
    using Cons.prems by (auto split: prod.splits option.splits)
  from keeps_orders_trans [OF processEventEntry_keeps [OF p] Cons.IH [OF r]] show ?case .
qed simp

section \<open>An announced order has a row\<close>

lemma envelope_read:
  assumes "marshalEnvelope env = Some x" "unmarshalEnvelope x = Some env'" "Env_Data env = JObj kvs"
  shows "Env_Type env' = Env_Type env" "Env_Data env' = Env_Data env"
  using assms
  by (auto simp: marshalEnvelope_def unmarshalEnvelope_def set_Envelope_field_def eq_fold_eval rawJson_def
      split: option.splits if_splits)

lemma order_read:
  assumes "marshalOrder ord = Some d" "unmarshalOrder d = Some ord'"
  shows "Ord_ID ord' = Ord_ID ord"
  using assms
  by (auto simp: marshalOrder_def unmarshalOrder_def set_Order_field_def eq_fold_eval split: option.splits if_splits)

lemma marshalOrder_obj: "marshalOrder ord = Some d \<Longrightarrow> \<exists>kvs. d = JObj kvs"
  by (auto simp: marshalOrder_def split: option.splits)

lemma inserted_row:
  assumes "autocommit io (InsertOrder oid row) db = (r, db')" "r \<noteq> Some OtherViolation"
  shows "db_orders db' oid \<noteq> None"
  using assms by (auto simp: autocommit_def exec_def InsertOrder_def applied_def split: if_splits sum.splits option.splits)

lemma created_row:
  assumes c: "created_event i x" and i: "parse i = Some oid"
    and p: "processEventEntry parse pg_div io x db = (None, ack, db')"
    and acc: "\<And>env. unmarshalEnvelope x = Some env \<Longrightarrow> fencing (Db_token io) env = Some fencingAccept"
  shows "db_orders db' oid \<noteq> None"
proof -
  obtain env ord where e: "marshalEnvelope env = Some x" "Env_Type env = EventOrderCreated"
    "marshalOrder ord = Some (Env_Data env)" "Ord_ID ord = i" using c by (auto simp: created_event_def)
  obtain env' where u: "unmarshalEnvelope x = Some env'" using p by (auto simp: processEventEntry_def split: option.splits)
  have r: "Env_Type env' = EventOrderCreated" "Env_Data env' = Env_Data env"
    using envelope_read [OF e(1) u] marshalOrder_obj [OF e(3)] e(2) by auto
  have h: "handleOrderCreated parse io env' db = (None, db')"
    using p u acc [OF u] r(1)
    by (auto simp: processEventEntry_def handleEnvelope_def split: option.splits prod.splits if_splits)
  obtain ord' where o': "unmarshalOrder (Env_Data env) = Some ord'"
    using h r(2) by (auto simp: handleOrderCreated_def split: option.splits)
  have "parse (Ord_ID ord') = Some oid" using order_read [OF e(3) o'] e(4) i by simp
  with h r(2) o' obtain ev us rs where "autocommit io (InsertOrder oid (orderRow ev us ord')) db = (rs, db')"
    "rs \<noteq> Some OtherViolation"
    by (auto simp: handleOrderCreated_def split: option.splits prod.splits db_error.splits)
  then show ?thesis by (rule inserted_row)
qed

lemma created_rows:
  assumes "runEntries parse pg_div ios k xs db = (None, k', db')" "created_on xs i" "parse i = Some oid"
    and "\<And>x env j. x \<in> set xs \<Longrightarrow> unmarshalEnvelope x = Some env \<Longrightarrow> fencing (Db_token (ios j)) env = Some fencingAccept"
  shows "db_orders db' oid \<noteq> None"
  using assms
proof (induction xs arbitrary: k db)
  case (Cons x xs)
  obtain ack d1 where p: "processEventEntry parse pg_div (ios k) x db = (None, ack, d1)"
    and r: "runEntries parse pg_div ios (Suc k) xs d1 = (None, k', db')"
    using Cons.prems(1) by (auto split: prod.splits option.splits)
  show ?case
  proof (cases "created_on xs i")
    case True
    then show ?thesis using Cons.IH [OF r _ Cons.prems(3)] Cons.prems(4) by auto
  next
    case False
    then have "created_event i x" using Cons.prems(2) by (auto simp: created_on_def)
    then have "db_orders d1 oid \<noteq> None" using created_row [OF _ Cons.prems(3) p] Cons.prems(4) by auto
    moreover have "keeps_orders d1 db'" using r by (rule runEntries_keeps)
    ultimately show ?thesis by (auto simp: keeps_orders_def)
  qed
qed simp

section \<open>Properties\<close>


end
