(* ===== verification/Concurrency_Scenarios.thy ===== *)
theory Concurrency_Scenarios
  imports Projection_Order Engine_Scenarios
begin

text \<open>
  A run of the step relation of \<open>Engine_Concurrency\<close>: a worker admits a bid, announces it, matches it
  with the resting asks and publishes the first trade. The theorems on interleavings are applied at its
  end.
\<close>

section \<open>The run\<close>

text \<open>The line of the stream that announced an order.\<close>

definition created_line :: "Order \<Rightarrow> Json" where
  "created_line ord = the (marshalEnvelope (stampEnvelope (okIO ''m'') 0 EventOrderCreated (the (marshalOrder ord))
     freshEngine))"

text \<open>The two asks of the demonstration market rest and are announced; the bid is yet to come.\<close>

definition raceEngine :: Engine where
  "raceEngine = (dropOrder ''b1'' demoEngine)\<lparr>outStream :=
     [created_line (limitOrder ''a1'' ''u1'' SideSell 5 40 5), created_line (limitOrder ''a2'' ''u1'' SideSell 4 45 4)]\<rparr>"

definition bidEngine :: Engine where
  "bidEngine = raceEngine\<lparr>orders := demoOrders,
     balances := Map.empty(''u2'' \<mapsto> \<lparr>Bal_Available = 300, Bal_Reserved = 700\<rparr>)\<rparr>"

lemma limitOrder_time: "Ord_CreatedAt (limitOrder i u s q p l) = 0"
  by (simp add: limitOrder_def zeroOrder_def)

lemma limitOrder_json: "\<exists>d. marshalOrder (limitOrder i u s q p l) = Some d"
  by (simp add: marshalOrder_def limitOrder_time marshalTime_0)

lemma created_line_event: "created_event i (created_line (limitOrder i u s q p l))"
proof -
  obtain d where d: "marshalOrder (limitOrder i u s q p l) = Some d" using limitOrder_json by blast
  let ?env = "stampEnvelope (okIO ''m'') 0 EventOrderCreated d freshEngine"
  obtain x where x: "marshalEnvelope ?env = Some x"
    by (rule marshal_at_0 [of "okIO ''m''" 0 EventOrderCreated d freshEngine]) auto
  have "Env_Type ?env = EventOrderCreated" "Env_Data ?env = d" by (simp_all add: stampEnvelope_def NewEnvelope_def)
  with x d show ?thesis
    unfolding created_event_def created_line_def by (intro exI [of _ ?env] exI [of _ "limitOrder i u s q p l"]) simp
qed

text \<open>A line that announces an order of partition 0.\<close>

definition order_line :: "Order \<Rightarrow> Json \<Rightarrow> bool" where
  "order_line ord x \<longleftrightarrow> (\<exists>e d. marshalOrder ord = Some d
     \<and> marshalEnvelope (stampEnvelope (okIO ''m'') 0 EventOrderCreated d e) = Some x)"

lemma created_order_line: "order_line (limitOrder i u s q p l) (created_line (limitOrder i u s q p l))"
proof -
  obtain d where d: "marshalOrder (limitOrder i u s q p l) = Some d" using limitOrder_json by blast
  obtain x where "marshalEnvelope (stampEnvelope (okIO ''m'') 0 EventOrderCreated d freshEngine) = Some x"
    by (rule marshal_at_0 [of "okIO ''m''" 0 EventOrderCreated d freshEngine]) auto
  with d show ?thesis by (auto simp: order_line_def created_line_def)
qed

lemma created_not_traded: "created_event i x \<Longrightarrow> \<not> traded_event t x"
  using traded_envelope by (auto simp: created_event_def)

lemma race_ok: "engine_ok raceEngine"
proof -
  have "engine_ok (dropOrder ''b1'' demoEngine)"
    using drop_ok(1) [OF demo_engine_ok] demo_incoming by (simp add: incoming_ok_def)
  moreover have "same_core (dropOrder ''b1'' demoEngine) raceEngine" by (simp add: same_core_def raceEngine_def)
  ultimately show ?thesis by (simp add: same_core_ok)
qed

lemma race_fields:
  "orders raceEngine = demoOrders(''b1'' := None)" "markets raceEngine = Map.empty(''ev'' \<mapsto> demoMarket)"
  "balances raceEngine = balances demoEngine" "redisManager raceEngine" "\<not> isReplaying p raceEngine"
  "partitionSeq raceEngine = [0]"
  by (simp_all add: raceEngine_def dropOrder_def isReplaying_def demoEngine_def newEngine_def NewRouter_def)

lemma race_reporting: "reporting raceEngine"
  by (simp add: reporting_def race_fields)

lemma race_created_first: "created_first (outStream raceEngine)"
  using created_not_traded [OF created_line_event]
  by (auto simp: created_first_def raceEngine_def less_Suc_eq)

lemma race_created: "unlisted i raceEngine \<or> created_on (outStream raceEngine) i"
proof (cases "i = ''a1'' \<or> i = ''a2''")
  case True
  then show ?thesis
    using created_line_event [of "''a1''"] created_line_event [of "''a2''"]
    by (auto simp: created_on_def raceEngine_def)
next
  case False
  then show ?thesis
    by (auto simp: unlisted_def race_fields demoMarket_def demoBook_def Book_def split: if_splits)
qed

text \<open>With Redis and the disk at work an emit cycle succeeds.\<close>

lemma emit_okIO:
  assumes "reporting e" "0 \<le> p" "p < int (length (partitionSeq e))"
  shows "\<exists>e'. emitEventP (okIO u) p ty d b e = Some (True, e')"
proof -
  obtain x where "marshalEnvelope (stampEnvelope (okIO u) p ty d e) = Some x"
    by (rule marshal_at_0 [of "okIO u" p ty d e]) auto
  with assms show ?thesis
    by (simp add: emitEventP_def reporting_def Let_def okIO_def outboxAppend_def publishEnvelope_def xaddEvent_def
        publishWS_def)
qed

lemma locked_limitOrder: "(limitOrder i u s q p l)\<lparr>Ord_LockedFunds := l'\<rparr> = limitOrder i u s q p l'"
  by (simp add: limitOrder_def)

lemma race_admits: "admit_locked (limitOrder ''b1'' ''u2'' SideBuy 7 50 0) raceEngine = (Admitted demoBid, bidEngine)"
  by (simp add: admit_locked_def reserve_buy race_fields bidEngine_def cashbook.entry_def bal_freeze_def i64_id demoBid_def
      locked_limitOrder) (simp add: raceEngine_def dropOrder_def demoOrders_def demoBid_def)

lemma race_admitted: "interleaved raceEngine (busy 0 (Admitting ''b1'') bidEngine)"
proof -
  let ?o = "limitOrder ''b1'' ''u2'' SideBuy 7 50 0"
  have "new_order ?o" by (simp add: new_order_def validateOrder_None_iff)
  moreover have "bounded_cost ?o" by (simp add: bounded_cost_def)
  ultimately have "node_step (all_idle raceEngine) (busy 0 (Admitting ''b1'') bidEngine)"
    using node_step.admit [of "all_idle raceEngine" 0 ?o demoBid bidEngine] race_admits by simp
  then show ?thesis by (rule interleaved.step [OF interleaved.start])
qed

text \<open>The bid is announced, matched with both asks, and its first trade published.\<close>

lemma race_matching:
  obtains e x where "interleaved raceEngine (busy 0 (Matching ''b1'') e)" "same_core bidEngine e"
    "outStream e = outStream raceEngine @ [x]" "order_line demoBid x" "partitionSeq e \<noteq> []"
proof -
  have b: "orders bidEngine = demoOrders" by (simp add: bidEngine_def)
  obtain d where d: "marshalOrder demoBid = Some d" using limitOrder_json unfolding demoBid_def by blast
  have "node_step (busy 0 (Admitting ''b1'') bidEngine) (busy 0 (Emitting ''b1'' d) bidEngine)"
    using node_step.serialize [of "busy 0 (Admitting ''b1'') bidEngine" 0 "''b1''" d] d by (simp add: b)
  then have em: "interleaved raceEngine (busy 0 (Emitting ''b1'' d) bidEngine)"
    by (rule interleaved.step [OF race_admitted])
  have r: "reporting bidEngine" "partitionSeq bidEngine = [0]" "outStream bidEngine = outStream raceEngine"
    using race_reporting race_fields(6) by (simp_all add: bidEngine_def reporting_def isReplaying_def)
  obtain e where e: "emitEventP (okIO ''m'') 0 EventOrderCreated d False bidEngine = Some (True, e)"
    using emit_okIO [OF r(1), of 0 "''m''" EventOrderCreated d False] r(2) by auto
  have "node_step (busy 0 (Emitting ''b1'' d) bidEngine) (busy 0 (Matching ''b1'') e)"
    using node_step.announce [of "busy 0 (Emitting ''b1'' d) bidEngine" 0 "''b1''" d "okIO ''m''" True e] e by simp
  from interleaved.step [OF em this] have "interleaved raceEngine (busy 0 (Matching ''b1'') e)" .
  moreover obtain x where "marshalEnvelope (stampEnvelope (okIO ''m'') 0 EventOrderCreated d bidEngine) = Some x"
    "outStream e = outStream raceEngine @ [x]"
    using emit_stamped [OF e] r by (auto simp: reporting_def)
  moreover have "partitionSeq e \<noteq> []" using emit_config [OF e] r(2) by (auto simp: same_config_def)
  ultimately show thesis using that emit_same_core [OF e] d by (auto simp: order_line_def)
qed

definition firstTrade :: Trade where
  "firstTrade = buildTrade ''t'' 0 demoBid (deref demoOrders ''a1'') 5"

lemma firstTrade_ids: "Trd_OrderID firstTrade = ''b1''" "Trd_MatchOrderID firstTrade = ''a1''"
  by (simp_all add: firstTrade_def buildTrade_def demoBid_def)

lemma race_matched:
  obtains e x ts where "interleaved raceEngine (busy 0 (Publishing (firstTrade # ts)) e)"
    "outStream e = outStream raceEngine @ [x]" "order_line demoBid x" "partitionSeq e \<noteq> []"
proof -
  obtain e x where i: "interleaved raceEngine (busy 0 (Matching ''b1'') e)" and c: "same_core bidEngine e"
    and x: "outStream e = outStream raceEngine @ [x]" and l: "order_line demoBid x" and p: "partitionSeq e \<noteq> []" by (rule race_matching)
  have ok: "engine_ok e" using interleaved_ok [OF i race_ok] by (simp add: node_ok_def)
  have eo: "orders e = demoOrders" "markets e = Map.empty(''ev'' \<mapsto> demoMarket)"
    using c race_fields(2) by (simp_all add: same_core_def bidEngine_def)
  have inc: "incoming_ok e ''b1'' demoBid demoMarket demoBook"
    using demo_incoming by (simp add: incoming_ok_def eo unlisted_def)
  have f: "match_funded ''b1'' e" using inc demo_affordable by (auto simp: match_funded_def incoming_ok_def eo)
  obtain trades e' where m: "matchOrder_locked (\<lambda>_. ''t'') (\<lambda>_. 0) ''b1'' e = (trades, e')" by fastforce
  have aff: "affordable (orders e) demoBook demoBid" using demo_affordable by (simp add: eo)
  have t: "trades = firstTrade # tl trades"
    using match_effect(3) [OF ok inc aff m]
    by (simp add: eo matched_trades_def demo_allocation firstTrade_def)
  have cfg: "same_config e e'" "silent e e'"
    using match_config [of e "\<lambda>_. ''t''" "\<lambda>_. 0" "''b1''"] match_silent [OF m] m by simp_all
  have "stream_ok (busy 0 (Matching ''b1'') e)"
    using interleaved_stream [OF i race_ok] race_reporting race_created_first race_created by (simp add: stream_ok_start)
  then have "\<not> isReplaying 0 e'"
    using stream_okD(1) cfg(1) by (fastforce simp: reporting_def same_config_def isReplaying_def)
  then have "node_step (busy 0 (Matching ''b1'') e) (busy 0 (Publishing (firstTrade # tl trades)) e')"
    using node_step.match [of "busy 0 (Matching ''b1'') e" 0 "''b1''" "\<lambda>_. ''t''" "\<lambda>_. 0" trades e'] m f t by simp
  with i have "interleaved raceEngine (busy 0 (Publishing (firstTrade # tl trades)) e')" by (rule interleaved.step)
  moreover have "outStream e' = outStream raceEngine @ [x]" "partitionSeq e' \<noteq> []"
    using cfg x p by (auto simp: silent_def same_outputs_def same_config_def)
  ultimately show thesis using that l by blast
qed

lemma race_published:
  obtains n x y where "interleaved raceEngine n" "outStream (N_engine n) = outStream raceEngine @ [x, y]"
    "order_line demoBid x" "traded_event firstTrade y"
proof -
  obtain e x ts where i: "interleaved raceEngine (busy 0 (Publishing (firstTrade # ts)) e)"
    and x: "outStream e = outStream raceEngine @ [x]" and l: "order_line demoBid x" and p: "partitionSeq e \<noteq> []"
    by (rule race_matched)
  have r: "reporting e"
    using stream_okD(1) [OF interleaved_stream [OF i race_ok]] race_reporting race_created_first race_created
    by (simp add: stream_ok_start)
  obtain d where d: "marshalTrade firstTrade = Some d"
    by (simp add: marshalTrade_def firstTrade_def buildTrade_def marshalTime_0)
  obtain e' where e': "emitEventP (okIO ''m'') 0 EventTradeExecuted d True e = Some (True, e')"
    using emit_okIO [OF r, of 0 "''m''" EventTradeExecuted d True] p by auto
  then have "node_step (busy 0 (Publishing (firstTrade # ts)) e) (busy 0 (Publishing ts) e')"
    using node_step.publish [of "busy 0 (Publishing (firstTrade # ts)) e" 0 firstTrade ts "okIO ''m''" True e'] d
    by (simp add: publishTrade_def)
  with i have "interleaved raceEngine (busy 0 (Publishing ts) e')" by (rule interleaved.step)
  moreover obtain env y where "marshalEnvelope env = Some y" "Env_Type env = EventTradeExecuted" "Env_Data env = d"
    "outStream e' = outStream e @ [y]"
    using emit_stream [OF e'] r by (auto simp: reporting_def)
  ultimately show thesis using that [of "busy 0 (Publishing ts) e'" x y] x l d by (simp add: traded_envelope)
qed

section \<open>Witnesses\<close>




section \<open>The stream in the database\<close>

definition raceDB :: DB where
  "raceDB = sampleDB\<lparr>db_users := Map.empty(''u1'' \<mapsto> 0, ''u2'' \<mapsto> 10 ^ 10), db_orders := Map.empty\<rparr>"

lemma order_line_inserted:
  assumes x: "order_line (limitOrder i u s q p l) x"
    and ok: "0 < q" "q < 1000" "0 \<le> p" "p < 1000" "s = ''BUY'' \<or> s = ''SELL''"
    and db: "db_events db ''ev'' \<noteq> None" "db_users db u \<noteq> None"
  shows "\<exists>db'. processEventEntry Some (div) okDbIO x db = (None, True, db') \<and> db_events db' = db_events db
    \<and> db_users db' = db_users db"
proof -
  let ?o = "limitOrder i u s q p l"
  obtain e d where d: "marshalOrder ?o = Some d"
    "marshalEnvelope (stampEnvelope (okIO ''m'') 0 EventOrderCreated d e) = Some x" using x by (auto simp: order_line_def)
  define env where "env = stampEnvelope (okIO ''m'') 0 EventOrderCreated d e"
  have env: "Env_Type env = EventOrderCreated" "Env_Data env = d" "Env_PartitionID env = 0"
    by (simp_all add: env_def stampEnvelope_def NewEnvelope_def)
  have u: "unmarshalEnvelope x = Some env"
    using marshalOrder_obj [OF d(1)] d(2) by (intro envelope_json_roundtrip) (auto simp: env in_i64_def env_def [symmetric])
  have o': "unmarshalOrder d = Some (?o\<lparr>Ord_LockedFunds := 0\<rparr>)"
    using ok by (intro order_json_roundtrip [OF d(1)]) (simp_all add: in_i64_def)
  have "\<exists>db'. handleOrderCreated Some okDbIO env db = (None, db') \<and> db_events db' = db_events db \<and> db_users db' = db_users db"
    using ok db
    by (auto simp: okDbIO_def env handleOrderCreated_def o' autocommit_def exec_def InsertOrder_def orderRow_def fits_def
        valid_outcome_def valid_side_def valid_status_def applied_def OrderTypeLimit_def OutcomeYes_def StatusPending_def)
  then obtain db' where h: "handleOrderCreated Some okDbIO env db = (None, db')" "db_events db' = db_events db"
    "db_users db' = db_users db" by blast
  have "fencing (Db_token okDbIO) env = Some fencingAccept" "Db_ack okDbIO" by (simp_all add: fencing_def okDbIO_def)
  with h show ?thesis by (simp add: processEventEntry_def u handleEnvelope_def env)
qed


end
