(* ===== verification/Partition_Lease.thy ===== *)
theory Partition_Lease
  imports Outbox Partition_Router
begin

text \<open>
  Partition ownership: the lease and the fencing tokens (\<^verbatim>\<open>internal/partition/lease.go\<close> and
  \<^verbatim>\<open>fencing.go\<close>) over the Redis keys they use, and the life of a partition worker
  (\<^verbatim>\<open>runPartition\<close> and \<^verbatim>\<open>renewLease\<close> of \<^verbatim>\<open>internal/engine/worker.go\<close>) as a step relation over all
  engines that compete for one partition.

  A Redis key holds a value and the time it expires at (\<open>None\<close>: never); times are nanoseconds. The
  two Lua scripts and \<^verbatim>\<open>SET NX\<close> are atomic. The first argument \<open>r\<close> of an operation is its fate on
  the network; the result is \<open>None\<close> when the caller sees an error.
\<close>

section \<open>Definitions\<close>

record Redis =
  kv :: "string \<rightharpoonup> string \<times> int option"
  counters :: "string \<rightharpoonup> int"

definition live_value :: "int \<Rightarrow> Redis \<Rightarrow> string \<Rightarrow> string option" where
  "live_value now rd key =
     (case kv rd key of
        None \<Rightarrow> None
      | Some (v, None) \<Rightarrow> Some v
      | Some (v, Some expires) \<Rightarrow> if now < expires then Some v else None)"

record Lease =
  L_key :: string
  L_instanceID :: string
  L_ttl :: int

definition NewLease :: "string \<Rightarrow> string \<Rightarrow> int \<Rightarrow> Lease" where
  "NewLease key instanceID ttl = \<lparr>L_key = key, L_instanceID = instanceID, L_ttl = ttl\<rparr>"

definition answer :: "io \<Rightarrow> 'a \<Rightarrow> 'a option" where
  "answer r x = (if r = IoOk then Some x else None)"

text \<open>
  \<^verbatim>\<open>SET key instanceID NX PX ttl\<close>: whole milliseconds, at least one; a zero duration sets no expiry.
\<close>

definition ttl_ms :: "int \<Rightarrow> int" where
  "ttl_ms ttl = ttl div 1000000"

definition Acquire :: "io \<Rightarrow> Lease \<Rightarrow> int \<Rightarrow> Redis \<Rightarrow> bool option \<times> Redis" where
  "Acquire r l now rd =
     (let free = (live_value now rd (L_key l) = None);
          expires = (if L_ttl l = 0 then None else Some (now + max 1 (ttl_ms (L_ttl l)) * 1000000))
      in (answer r free,
          if applied r \<and> free then rd\<lparr>kv := (kv rd)(L_key l \<mapsto> (L_instanceID l, expires))\<rparr> else rd))"

text \<open>\<^verbatim>\<open>compareAndRenew\<close>; \<^verbatim>\<open>PEXPIRE\<close> counts milliseconds and deletes the key on zero or less.\<close>

definition Renew :: "io \<Rightarrow> Lease \<Rightarrow> int \<Rightarrow> Redis \<Rightarrow> bool option \<times> Redis" where
  "Renew r l now rd =
     (let mine = (live_value now rd (L_key l) = Some (L_instanceID l));
          ms = ttl_ms (L_ttl l);
          entry = (if ms \<le> 0 then None else Some (L_instanceID l, Some (now + ms * 1000000)))
      in (answer r mine,
          if applied r \<and> mine then rd\<lparr>kv := (kv rd)(L_key l := entry)\<rparr> else rd))"

definition Release :: "io \<Rightarrow> Lease \<Rightarrow> int \<Rightarrow> Redis \<Rightarrow> bool \<times> Redis" where
  "Release r l now rd =
     (let mine = (live_value now rd (L_key l) = Some (L_instanceID l))
      in (r = IoOk, if applied r \<and> mine then rd\<lparr>kv := (kv rd)(L_key l := None)\<rparr> else rd))"

text \<open>\<^verbatim>\<open>INCR\<close> on a signed 64-bit counter: an overflow is an error.\<close>

definition counter_value :: "Redis \<Rightarrow> string \<Rightarrow> int" where
  "counter_value rd key = (case counters rd key of None \<Rightarrow> 0 | Some c \<Rightarrow> c)"

definition Next :: "io \<Rightarrow> string \<Rightarrow> Redis \<Rightarrow> 64 word option \<times> Redis" where
  "Next r key rd =
     (let n = counter_value rd key
      in if n \<ge> max_i64 then (None, rd)
         else (answer r (word_of_int (n + 1)),
               if applied r then rd\<lparr>counters := (counters rd)(key \<mapsto> n + 1)\<rparr> else rd))"

definition Current :: "io \<Rightarrow> string \<Rightarrow> Redis \<Rightarrow> 64 word option" where
  "Current r key rd = answer r (case counters rd key of None \<Rightarrow> 0 | Some c \<Rightarrow> word_of_int c)"

section \<open>Partition workers\<close>

text \<open>
  Where the worker of an engine is: competing for the lease, holding it without a token, serving
  with a token, on its way out after its context was canceled (it may still be inside a command),
  or gone with its engine. Engines have distinct IDs.
\<close>

datatype phase = Competing | Leased | Serving "64 word" | Leaving "64 word" | Gone

record System =
  s_now :: int
  s_redis :: Redis
  s_phase :: "string \<Rightarrow> phase"

definition enter :: "string \<Rightarrow> phase \<Rightarrow> Redis \<Rightarrow> System \<Rightarrow> System" where
  "enter i ph rd s = s\<lparr>s_redis := rd, s_phase := (s_phase s)(i := ph)\<rparr>"

text \<open>
  The steps of all engines for partition \<open>pid\<close>, one call on Redis each. \<open>quit\<close> and \<open>abandon\<close> are
  the returns of a worker whose engine has shut down; the second leaves the lease behind.
\<close>

inductive worker_step :: "int \<Rightarrow> int \<Rightarrow> System \<Rightarrow> System \<Rightarrow> bool" for pid ttl where
  tick: "0 < d \<Longrightarrow> worker_step pid ttl s (s\<lparr>s_now := s_now s + d\<rparr>)"
| acquired: "s_phase s i = Competing \<Longrightarrow>
    Acquire r (NewLease (LeaseKey pid) i ttl) (s_now s) (s_redis s) = (Some True, rd) \<Longrightarrow>
    worker_step pid ttl s (enter i Leased rd s)"
| refused: "s_phase s i = Competing \<Longrightarrow>
    Acquire r (NewLease (LeaseKey pid) i ttl) (s_now s) (s_redis s) = (res, rd) \<Longrightarrow> res \<noteq> Some True \<Longrightarrow>
    worker_step pid ttl s (enter i Competing rd s)"
| fenced: "s_phase s i = Leased \<Longrightarrow> Next r (FencingKey pid) (s_redis s) = (Some tok, rd) \<Longrightarrow>
    worker_step pid ttl s (enter i (Serving tok) rd s)"
| unfenced: "s_phase s i = Leased \<Longrightarrow> Next r (FencingKey pid) (s_redis s) = (None, rd) \<Longrightarrow>
    Release r' (NewLease (LeaseKey pid) i ttl) (s_now s) rd = (b, rd') \<Longrightarrow>
    worker_step pid ttl s (enter i Competing rd' s)"
| renewed: "s_phase s i = Serving tok \<Longrightarrow>
    Renew r (NewLease (LeaseKey pid) i ttl) (s_now s) (s_redis s) = (res, rd) \<Longrightarrow> res \<noteq> Some False \<Longrightarrow>
    worker_step pid ttl s (enter i (Serving tok) rd s)"
| lost: "s_phase s i = Serving tok \<Longrightarrow>
    Renew r (NewLease (LeaseKey pid) i ttl) (s_now s) (s_redis s) = (Some False, rd) \<Longrightarrow>
    worker_step pid ttl s (enter i (Leaving tok) rd s)"
| stopped: "s_phase s i = Serving tok \<Longrightarrow> worker_step pid ttl s (enter i (Leaving tok) (s_redis s) s)"
| released: "s_phase s i = Leaving tok \<Longrightarrow>
    Release r (NewLease (LeaseKey pid) i ttl) (s_now s) (s_redis s) = (b, rd) \<Longrightarrow>
    worker_step pid ttl s (enter i Competing rd s)"
| quit: "s_phase s i = Competing \<Longrightarrow> worker_step pid ttl s (enter i Gone (s_redis s) s)"
| abandon: "s_phase s i = Leased \<Longrightarrow> Next r (FencingKey pid) (s_redis s) = (None, rd) \<Longrightarrow>
    worker_step pid ttl s (enter i Gone rd s)"

definition start_state :: "int \<Rightarrow> System" where
  "start_state now = \<lparr>s_now = now, s_redis = \<lparr>kv = Map.empty, counters = Map.empty\<rparr>, s_phase = (\<lambda>_. Competing)\<rparr>"

inductive running :: "int \<Rightarrow> int \<Rightarrow> System \<Rightarrow> bool" for pid ttl where
  start: "running pid ttl (start_state now)"
| step: "running pid ttl s \<Longrightarrow> worker_step pid ttl s s' \<Longrightarrow> running pid ttl s'"

text \<open>The token an engine stamps its events with, and the counter the tokens are drawn from.\<close>

definition token_of :: "phase \<Rightarrow> 64 word option" where
  "token_of ph = (case ph of Serving tok \<Rightarrow> Some tok | Leaving tok \<Rightarrow> Some tok | _ \<Rightarrow> None)"

definition stamps :: "System \<Rightarrow> string \<Rightarrow> 64 word \<Rightarrow> bool" where
  "stamps s i tok \<longleftrightarrow> token_of (s_phase s i) = Some tok"

definition counter :: "int \<Rightarrow> System \<Rightarrow> int" where
  "counter pid s = counter_value (s_redis s) (FencingKey pid)"

section \<open>The laws of a lock\<close>

text \<open>
  What the workers rely on: an interface of a lock with a holder that may lapse with time, and its
  consequence that two engines never both pass a renewal.
\<close>

locale lapsing_lock =
  fixes holder :: "int \<Rightarrow> 's \<Rightarrow> 'i option" and try_acquire try_renew give_up :: "'i \<Rightarrow> int \<Rightarrow> 's \<Rightarrow> bool \<times> 's"
  assumes acquire_free: "fst (try_acquire i now s) \<longleftrightarrow> holder now s = None"
    and acquire_holds: "fst (try_acquire i now s) \<Longrightarrow> holder now (snd (try_acquire i now s)) = Some i"
    and acquire_refused: "\<not> fst (try_acquire i now s) \<Longrightarrow> snd (try_acquire i now s) = s"
    and renew_mine: "fst (try_renew i now s) \<longleftrightarrow> holder now s = Some i"
    and renew_foreign: "holder now s \<noteq> Some i \<Longrightarrow> snd (try_renew i now s) = s"
    and give_up_mine: "holder now s = Some i \<Longrightarrow> holder now (snd (give_up i now s)) = None"
    and give_up_foreign: "holder now s \<noteq> Some i \<Longrightarrow> snd (give_up i now s) = s"
    and lapses: "holder now s = None \<Longrightarrow> now \<le> now' \<Longrightarrow> holder now' s = None"
begin

lemma renew_exclusive: "fst (try_renew i now s) \<Longrightarrow> fst (try_renew j now s) \<Longrightarrow> i = j"
  by (simp add: renew_mine)

lemma no_theft: "fst (try_acquire j now s) \<Longrightarrow> \<not> fst (try_renew i now s)"
  by (simp add: acquire_free renew_mine)

lemma lost_for_good: "\<not> fst (try_renew i now s) \<Longrightarrow> holder now s = None \<Longrightarrow> now \<le> now' \<Longrightarrow> \<not> fst (try_renew i now' s)"
  using lapses by (fastforce simp: renew_mine)

end

text \<open>The operations on a key with the default time to live, over a network that answers.\<close>

definition defaultLeaseTTL :: int where
  "defaultLeaseTTL = 15 * 1000000000"

definition lock_holder :: "string \<Rightarrow> int \<Rightarrow> Redis \<Rightarrow> string option" where
  "lock_holder key now rd = live_value now rd key"

definition lock_acquire :: "string \<Rightarrow> string \<Rightarrow> int \<Rightarrow> Redis \<Rightarrow> bool \<times> Redis" where
  "lock_acquire key i now rd =
     (case Acquire IoOk (NewLease key i defaultLeaseTTL) now rd of (a, rd') \<Rightarrow> (a = Some True, rd'))"

definition lock_renew :: "string \<Rightarrow> string \<Rightarrow> int \<Rightarrow> Redis \<Rightarrow> bool \<times> Redis" where
  "lock_renew key i now rd =
     (case Renew IoOk (NewLease key i defaultLeaseTTL) now rd of (a, rd') \<Rightarrow> (a = Some True, rd'))"

definition lock_release :: "string \<Rightarrow> string \<Rightarrow> int \<Rightarrow> Redis \<Rightarrow> bool \<times> Redis" where
  "lock_release key i now rd = Release IoOk (NewLease key i defaultLeaseTTL) now rd"

lemmas lock_defs = lock_holder_def lock_acquire_def lock_renew_def lock_release_def NewLease_def
  answer_def applied_def live_value_def ttl_ms_def defaultLeaseTTL_def

interpretation lease: lapsing_lock "lock_holder key" "lock_acquire key" "lock_renew key" "lock_release key"
  for key
  by unfold_locales
    (auto simp: lock_defs Acquire_def Renew_def Release_def Let_def split: option.splits prod.splits if_splits)

end
