(* ===== verification/Partition_Ownership.thy ===== *)
theory Partition_Ownership
  imports Partition_Lease Db_Worker
begin

text \<open>
  What the lease and the fencing tokens guarantee of the engines that compete for a partition, for
  every interleaving of their workers with the passing of time and with failing calls: the invariant
  of a run, and its consequences for the consumer of the events.
\<close>

section \<open>Definitions\<close>

definition fence_ok :: "int \<Rightarrow> System \<Rightarrow> bool" where
  "fence_ok pid s \<longleftrightarrow> 0 \<le> counter pid s \<and> counter pid s \<le> max_i64
     \<and> (\<forall>i tok. stamps s i tok \<longrightarrow> 0 < uint tok \<and> uint tok \<le> counter pid s)
     \<and> (\<forall>i j tok. stamps s i tok \<longrightarrow> stamps s j tok \<longrightarrow> i = j)"

text \<open>How long a lease lives, and that no lease outlives it.\<close>

definition lease_span :: "int \<Rightarrow> int" where
  "lease_span ttl = max 1 (ttl_ms ttl) * 1000000"

definition expires_by :: "int \<Rightarrow> int \<Rightarrow> Redis \<Rightarrow> bool" where
  "expires_by pid t rd \<longleftrightarrow>
     (\<forall>v e. kv rd (LeaseKey pid) = Some (v, e) \<longrightarrow> (\<exists>u. e = Some u \<and> u \<le> t))"

section \<open>The fence\<close>

lemma Acquire_counters: "Acquire r l now rd = (res, rd') \<Longrightarrow> counters rd' = counters rd"
  by (auto simp: Acquire_def Let_def)

lemma Renew_counters: "Renew r l now rd = (res, rd') \<Longrightarrow> counters rd' = counters rd"
  by (auto simp: Renew_def Let_def)

lemma Release_counters: "Release r l now rd = (b, rd') \<Longrightarrow> counters rd' = counters rd"
  by (auto simp: Release_def Let_def)

lemmas ops_keep_counters = Acquire_counters Renew_counters Release_counters

lemma Release_value: "Release r l now rd = (b, rd') \<Longrightarrow> counter_value rd' key = counter_value rd key"
  using Release_counters by (simp add: counter_value_def)

lemma Next_kv: "Next r key rd = (res, rd') \<Longrightarrow> kv rd' = kv rd"
  by (auto simp: Next_def Let_def split: if_splits)

lemma stamps_enter:
  "stamps (enter i ph rd s) j tok \<longleftrightarrow> (if j = i then token_of ph = Some tok else stamps s j tok)"
  by (simp add: stamps_def enter_def)

lemma counter_enter: "counter pid (enter i ph rd s) = counter_value rd (FencingKey pid)"
  by (simp add: counter_def enter_def)

lemma token_of_simps [simp]:
  "token_of Competing = None" "token_of Leased = None" "token_of Gone = None"
  "token_of (Serving tok) = Some tok" "token_of (Leaving tok) = Some tok"
  by (simp_all add: token_of_def)

text \<open>A worker that keeps or drops its token, with a counter that does not fall, keeps the fence.\<close>

lemma fence_ok_enter:
  assumes "fence_ok pid s" "token_of ph = None \<or> token_of ph = token_of (s_phase s i)"
    "counter pid s \<le> counter pid (enter i ph rd s)" "counter pid (enter i ph rd s) \<le> max_i64"
  shows "fence_ok pid (enter i ph rd s)"
proof -
  have "stamps (enter i ph rd s) j tok \<Longrightarrow> stamps s j tok" for j tok
    using assms(2) by (auto simp: stamps_def enter_def split: if_splits)
  then show ?thesis using assms(1,3,4) unfolding fence_ok_def by (blast intro: order_trans)
qed

lemma fence_ok_same_counters:
  assumes "fence_ok pid s" "token_of ph = None \<or> token_of ph = token_of (s_phase s i)"
    "counters rd = counters (s_redis s)"
  shows "fence_ok pid (enter i ph rd s)"
proof -
  have "counter pid (enter i ph rd s) = counter pid s" using assms(3) by (simp only: counter_enter) (simp add: counter_def counter_value_def)
  moreover have "counter pid s \<le> max_i64" using assms(1) by (simp add: fence_ok_def)
  ultimately show ?thesis using fence_ok_enter [OF assms(1,2)] by simp
qed

lemma counter_value_set [simp]: "counter_value (rd\<lparr>counters := (counters rd)(key \<mapsto> n)\<rparr>) key = n"
  by (simp add: counter_value_def)

lemma uint_token: "0 \<le> n \<Longrightarrow> n \<le> max_i64 \<Longrightarrow> uint (word_of_int n :: 64 word) = n"
  by (subst uint_word_of_int) (simp add: take_bit_int_eq_self)

lemma Next_value:
  assumes "Next r key rd = (res, rd')" "0 \<le> counter_value rd key" "counter_value rd key \<le> max_i64"
  shows "counter_value rd key \<le> counter_value rd' key \<and> counter_value rd' key \<le> max_i64
    \<and> (\<forall>tok. res = Some tok \<longrightarrow> counter_value rd key < counter_value rd' key \<and> uint tok = counter_value rd' key)"
proof (cases "counter_value rd key < max_i64")
  case True
  define n where "n = counter_value rd key + 1"
  with True assms(2) have n: "0 \<le> n" "n \<le> max_i64" "counter_value rd key < n" by auto
  from assms(1) True have "res = answer r (word_of_int n)"
    "rd' = (if applied r then rd\<lparr>counters := (counters rd)(key \<mapsto> n)\<rparr> else rd)"
    by (auto simp: Next_def Let_def n_def)
  then show ?thesis using n uint_token [OF n(1,2)] by (auto simp: answer_def applied_def)
qed (use assms in \<open>auto simp: Next_def Let_def\<close>)

lemma Next_counter:
  assumes "Next r (FencingKey pid) (s_redis s) = (res, rd)" "fence_ok pid s"
  shows "counter pid s \<le> counter pid (enter i ph rd s) \<and> counter pid (enter i ph rd s) \<le> max_i64
    \<and> (\<forall>tok. res = Some tok \<longrightarrow> counter pid s < counter pid (enter i ph rd s) \<and> uint tok = counter pid (enter i ph rd s))"
  using Next_value [OF assms(1)] assms(2) unfolding counter_enter by (simp add: counter_def fence_ok_def)

text \<open>A fresh token is above every token in use.\<close>

lemma fence_ok_fresh:
  assumes "fence_ok pid s" "counter pid s < uint tok" "uint tok = counter pid (enter i (Serving tok) rd s)"
    "uint tok \<le> max_i64"
  shows "fence_ok pid (enter i (Serving tok) rd s)"
  using assms unfolding fence_ok_def by (fastforce simp: stamps_enter split: if_splits)

lemma fence_ok_step:
  assumes "worker_step pid ttl s s'" "fence_ok pid s"
  shows "fence_ok pid s'"
  using assms
proof (cases rule: worker_step.cases)
  case (tick d)
  then show ?thesis using assms(2) by (simp add: fence_ok_def stamps_def counter_def)
next
  case (fenced i r tok rd)
  from Next_counter [OF fenced(3) assms(2), of i "Serving tok"] fenced(1) assms(2) show ?thesis
    by (auto intro: fence_ok_fresh)
next
  case (unfenced i r rd r' b rd')
  from Next_counter [OF unfenced(3) assms(2), of i Competing] unfenced assms(2) show ?thesis
    by (auto intro!: fence_ok_enter simp: counter_enter Release_value)
next
  case (abandon i r rd)
  from Next_counter [OF abandon(3) assms(2), of i Gone] abandon assms(2) show ?thesis
    by (auto intro!: fence_ok_enter)
qed (use assms(2) in \<open>auto intro!: fence_ok_same_counters dest: ops_keep_counters\<close>)

lemma fence_ok_start: "fence_ok pid (start_state now)"
  by (simp add: fence_ok_def start_state_def stamps_def counter_def counter_value_def)

lemma running_fence_ok: "running pid ttl s \<Longrightarrow> fence_ok pid s"
  by (induction rule: running.induct) (rule fence_ok_start, rule fence_ok_step)

lemma Current_counter:
  "Current r (FencingKey pid) (s_redis s) = Some cur \<Longrightarrow> fence_ok pid s \<Longrightarrow> uint cur = counter pid s"
  by (auto simp: Current_def answer_def counter_def counter_value_def fence_ok_def uint_word_of_int
      split: if_splits option.splits)

lemma accepted_token:
  assumes "fence_ok pid s" "stamps s i tok" "Current r (FencingKey pid) (s_redis s) = Some cur"
    "fencingDecisionForToken tok cur = fencingAccept"
  shows "tok = cur"
proof -
  have "0 < uint tok" "uint tok \<le> uint cur"
    using assms(1,2) Current_counter [OF assms(3,1)] by (auto simp: fence_ok_def)
  then show ?thesis using assms(4)
    by (auto simp: fencingDecisionForToken_def word_less_def word_uint_eq_iff split: if_splits)
qed

section \<open>The lease\<close>

lemma expires_by_mono: "expires_by pid t rd \<Longrightarrow> t \<le> t' \<Longrightarrow> expires_by pid t' rd"
  unfolding expires_by_def by fastforce

lemma Acquire_expires:
  "Acquire r (NewLease (LeaseKey pid) i ttl) now rd = (res, rd') \<Longrightarrow> ttl \<noteq> 0 \<Longrightarrow>
   expires_by pid (now + lease_span ttl) rd \<Longrightarrow> expires_by pid (now + lease_span ttl) rd'"
  by (auto simp: Acquire_def Let_def NewLease_def expires_by_def lease_span_def split: if_splits)

lemma Renew_expires:
  "Renew r (NewLease (LeaseKey pid) i ttl) now rd = (res, rd') \<Longrightarrow>
   expires_by pid (now + lease_span ttl) rd \<Longrightarrow> expires_by pid (now + lease_span ttl) rd'"
  by (auto simp: Renew_def Let_def NewLease_def expires_by_def lease_span_def split: if_splits)

lemma Release_expires:
  "Release r (NewLease (LeaseKey pid) i ttl) now rd = (b, rd') \<Longrightarrow> expires_by pid t rd \<Longrightarrow> expires_by pid t rd'"
  by (auto simp: Release_def Let_def NewLease_def expires_by_def split: if_splits)

lemma Next_expires: "Next r key rd = (res, rd') \<Longrightarrow> expires_by pid t rd' = expires_by pid t rd"
  using Next_kv by (simp add: expires_by_def)

lemmas lease_ops_expire = Acquire_expires Renew_expires Release_expires

lemma step_expires:
  assumes "worker_step pid ttl s s'" "ttl \<noteq> 0" "expires_by pid (s_now s + lease_span ttl) (s_redis s)"
  shows "expires_by pid (s_now s' + lease_span ttl) (s_redis s')"
  using assms
  by (cases rule: worker_step.cases)
    (auto simp: enter_def Next_expires intro: lease_ops_expire expires_by_mono)

lemma start_expires: "expires_by pid t (s_redis (start_state now))"
  by (simp add: start_state_def expires_by_def)

lemma running_expires:
  "running pid ttl s \<Longrightarrow> ttl \<noteq> 0 \<Longrightarrow> expires_by pid (s_now s + lease_span ttl) (s_redis s)"
  by (induction rule: running.induct) (auto intro: step_expires start_expires)

lemma expired_is_free: "expires_by pid t rd \<Longrightarrow> t \<le> now \<Longrightarrow> live_value now rd (LeaseKey pid) = None"
  by (fastforce simp: live_value_def expires_by_def split: option.splits)

section \<open>Runs\<close>

text \<open>Steps of a run in which Redis answers, for building the states of a scenario.\<close>

definition after_lease :: "int \<Rightarrow> int \<Rightarrow> string \<Rightarrow> System \<Rightarrow> System" where
  "after_lease pid ttl i s =
     enter i Leased (snd (Acquire IoOk (NewLease (LeaseKey pid) i ttl) (s_now s) (s_redis s))) s"

definition after_token :: "int \<Rightarrow> string \<Rightarrow> System \<Rightarrow> System" where
  "after_token pid i s =
     enter i (Serving (word_of_int (counter pid s + 1))) (snd (Next IoOk (FencingKey pid) (s_redis s))) s"

definition after :: "int \<Rightarrow> System \<Rightarrow> System" where
  "after d s = s\<lparr>s_now := s_now s + d\<rparr>"

lemma run_lease:
  assumes "running pid ttl s" "s_phase s i = Competing" "live_value (s_now s) (s_redis s) (LeaseKey pid) = None"
  shows "running pid ttl (after_lease pid ttl i s)"
  unfolding after_lease_def using assms
  by (intro running.step [OF assms(1)] worker_step.acquired [where r = IoOk])
    (auto simp: Acquire_def NewLease_def Let_def answer_def)

lemma run_token:
  assumes "running pid ttl s" "s_phase s i = Leased" "counter pid s < max_i64"
  shows "running pid ttl (after_token pid i s)"
  unfolding after_token_def using assms
  by (intro running.step [OF assms(1)] worker_step.fenced [where r = IoOk])
    (auto simp: Next_def Let_def answer_def counter_def)

lemma run_after: "running pid ttl s \<Longrightarrow> 0 < d \<Longrightarrow> running pid ttl (after d s)"
  unfolding after_def by (rule running.step, assumption) (rule worker_step.tick)

text \<open>
  A failover: \<open>A\<close> serves, its lease lapses unnoticed, \<open>B\<close> takes over. And the same with a pause of
  \<open>A\<close> between its lease and its token.
\<close>

definition failover :: System where
  "failover = after_token 0 ''B'' (after_lease 0 defaultLeaseTTL ''B'' (after (20 * 1000000000)
     (after_token 0 ''A'' (after_lease 0 defaultLeaseTTL ''A'' (start_state 0)))))"

definition late_token :: System where
  "late_token = after_token 0 ''A'' (after_token 0 ''B'' (after_lease 0 defaultLeaseTTL ''B''
     (after (20 * 1000000000) (after_lease 0 defaultLeaseTTL ''A'' (start_state 0)))))"

lemmas run_defs = after_lease_def after_token_def after_def start_state_def enter_def counter_def counter_value_def
  Acquire_def Next_def NewLease_def Let_def answer_def applied_def live_value_def ttl_ms_def defaultLeaseTTL_def

lemma failover_runs: "running 0 defaultLeaseTTL failover"
  unfolding failover_def
  by (intro run_token run_lease run_after running.start) (simp_all add: run_defs)

lemma late_token_runs: "running 0 defaultLeaseTTL late_token"
  unfolding late_token_def
  by (intro run_token run_lease run_after running.start) (simp_all add: run_defs)

lemma failover_state:
  "stamps failover ''A'' 1" "stamps failover ''B'' 2" "s_now failover = 20000000000"
  "Current IoOk (FencingKey 0) (s_redis failover) = Some 2"
  by (simp_all add: failover_def stamps_def run_defs Current_def)

lemma late_token_state:
  "stamps late_token ''A'' 2" "stamps late_token ''B'' 1"
  "Current IoOk (FencingKey 0) (s_redis late_token) = Some 2"
  "live_value (s_now late_token) (s_redis late_token) (LeaseKey 0) = Some ''B''"
  by (simp_all add: late_token_def stamps_def run_defs Current_def)

section \<open>Properties\<close>

text \<open>
C19: However the workers of all engines, the clock and the failures of Redis interleave, at most one
engine has a token whose events the DB worker accepts: its decision against the token that Redis
currently holds is \<^verbatim>\<open>fencingStale\<close> for every other engine that still stamps events, one that lost its
lease without noticing included.
\<close>

theorem fencing_single_writer:
  assumes "running pid ttl s" "stamps s i tok" "stamps s j tok'"
    "Current r (FencingKey pid) (s_redis s) = Some cur"
    "fencingDecisionForToken tok cur = fencingAccept" "fencingDecisionForToken tok' cur = fencingAccept"
  shows "i = j"
proof -
  have ok: "fence_ok pid s" using assms(1) by (rule running_fence_ok)
  then have "tok = cur" "tok' = cur" using assms by (blast intro: accepted_token)+
  with ok assms(2,3) show ?thesis by (auto simp: fence_ok_def)
qed

theorem fencing_single_writer_witness:
  "running 0 defaultLeaseTTL failover \<and> stamps failover ''B'' 2
   \<and> fencingDecisionForToken 2 2 = fencingAccept
   \<and> {j. stamps failover j 2} = {''B''}"
proof -
  have "fencingDecisionForToken 2 2 = fencingAccept" by (simp add: fencingDecisionForToken_def)
  moreover from fencing_single_writer [OF failover_runs failover_state(2) _ failover_state(4) this this]
  have "stamps failover j 2 \<Longrightarrow> j = ''B''" for j by blast
  ultimately show ?thesis using failover_runs failover_state(2) by blast
qed

text \<open>
C20: Failover is bounded: in every reachable state, once the time to live of a lease has passed with
no renewal, the partition is free, and the next attempt of any engine to acquire it succeeds, even
when the previous owner crashed, was partitioned from Redis, or lost the answer to its own attempt.
\<close>

theorem failover_within_ttl:
  assumes "running pid ttl s" "ttl \<noteq> 0" "s_now s + lease_span ttl \<le> now"
  shows "fst (Acquire IoOk (NewLease (LeaseKey pid) i ttl) now (s_redis s)) = Some True
    \<and> live_value now (snd (Acquire IoOk (NewLease (LeaseKey pid) i ttl) now (s_redis s))) (LeaseKey pid) = Some i"
proof -
  have "live_value now (s_redis s) (LeaseKey pid) = None"
    using running_expires [OF assms(1,2)] assms(3) by (rule expired_is_free)
  moreover have "max 1 (ttl_ms ttl) * 1000000 > 0" by simp
  ultimately show ?thesis
    by (simp add: Acquire_def NewLease_def Let_def answer_def applied_def live_value_def)
qed

theorem failover_within_ttl_witness:
  "running 0 defaultLeaseTTL failover \<and> lease_span defaultLeaseTTL = 15000000000
   \<and> fst (Acquire IoOk (NewLease (LeaseKey 0) ''C'' defaultLeaseTTL) 35000000000 (s_redis failover)) = Some True"
  using failover_within_ttl [OF failover_runs, of 35000000000 "''C''"] failover_runs
  by (simp add: failover_state lease_span_def ttl_ms_def defaultLeaseTTL_def)


end
