(* ===== verification/Ws_Hub.thy ===== *)
theory Ws_Hub
  imports Engine_State
begin

text \<open>
  The WebSocket service (\<^verbatim>\<open>internal/websocket\<close>): messages, clients, the hub, the Redis subscriber,
  and the goroutines of all connections as a step relation.

  A \<^verbatim>\<open>*Client\<close> is a number, the memory a total function on numbers. The keys of a Go map are a set;
  \<open>iter\<close> is the order in which a \<^verbatim>\<open>range\<close> loop happens to visit them. An operation returns \<open>None\<close>
  when it panics, which ends the whole process: a send on a closed channel does, also in a
  \<^verbatim>\<open>select\<close> with a default case. Of a member given twice in a message the last value counts.
\<close>

section \<open>Messages\<close>

definition SubscribeMethod :: string where
  "SubscribeMethod = ''SUBSCRIBE''"

definition UnsubscribeMethod :: string where
  "UnsubscribeMethod = ''UNSUBSCRIBE''"

record IncomingMessage =
  In_Method :: string
  In_Params :: "string list"

fun dec_list :: "(Json \<Rightarrow> 'a option) \<Rightarrow> Json list \<Rightarrow> 'a list option" where
  "dec_list f [] = Some []"
| "dec_list f (j # js) =
     (case f j of None \<Rightarrow> None
      | Some x \<Rightarrow> (case dec_list f js of None \<Rightarrow> None | Some xs \<Rightarrow> Some (x # xs)))"

fun dec_strings :: "Json \<Rightarrow> string list option" where
  "dec_strings JNull = Some []"
| "dec_strings (JArr js) = dec_list (\<lambda>j. dec_string j []) js"
| "dec_strings _ = None"

definition set_Incoming_field :: "string \<Rightarrow> Json \<Rightarrow> IncomingMessage \<Rightarrow> IncomingMessage option" where
  "set_Incoming_field k v r =
     (if eq_fold k ''method'' then map_option (\<lambda>x. r\<lparr>In_Method := x\<rparr>) (dec_string v (In_Method r))
      else if eq_fold k ''params'' then map_option (\<lambda>x. r\<lparr>In_Params := x\<rparr>) (dec_strings v)
      else Some r)"

definition unmarshalIncoming :: "Json \<Rightarrow> IncomingMessage option" where
  "unmarshalIncoming j = unmarshal set_Incoming_field j \<lparr>In_Method = [], In_Params = []\<rparr>"

record TradeData =
  TD_Price :: int
  TD_Quantity :: int
  TD_Timestamp :: int
  TD_EventID :: string
  TD_UserID :: string
  TD_Outcome :: string
  TD_Side :: string

definition marshalTradeMessage :: "TradeData \<Rightarrow> Json" where
  "marshalTradeMessage d =
     JObj [(''type'', JStr ''trade''),
       (''data'', JObj [(''price'', JInt (TD_Price d)), (''quantity'', JInt (TD_Quantity d)),
          (''timestamp'', JInt (TD_Timestamp d)), (''eventId'', JStr (TD_EventID d)),
          (''userId'', JStr (TD_UserID d)), (''outcome'', JStr (TD_Outcome d)),
          (''side'', JStr (TD_Side d))])]"

text \<open>The depth message: a slice is \<open>None\<close> when nil, and marshals to \<^verbatim>\<open>null\<close> then.\<close>

record DepthEntry =
  DE_Price :: int
  DE_Quantity :: int
  DE_Total :: int

record DepthBook =
  DB_Asks :: "DepthEntry list option"
  DB_Bids :: "DepthEntry list option"

record DepthData =
  DD_YES :: DepthBook
  DD_NO :: DepthBook

definition set_Entry_field :: "string \<Rightarrow> Json \<Rightarrow> DepthEntry \<Rightarrow> DepthEntry option" where
  "set_Entry_field k v r =
     (if eq_fold k ''price'' then map_option (\<lambda>x. r\<lparr>DE_Price := x\<rparr>) (dec_i64 v (DE_Price r))
      else if eq_fold k ''quantity'' then map_option (\<lambda>x. r\<lparr>DE_Quantity := x\<rparr>) (dec_i64 v (DE_Quantity r))
      else if eq_fold k ''total'' then map_option (\<lambda>x. r\<lparr>DE_Total := x\<rparr>) (dec_i64 v (DE_Total r))
      else Some r)"

fun dec_entries :: "Json \<Rightarrow> DepthEntry list option option" where
  "dec_entries JNull = Some None"
| "dec_entries (JArr js) =
     map_option Some (dec_list (\<lambda>j. unmarshal set_Entry_field j \<lparr>DE_Price = 0, DE_Quantity = 0, DE_Total = 0\<rparr>) js)"
| "dec_entries _ = None"

definition set_Book_field :: "string \<Rightarrow> Json \<Rightarrow> DepthBook \<Rightarrow> DepthBook option" where
  "set_Book_field k v r =
     (if eq_fold k ''asks'' then map_option (\<lambda>x. r\<lparr>DB_Asks := x\<rparr>) (dec_entries v)
      else if eq_fold k ''bids'' then map_option (\<lambda>x. r\<lparr>DB_Bids := x\<rparr>) (dec_entries v)
      else Some r)"

definition set_Depth_field :: "string \<Rightarrow> Json \<Rightarrow> DepthData \<Rightarrow> DepthData option" where
  "set_Depth_field k v r =
     (if eq_fold k ''YES'' then map_option (\<lambda>x. r\<lparr>DD_YES := x\<rparr>) (unmarshal set_Book_field v (DD_YES r))
      else if eq_fold k ''NO'' then map_option (\<lambda>x. r\<lparr>DD_NO := x\<rparr>) (unmarshal set_Book_field v (DD_NO r))
      else Some r)"

definition zeroDepth :: DepthData where
  "zeroDepth = \<lparr>DD_YES = \<lparr>DB_Asks = None, DB_Bids = None\<rparr>, DD_NO = \<lparr>DB_Asks = None, DB_Bids = None\<rparr>\<rparr>"

text \<open>The anonymous struct of \<^verbatim>\<open>handleDepth\<close>: the event ID and the depth.\<close>

definition set_incoming_field :: "string \<Rightarrow> Json \<Rightarrow> string \<times> DepthData \<Rightarrow> (string \<times> DepthData) option" where
  "set_incoming_field k v r =
     (if eq_fold k ''eventId'' then map_option (\<lambda>x. (x, snd r)) (dec_string v (fst r))
      else if eq_fold k ''data'' then map_option (\<lambda>x. (fst r, x)) (unmarshal set_Depth_field v (snd r))
      else Some r)"

definition marshalEntries :: "DepthEntry list option \<Rightarrow> Json" where
  "marshalEntries es =
     (case es of None \<Rightarrow> JNull
      | Some xs \<Rightarrow> JArr (map (\<lambda>x. JObj [(''price'', JInt (DE_Price x)), (''quantity'', JInt (DE_Quantity x)),
          (''total'', JInt (DE_Total x))]) xs))"

definition marshalDepthMessage :: "DepthData \<Rightarrow> Json" where
  "marshalDepthMessage d =
     JObj [(''type'', JStr ''depth''),
       (''data'', JObj [
          (''YES'', JObj [(''asks'', marshalEntries (DB_Asks (DD_YES d))), (''bids'', marshalEntries (DB_Bids (DD_YES d)))]),
          (''NO'', JObj [(''asks'', marshalEntries (DB_Asks (DD_NO d))), (''bids'', marshalEntries (DB_Bids (DD_NO d)))])])]"

section \<open>Clients and the hub\<close>

definition sendBufferSize :: nat where
  "sendBufferSize = 256"

record Client =
  C_send :: "Json list"
  C_subscriptions :: "string set"
  C_closed :: bool

definition NewClient :: Client where
  "NewClient = \<lparr>C_send = [], C_subscriptions = {}, C_closed = False\<rparr>"

record Hub =
  H_clients :: "nat set"
  H_subscriptions :: "string \<rightharpoonup> nat set"
  heap :: "nat \<Rightarrow> Client"

definition NewHub :: Hub where
  "NewHub = \<lparr>H_clients = {}, H_subscriptions = Map.empty, heap = (\<lambda>_. NewClient)\<rparr>"

definition update_client :: "nat \<Rightarrow> (Client \<Rightarrow> Client) \<Rightarrow> Hub \<Rightarrow> Hub" where
  "update_client c f h = h\<lparr>heap := (heap h)(c := f (heap h c))\<rparr>"

definition clientSubscribe :: "string \<Rightarrow> Client \<Rightarrow> Client" where
  "clientSubscribe ev cl =
     (if ev = [] then cl else cl\<lparr>C_subscriptions := insert ev (C_subscriptions cl)\<rparr>)"

definition clientUnsubscribe :: "string \<Rightarrow> Client \<Rightarrow> Client" where
  "clientUnsubscribe ev cl = cl\<lparr>C_subscriptions := C_subscriptions cl - {ev}\<rparr>"

definition IsSubscribed :: "string \<Rightarrow> Client \<Rightarrow> bool" where
  "IsSubscribed ev cl \<longleftrightarrow> ev \<in> C_subscriptions cl"

text \<open>\<^verbatim>\<open>close\<close> sets the flag and closes the channel; what is buffered can still be received.\<close>

definition close_client :: "Client \<Rightarrow> Client" where
  "close_client cl = (if C_closed cl then cl else cl\<lparr>C_closed := True\<rparr>)"

definition Send :: "nat \<Rightarrow> Json \<Rightarrow> Hub \<Rightarrow> Hub option" where
  "Send c message h =
     (if C_closed (heap h c) then None
      else if length (C_send (heap h c)) < sendBufferSize
        then Some (update_client c (\<lambda>cl. cl\<lparr>C_send := C_send cl @ [message]\<rparr>) h)
      else Some (update_client c close_client h))"

definition Register :: "nat \<Rightarrow> Hub \<Rightarrow> Hub" where
  "Register c h = h\<lparr>H_clients := insert c (H_clients h)\<rparr>"

text \<open>A client leaves the entry of an event; an entry that becomes empty is deleted.\<close>

definition drop_client :: "nat \<Rightarrow> nat set option \<Rightarrow> nat set option" where
  "drop_client c entry =
     (case entry of None \<Rightarrow> None
      | Some cs \<Rightarrow> if cs - {c} = {} then None else Some (cs - {c}))"

definition Unregister :: "nat \<Rightarrow> Hub \<Rightarrow> Hub" where
  "Unregister c h =
     h\<lparr>H_clients := H_clients h - {c}, H_subscriptions := (\<lambda>ev. drop_client c (H_subscriptions h ev))\<rparr>"

definition hubSubscribe :: "nat \<Rightarrow> string \<Rightarrow> Hub \<Rightarrow> Hub" where
  "hubSubscribe c ev h =
     (let cs = (case H_subscriptions h ev of None \<Rightarrow> {} | Some cs \<Rightarrow> cs)
      in update_client c (clientSubscribe ev)
           (h\<lparr>H_subscriptions := (H_subscriptions h)(ev \<mapsto> insert c cs)\<rparr>))"

definition hubUnsubscribe :: "nat \<Rightarrow> string \<Rightarrow> Hub \<Rightarrow> Hub" where
  "hubUnsubscribe c ev h =
     (case H_subscriptions h ev of
        None \<Rightarrow> h
      | Some cs \<Rightarrow> update_client c (clientUnsubscribe ev)
          (h\<lparr>H_subscriptions := (H_subscriptions h)(ev := drop_client c (Some cs))\<rparr>))"

text \<open>\<^verbatim>\<open>BroadcastEvent\<close>: the copy of the targets under the read lock, then the sends without it.\<close>

definition targets :: "(nat set \<Rightarrow> nat list) \<Rightarrow> string \<Rightarrow> Hub \<Rightarrow> nat list" where
  "targets iter ev h = iter (case H_subscriptions h ev of None \<Rightarrow> {} | Some cs \<Rightarrow> cs)"

fun sendAll :: "(nat \<times> Json) list \<Rightarrow> Hub \<Rightarrow> Hub option" where
  "sendAll [] h = Some h"
| "sendAll ((c, m) # ps) h = (case Send c m h of None \<Rightarrow> None | Some h' \<Rightarrow> sendAll ps h')"

definition BroadcastEvent :: "(nat set \<Rightarrow> nat list) \<Rightarrow> string \<Rightarrow> Json \<Rightarrow> Hub \<Rightarrow> Hub option" where
  "BroadcastEvent iter ev message h = sendAll (map (\<lambda>c. (c, message)) (targets iter ev h)) h"

section \<open>Messages of a client\<close>

definition sendError :: "nat \<Rightarrow> string \<Rightarrow> Hub \<Rightarrow> Hub option" where
  "sendError c message h =
     Send c (JObj [(''data'', JObj [(''error'', JStr message)]), (''type'', JStr ''error'')]) h"

definition handleSubscribe :: "nat \<Rightarrow> string list \<Rightarrow> Hub \<Rightarrow> Hub option" where
  "handleSubscribe c params h =
     (if params = [] then sendError c ''subscription is required'' h
      else Some (fold (\<lambda>ev h. if ev = [] then h else hubSubscribe c ev h) params h))"

definition handleUnsubscribe :: "nat \<Rightarrow> string list \<Rightarrow> Hub \<Rightarrow> Hub option" where
  "handleUnsubscribe c params h =
     (if params = [] then sendError c ''subscription is required'' h
      else Some (fold (\<lambda>ev h. if ev = [] then h else hubUnsubscribe c ev h) params h))"

definition clientMessage :: "nat \<Rightarrow> Json \<Rightarrow> Hub \<Rightarrow> Hub option" where
  "clientMessage c message h =
     (case unmarshalIncoming message of
        None \<Rightarrow> sendError c ''invalid message'' h
      | Some msg \<Rightarrow>
          if In_Method msg = SubscribeMethod then handleSubscribe c (In_Params msg) h
          else if In_Method msg = UnsubscribeMethod then handleUnsubscribe c (In_Params msg) h
          else sendError c ''unknown method'' h)"

section \<open>The Redis subscriber\<close>

text \<open>
  A published envelope is turned into the event whose subscribers it goes to and the message they
  get: \<open>Inl True\<close> for an envelope of another type, which is only logged, and \<open>Inl False\<close> for an
  error, which is logged too.
\<close>

definition tradeData :: "Trade \<Rightarrow> TradeData" where
  "tradeData trade =
     \<lparr>TD_Price = Trd_Price trade, TD_Quantity = Trd_Quantity trade,
      TD_Timestamp = Trd_CreatedAt trade div 1000000, TD_EventID = Trd_EventID trade,
      TD_UserID = (if Trd_TakerSide trade = SideBuy then Trd_BuyerID trade else Trd_SellerID trade),
      TD_Outcome = Trd_Outcome trade, TD_Side = Trd_TakerSide trade\<rparr>"

definition handleTrade :: "Json \<Rightarrow> bool + (string \<times> Json)" where
  "handleTrade data =
     (case unmarshalTrade data of
        None \<Rightarrow> Inl False
      | Some trade \<Rightarrow> Inr (Trd_EventID trade, marshalTradeMessage (tradeData trade)))"

definition handleDepth :: "Json \<Rightarrow> bool + (string \<times> Json)" where
  "handleDepth data =
     (case unmarshal set_incoming_field data ([], zeroDepth) of
        None \<Rightarrow> Inl False
      | Some (ev, depth) \<Rightarrow> Inr (ev, marshalDepthMessage depth))"

definition translate :: "Json \<Rightarrow> bool + (string \<times> Json)" where
  "translate message =
     (case unmarshalEnvelope message of
        None \<Rightarrow> Inl False
      | Some envelope \<Rightarrow>
          if Env_Type envelope = EventTradeExecuted then handleTrade (Env_Data envelope)
          else if Env_Type envelope = EventDepthUpdated then handleDepth (Env_Data envelope)
          else Inl True)"

definition handle :: "(nat set \<Rightarrow> nat list) \<Rightarrow> Json \<Rightarrow> Hub \<Rightarrow> Hub option" where
  "handle iter message h =
     (case translate message of
        Inl _ \<Rightarrow> Some h
      | Inr (ev, payload) \<Rightarrow> BroadcastEvent iter ev payload h)"

text \<open>
  \<^verbatim>\<open>Run\<close> of the subscriber over what its \<^verbatim>\<open>select\<close> takes in each round: it ends when its context is done or
  the channel is closed; an error of \<^verbatim>\<open>handle\<close> is logged. The first result tells if it has ended.
\<close>

datatype sub_event = SubDone | SubClosed | SubMessage Json

fun subscriberRun :: "(nat set \<Rightarrow> nat list) \<Rightarrow> sub_event list \<Rightarrow> Hub \<Rightarrow> (bool \<times> Hub) option" where
  "subscriberRun iter [] h = Some (False, h)"
| "subscriberRun iter (SubDone # evs) h = Some (True, h)"
| "subscriberRun iter (SubClosed # evs) h = Some (True, h)"
| "subscriberRun iter (SubMessage message # evs) h =
     (case handle iter message h of None \<Rightarrow> None | Some h' \<Rightarrow> subscriberRun iter evs h')"

section \<open>The goroutines\<close>

text \<open>
  Where the read pump of a connection is: not connected, reading, unregistered but not closed,
  ended. The write pump runs or not. \<open>S_pending\<close> are the sends the subscriber has still to do for
  the envelope it works on, and \<open>S_written\<close> the text frames written on each connection.
\<close>

datatype pump = Fresh | Reading | Unregistered | Ended

record Server =
  S_hub :: Hub
  S_read :: "nat \<Rightarrow> pump"
  S_write :: "nat \<Rightarrow> bool"
  S_pending :: "(nat \<times> Json) list"
  S_written :: "nat \<Rightarrow> Json list"

definition NewServer :: Server where
  "NewServer = \<lparr>S_hub = NewHub, S_read = (\<lambda>_. Fresh), S_write = (\<lambda>_. False), S_pending = [], S_written = (\<lambda>_. [])\<rparr>"

text \<open>
  \<^verbatim>\<open>Handle\<close>: with \<open>requireAuth\<close> a token is demanded (\<open>valid\<close> is the verdict of \<^verbatim>\<open>ValidateToken\<close>); a
  refused request gets status 401 and its text, \<open>upgraded\<close> tells if the connection was upgraded.
\<close>

definition Handle ::
  "(string \<Rightarrow> bool) \<Rightarrow> bool \<Rightarrow> string \<Rightarrow> bool \<Rightarrow> nat \<Rightarrow> Server \<Rightarrow> (nat \<times> string) option \<times> Server" where
  "Handle valid requireAuth token upgraded c s =
     (if requireAuth \<and> token = [] then (Some (401, ''missing token''), s)
      else if requireAuth \<and> \<not> valid token then (Some (401, ''unauthorized''), s)
      else if \<not> upgraded then (None, s)
      else (None, s\<lparr>S_hub := Register c (S_hub s\<lparr>heap := (heap (S_hub s))(c := NewClient)\<rparr>),
                   S_read := (S_read s)(c := Reading), S_write := (S_write s)(c := True)\<rparr>))"

text \<open>The steps; \<open>None\<close> is the end of the process by a panic.\<close>

definition with_hub :: "Server \<Rightarrow> Hub option \<Rightarrow> Server option" where
  "with_hub s r = map_option (\<lambda>h. s\<lparr>S_hub := h\<rparr>) r"

inductive ws_step :: "(nat set \<Rightarrow> nat list) \<Rightarrow> Server \<Rightarrow> Server option \<Rightarrow> bool" for iter where
  connect: "S_read s c = Fresh \<Longrightarrow> Handle valid requireAuth token upgraded c s = (res, s') \<Longrightarrow>
    ws_step iter s (Some s')"
| read: "S_read s c = Reading \<Longrightarrow> ws_step iter s (with_hub s (clientMessage c message (S_hub s)))"
| unregister: "S_read s c = Reading \<Longrightarrow>
    ws_step iter s (Some (s\<lparr>S_hub := Unregister c (S_hub s), S_read := (S_read s)(c := Unregistered)\<rparr>))"
| read_end: "S_read s c = Unregistered \<Longrightarrow>
    ws_step iter s (Some (s\<lparr>S_hub := update_client c close_client (S_hub s), S_read := (S_read s)(c := Ended)\<rparr>))"
| wrote: "S_write s c \<Longrightarrow> C_send (heap (S_hub s) c) = m # ms \<Longrightarrow>
    ws_step iter s (Some (s\<lparr>S_hub := update_client c (\<lambda>cl. cl\<lparr>C_send := ms\<rparr>) (S_hub s),
      S_written := (S_written s)(c := S_written s c @ [m])\<rparr>))"
| write_fails: "S_write s c \<Longrightarrow> C_send (heap (S_hub s) c) = m # ms \<Longrightarrow>
    ws_step iter s (Some (s\<lparr>S_hub := update_client c (\<lambda>cl. close_client (cl\<lparr>C_send := ms\<rparr>)) (S_hub s),
      S_write := (S_write s)(c := False)\<rparr>))"
| write_end: "S_write s c \<Longrightarrow> C_send (heap (S_hub s) c) = [] \<Longrightarrow> C_closed (heap (S_hub s) c) \<Longrightarrow>
    ws_step iter s (Some (s\<lparr>S_write := (S_write s)(c := False)\<rparr>))"
| ping_fails: "S_write s c \<Longrightarrow>
    ws_step iter s (Some (s\<lparr>S_hub := update_client c close_client (S_hub s), S_write := (S_write s)(c := False)\<rparr>))"
| receive: "S_pending s = [] \<Longrightarrow> translate message = Inr (ev, payload) \<Longrightarrow>
    ws_step iter s (Some (s\<lparr>S_pending := map (\<lambda>c. (c, payload)) (targets iter ev (S_hub s))\<rparr>))"
| deliver: "S_pending s = (c, m) # ps \<Longrightarrow> ws_step iter s (with_hub (s\<lparr>S_pending := ps\<rparr>) (Send c m (S_hub s)))"

inductive serving :: "(nat set \<Rightarrow> nat list) \<Rightarrow> Server \<Rightarrow> bool" for iter where
  start: "serving iter NewServer"
| step: "serving iter s \<Longrightarrow> ws_step iter s (Some s') \<Longrightarrow> serving iter s'"

end
