(* ===== verification/Ws_Delivery.thy ===== *)
theory Ws_Delivery
  imports Ws_Hub
begin

text \<open>
  What the WebSocket service guarantees: the hub is a publish/subscribe table, the two views of the
  subscriptions (of the hub and of the clients) agree in every state the goroutines can reach, and a
  broadcast reaches exactly the subscribers; and where it fails: a send to a client that was closed
  but is still in the table ends the process.
\<close>

section \<open>Definitions\<close>

definition subscribers :: "Hub \<Rightarrow> string \<Rightarrow> nat set" where
  "subscribers h ev = (case H_subscriptions h ev of None \<Rightarrow> {} | Some cs \<Rightarrow> cs)"

text \<open>The hub against the set \<open>R\<close> of the connections whose read pump reads.\<close>

definition hub_ok :: "nat set \<Rightarrow> Hub \<Rightarrow> bool" where
  "hub_ok R h \<longleftrightarrow> H_clients h = R
     \<and> (\<forall>ev cs. H_subscriptions h ev = Some cs \<longrightarrow> cs \<noteq> {} \<and> finite cs \<and> ev \<noteq> [])
     \<and> (\<forall>ev. subscribers h ev \<subseteq> R)
     \<and> (\<forall>c\<in>R. \<forall>ev. IsSubscribed ev (heap h c) \<longleftrightarrow> c \<in> subscribers h ev)
     \<and> (\<forall>c. length (C_send (heap h c)) \<le> sendBufferSize)"

definition ws_ok :: "Server \<Rightarrow> bool" where
  "ws_ok s \<longleftrightarrow> hub_ok {c. S_read s c = Reading} (S_hub s)"

text \<open>What a message does to an open client.\<close>

definition push :: "Json \<Rightarrow> Client \<Rightarrow> Client" where
  "push m cl = (if length (C_send cl) < sendBufferSize then cl\<lparr>C_send := C_send cl @ [m]\<rparr> else cl\<lparr>C_closed := True\<rparr>)"

definition iterates :: "(nat set \<Rightarrow> nat list) \<Rightarrow> bool" where
  "iterates iter \<longleftrightarrow> (\<forall>S. finite S \<longrightarrow> set (iter S) = S \<and> distinct (iter S))"

section \<open>A publish/subscribe table\<close>

text \<open>
  The interface the pumps rely on: who is subscribed after each operation. A name that is not
  \<open>legal\<close> is ignored.
\<close>

locale pubsub =
  fixes subs :: "'s \<Rightarrow> 'e \<Rightarrow> 'c set" and legal :: "'e \<Rightarrow> bool"
    and join part :: "'c \<Rightarrow> 'e \<Rightarrow> 's \<Rightarrow> 's" and leave :: "'c \<Rightarrow> 's \<Rightarrow> 's"
  assumes join_subs: "subs (join c ev s) ev' = (if ev' = ev \<and> legal ev then insert c (subs s ev') else subs s ev')"
    and part_subs: "subs (part c ev s) ev' = (if ev' = ev \<and> legal ev then subs s ev' - {c} else subs s ev')"
    and leave_subs: "subs (leave c s) ev = subs s ev - {c}"
begin

lemma join_all_subs:
  "subs (fold (join c) evs s) ev = (if ev \<in> set evs \<and> legal ev then insert c (subs s ev) else subs s ev)"
  by (induction evs arbitrary: s) (auto simp: join_subs)

lemma part_all_subs:
  "subs (fold (part c) evs s) ev = (if ev \<in> set evs \<and> legal ev then subs s ev - {c} else subs s ev)"
  by (induction evs arbitrary: s) (auto simp: part_subs)

lemma left_for_good: "c \<notin> subs (leave c s) ev"
  by (simp add: leave_subs)

end

definition join_event :: "nat \<Rightarrow> string \<Rightarrow> Hub \<Rightarrow> Hub" where
  "join_event c ev h = (if ev = [] then h else hubSubscribe c ev h)"

definition part_event :: "nat \<Rightarrow> string \<Rightarrow> Hub \<Rightarrow> Hub" where
  "part_event c ev h = (if ev = [] then h else hubUnsubscribe c ev h)"

lemma handleSubscribe_joins:
  "params \<noteq> [] \<Longrightarrow> handleSubscribe c params h = Some (fold (join_event c) params h)"
  by (simp add: handleSubscribe_def join_event_def [abs_def])

lemma handleUnsubscribe_parts:
  "params \<noteq> [] \<Longrightarrow> handleUnsubscribe c params h = Some (fold (part_event c) params h)"
  by (simp add: handleUnsubscribe_def part_event_def [abs_def])

lemma update_client_sel [simp]:
  "H_clients (update_client c f h) = H_clients h" "H_subscriptions (update_client c f h) = H_subscriptions h"
  "heap (update_client c f h) = (heap h)(c := f (heap h c))"
  by (simp_all add: update_client_def)

lemma subscribers_update_client [simp]: "subscribers (update_client c f h) ev = subscribers h ev"
  by (simp add: subscribers_def)

interpretation hub: pubsub subscribers "\<lambda>ev. ev \<noteq> []" join_event part_event Unregister
  by unfold_locales
    (auto simp: subscribers_def join_event_def part_event_def hubSubscribe_def hubUnsubscribe_def Unregister_def
      drop_client_def split: option.splits)

section \<open>The invariant of the hub\<close>

lemma hub_okI:
  assumes "H_clients h = R" "\<And>ev cs. H_subscriptions h ev = Some cs \<Longrightarrow> cs \<noteq> {} \<and> finite cs \<and> ev \<noteq> []"
    "\<And>ev. subscribers h ev \<subseteq> R" "\<And>c ev. c \<in> R \<Longrightarrow> IsSubscribed ev (heap h c) \<longleftrightarrow> c \<in> subscribers h ev"
    "\<And>c. length (C_send (heap h c)) \<le> sendBufferSize"
  shows "hub_ok R h"
  using assms by (simp add: hub_ok_def)

text \<open>A change of a client that keeps its subscriptions and its buffer within the bound.\<close>

lemma hub_ok_update_client:
  assumes "hub_ok R h" "C_subscriptions (f (heap h c)) = C_subscriptions (heap h c)"
    "length (C_send (f (heap h c))) \<le> sendBufferSize"
  shows "hub_ok R (update_client c f h)"
  using assms unfolding hub_ok_def by (auto simp: IsSubscribed_def)

lemma hub_ok_bound: "hub_ok R h \<Longrightarrow> length (C_send (heap h c)) \<le> sendBufferSize"
  by (simp add: hub_ok_def)

lemma close_client_sel [simp]:
  "C_subscriptions (close_client cl) = C_subscriptions cl" "C_send (close_client cl) = C_send cl"
  "C_closed (close_client cl)"
  by (simp_all add: close_client_def)

lemma hub_ok_close: "hub_ok R h \<Longrightarrow> hub_ok R (update_client c close_client h)"
  by (rule hub_ok_update_client) (auto simp: close_client_def hub_ok_bound)

lemma hub_ok_Send: "hub_ok R h \<Longrightarrow> Send c m h = Some h' \<Longrightarrow> hub_ok R h'"
  by (auto simp: Send_def split: if_splits intro!: hub_ok_update_client hub_ok_close)

lemma join_event_sel:
  "H_clients (join_event c ev h) = H_clients h"
  "heap (join_event c ev h) = (heap h)(c := clientSubscribe ev (heap h c))"
  by (simp_all add: join_event_def hubSubscribe_def Let_def clientSubscribe_def fun_upd_idem)

lemma part_event_sel:
  "H_clients (part_event c ev h) = H_clients h"
  "heap (part_event c ev h) d = (if d = c \<and> ev \<noteq> [] \<and> H_subscriptions h ev \<noteq> None
     then clientUnsubscribe ev (heap h c) else heap h d)"
  by (auto simp: part_event_def hubUnsubscribe_def split: option.splits)

lemma hub_ok_join:
  assumes "hub_ok R h" "c \<in> R"
  shows "hub_ok R (join_event c ev h)"
proof (rule hub_okI)
  show "subscribers (join_event c ev h) ev' \<subseteq> R" for ev'
    using assms by (auto simp: hub.join_subs hub_ok_def split: if_splits)
  show "IsSubscribed ev' (heap (join_event c ev h) d) \<longleftrightarrow> d \<in> subscribers (join_event c ev h) ev'" if "d \<in> R" for d ev'
    using assms that by (auto simp: hub.join_subs join_event_sel hub_ok_def clientSubscribe_def IsSubscribed_def)
  show "cs \<noteq> {} \<and> finite cs \<and> ev' \<noteq> []" if "H_subscriptions (join_event c ev h) ev' = Some cs" for ev' cs
    using assms that
    by (auto simp: join_event_def hubSubscribe_def Let_def hub_ok_def split: if_splits option.splits)
qed (use assms in \<open>auto simp: join_event_sel hub_ok_def clientSubscribe_def\<close>)

lemma no_entry: "H_subscriptions h ev = None \<Longrightarrow> subscribers h ev = {}"
  by (simp add: subscribers_def)

lemma hub_ok_part:
  assumes "hub_ok R h"
  shows "hub_ok R (part_event c ev h)"
proof (rule hub_okI)
  show "subscribers (part_event c ev h) ev' \<subseteq> R" for ev'
    using assms by (auto simp: hub.part_subs hub_ok_def split: if_splits)
  show "IsSubscribed ev' (heap (part_event c ev h) d) \<longleftrightarrow> d \<in> subscribers (part_event c ev h) ev'" if "d \<in> R" for d ev'
    using assms that no_entry [of h ev]
    by (auto simp: hub.part_subs part_event_sel hub_ok_def clientUnsubscribe_def IsSubscribed_def)
  show "cs \<noteq> {} \<and> finite cs \<and> ev' \<noteq> []" if "H_subscriptions (part_event c ev h) ev' = Some cs" for ev' cs
    using assms that
    by (auto simp: part_event_def hubUnsubscribe_def hub_ok_def drop_client_def split: if_splits option.splits)
qed (use assms in \<open>auto simp: part_event_sel hub_ok_def clientUnsubscribe_def\<close>)

lemma hub_ok_fold: "(\<And>ev h. hub_ok R h \<Longrightarrow> hub_ok R (f ev h)) \<Longrightarrow> hub_ok R h \<Longrightarrow> hub_ok R (fold f evs h)"
  by (induction evs arbitrary: h) auto

lemma hub_ok_clientMessage:
  assumes "hub_ok R h" "c \<in> R" "clientMessage c message h = Some h'"
  shows "hub_ok R h'"
  using assms
  by (auto simp: clientMessage_def sendError_def handleSubscribe_def handleUnsubscribe_def
      simp flip: join_event_def part_event_def split: option.splits if_splits
      intro: hub_ok_Send hub_ok_fold hub_ok_join hub_ok_part)

lemma Unregister_sel: "H_clients (Unregister c h) = H_clients h - {c}" "heap (Unregister c h) = heap h"
  by (simp_all add: Unregister_def)

lemma hub_ok_Unregister:
  assumes "hub_ok R h"
  shows "hub_ok (R - {c}) (Unregister c h)"
proof (rule hub_okI)
  show "cs \<noteq> {} \<and> finite cs \<and> ev \<noteq> []" if "H_subscriptions (Unregister c h) ev = Some cs" for ev cs
    using assms that by (auto simp: Unregister_def drop_client_def hub_ok_def split: option.splits if_splits)
  show "subscribers (Unregister c h) ev \<subseteq> R - {c}" for ev
    using assms by (auto simp: hub.leave_subs hub_ok_def)
qed (use assms in \<open>auto simp: hub.leave_subs hub_ok_def Unregister_sel\<close>)

lemma hub_ok_connect:
  assumes "hub_ok R h" "c \<notin> R"
  shows "hub_ok (insert c R) (Register c (h\<lparr>heap := (heap h)(c := NewClient)\<rparr>))"
proof (rule hub_okI)
  have subs: "subscribers (Register c (h\<lparr>heap := (heap h)(c := NewClient)\<rparr>)) ev = subscribers h ev" for ev
    by (simp add: subscribers_def Register_def)
  show "subscribers (Register c (h\<lparr>heap := (heap h)(c := NewClient)\<rparr>)) ev \<subseteq> insert c R" for ev
    using assms by (auto simp: subs hub_ok_def)
  show "IsSubscribed ev (heap (Register c (h\<lparr>heap := (heap h)(c := NewClient)\<rparr>)) d) \<longleftrightarrow>
      d \<in> subscribers (Register c (h\<lparr>heap := (heap h)(c := NewClient)\<rparr>)) ev" if "d \<in> insert c R" for d ev
    using assms that unfolding subs by (auto simp: hub_ok_def Register_def NewClient_def IsSubscribed_def)
qed (use assms in \<open>auto simp: hub_ok_def Register_def NewClient_def sendBufferSize_def\<close>)

section \<open>The invariant of the service\<close>

lemma reading_connect: "{d. ((S_read s)(c := Reading)) d = Reading} = insert c {d. S_read s d = Reading}"
  by auto

lemma reading_leave: "p \<noteq> Reading \<Longrightarrow> {d. ((S_read s)(c := p)) d = Reading} = {d. S_read s d = Reading} - {c}"
  by auto

lemma ws_ok_Handle:
  assumes "ws_ok s" "S_read s c = Fresh" "Handle valid requireAuth token upgraded c s = (res, s')"
  shows "ws_ok s'"
  using assms hub_ok_connect [of "{d. S_read s d = Reading}" "S_hub s" c]
  by (auto simp: Handle_def ws_ok_def reading_connect simp del: fun_upd_apply split: if_splits)

lemma ws_ok_bound: "ws_ok s \<Longrightarrow> length (C_send (heap (S_hub s) c)) \<le> sendBufferSize"
  unfolding ws_ok_def by (rule hub_ok_bound)

lemma with_hubD: "with_hub s r = Some s' \<Longrightarrow> \<exists>h. r = Some h \<and> s' = s\<lparr>S_hub := h\<rparr>"
  by (auto simp: with_hub_def)

lemma ws_ok_step:
  assumes "ws_step iter s (Some s')" "ws_ok s"
  shows "ws_ok s'"
  using assms(1)
proof (cases rule: ws_step.cases)
  case (connect c valid requireAuth token upgraded res)
  then show ?thesis using ws_ok_Handle [OF assms(2)] by blast
next
  case (read c message)
  then obtain h where "clientMessage c message (S_hub s) = Some h" "s' = s\<lparr>S_hub := h\<rparr>"
    by (metis with_hubD)
  with read assms(2) show ?thesis by (auto simp: ws_ok_def intro: hub_ok_clientMessage)
next
  case (unregister c)
  then show ?thesis using assms(2)
    by (simp add: ws_ok_def reading_leave hub_ok_Unregister del: fun_upd_apply)
next
  case (read_end c)
  moreover from read_end have "{d. S_read s d = Reading} - {c} = {d. S_read s d = Reading}" by auto
  ultimately show ?thesis using assms(2)
    by (simp add: ws_ok_def reading_leave hub_ok_close del: fun_upd_apply)
next
  case (wrote c m ms)
  then show ?thesis using ws_ok_bound [OF assms(2), of c]
    using assms(2) by (auto simp: ws_ok_def intro!: hub_ok_update_client)
next
  case (write_fails c m ms)
  then show ?thesis using ws_ok_bound [OF assms(2), of c]
    using assms(2) by (auto simp: ws_ok_def intro!: hub_ok_update_client)
next
  case (ping_fails c)
  then show ?thesis using assms(2) by (simp add: ws_ok_def hub_ok_close)
next
  case (deliver c m ps)
  then obtain h where "Send c m (S_hub s) = Some h" "s' = s\<lparr>S_pending := ps, S_hub := h\<rparr>"
    by (metis with_hubD)
  with assms(2) show ?thesis by (auto simp: ws_ok_def intro: hub_ok_Send)
qed (use assms(2) in \<open>simp_all add: ws_ok_def\<close>)

lemma ws_ok_start: "ws_ok NewServer"
  by (simp add: ws_ok_def hub_ok_def NewServer_def NewHub_def NewClient_def subscribers_def)

lemma serving_ok: "serving iter s \<Longrightarrow> ws_ok s"
  by (induction rule: serving.induct) (auto intro: ws_ok_start ws_ok_step)

section \<open>Sends\<close>

lemma Send_open: "\<not> C_closed (heap h c) \<Longrightarrow> Send c m h = Some (update_client c (push m) h)"
  by (simp add: Send_def push_def update_client_def close_client_def)

lemma sendAll_open:
  assumes "distinct cs" "\<forall>c\<in>set cs. \<not> C_closed (heap h c)"
  shows "\<exists>h'. sendAll (map (\<lambda>c. (c, m)) cs) h = Some h' \<and> H_clients h' = H_clients h
    \<and> H_subscriptions h' = H_subscriptions h
    \<and> (\<forall>c. heap h' c = (if c \<in> set cs then push m (heap h c) else heap h c))"
  using assms
proof (induction cs arbitrary: h)
  case (Cons c cs)
  from Cons.prems have "\<forall>d\<in>set cs. \<not> C_closed (heap (update_client c (push m) h) d)" by auto
  from Cons.IH [OF _ this] Cons.prems show ?case by (auto simp: Send_open)
qed simp

lemma sendAll_closed:
  "distinct cs \<Longrightarrow> c \<in> set cs \<Longrightarrow> C_closed (heap h c) \<Longrightarrow> sendAll (map (\<lambda>c. (c, m)) cs) h = None"
proof (induction cs arbitrary: h)
  case (Cons d cs)
  show ?case
  proof (cases "C_closed (heap h d)")
    case False
    with Cons.prems have "c \<noteq> d" by auto
    with Cons.prems False Cons.IH [of "update_client d (push m) h"] show ?thesis by (auto simp: Send_open)
  qed (simp add: Send_def)
qed simp

lemma targets_subscribers: "targets iter ev h = iter (subscribers h ev)"
  by (simp add: targets_def subscribers_def)

lemma finite_subscribers: "hub_ok R h \<Longrightarrow> finite (subscribers h ev)"
  by (auto simp: hub_ok_def subscribers_def split: option.splits)

section \<open>The subscriber against the steps\<close>

text \<open>
  The loop of the subscriber, run without interruption, is one of the interleavings of the step
  relation: what holds in every reachable state holds after it, too.
\<close>

lemma server_same [simp]: "s\<lparr>S_hub := S_hub s\<rparr> = (s :: Server)" "S_pending s = ps \<Longrightarrow> s\<lparr>S_pending := ps\<rparr> = s"
  by (cases s; simp)+

lemma sendAll_serving:
  "serving iter s \<Longrightarrow> S_pending s = ps \<Longrightarrow> sendAll ps (S_hub s) = Some h \<Longrightarrow>
   serving iter (s\<lparr>S_hub := h, S_pending := []\<rparr>)"
proof (induction ps arbitrary: s)
  case (Cons p ps)
  obtain c m where p: "p = (c, m)" by fastforce
  with Cons.prems(3) obtain h' where h': "Send c m (S_hub s) = Some h'" "sendAll ps h' = Some h"
    by (auto split: option.splits)
  let ?s = "s\<lparr>S_pending := ps, S_hub := h'\<rparr>"
  have "ws_step iter s (Some ?s)"
    using ws_step.deliver [of s c m ps iter] Cons.prems(2) p h'(1) by (simp add: with_hub_def)
  with Cons.prems(1) have "serving iter ?s" by (rule serving.step)
  from Cons.IH [OF this] h'(2) show ?case by simp
qed auto

lemma handle_serving:
  assumes "serving iter s" "S_pending s = []" "handle iter message (S_hub s) = Some h"
  shows "serving iter (s\<lparr>S_hub := h\<rparr>)"
proof (cases "translate message")
  case (Inr r)
  obtain ev payload where r: "translate message = Inr (ev, payload)" using Inr by (cases r) auto
  let ?ps = "map (\<lambda>c. (c, payload)) (targets iter ev (S_hub s))"
  from serving.step [OF assms(1) ws_step.receive [OF assms(2) r]]
  have "serving iter (s\<lparr>S_pending := ?ps\<rparr>)" .
  moreover have "sendAll ?ps (S_hub s) = Some h" using assms(3) r by (simp add: handle_def BroadcastEvent_def)
  ultimately have "serving iter (s\<lparr>S_pending := ?ps, S_hub := h, S_pending := []\<rparr>)"
    by (intro sendAll_serving) simp_all
  with assms(2) show ?thesis by (cases s) simp
qed (use assms in \<open>auto simp: handle_def\<close>)

lemma subscriberRun_serving:
  "serving iter s \<Longrightarrow> S_pending s = [] \<Longrightarrow> subscriberRun iter evs (S_hub s) = Some (ended, h) \<Longrightarrow>
   serving iter (s\<lparr>S_hub := h\<rparr>)"
proof (induction iter evs "S_hub s" arbitrary: s rule: subscriberRun.induct)
  case (4 iter message evs s)
  then obtain h' where h': "handle iter message (S_hub s) = Some h'" "subscriberRun iter evs h' = Some (ended, h)"
    by (auto split: option.splits)
  from "4.hyps" [of "s\<lparr>S_hub := h'\<rparr>"] h'(1) handle_serving [OF "4.prems"(1,2) h'(1)] h'(2) "4.prems"(2)
  show ?case by simp
qed auto

section \<open>Scenarios\<close>

text \<open>One connection that subscribes to an event, and then fails on a ping.\<close>

definition subscribeMsg :: Json where
  "subscribeMsg = JObj [(''method'', JStr ''SUBSCRIBE''), (''params'', JArr [JStr ''ev''])]"

definition tradeMsg :: Json where
  "tradeMsg = JObj [(''type'', JStr EventTradeExecuted), (''data'', JObj [(''eventId'', JStr ''ev''), (''price'', JInt 45)])]"

definition subscribedHub :: Hub where
  "subscribedHub = \<lparr>H_clients = {2}, H_subscriptions = [''ev'' \<mapsto> {2}],
     heap = (\<lambda>_. NewClient)(2 := NewClient\<lparr>C_subscriptions := {''ev''}\<rparr>)\<rparr>"

definition subscribed :: Server where
  "subscribed = \<lparr>S_hub = subscribedHub, S_read = (\<lambda>_. Fresh)(2 := Reading), S_write = (\<lambda>_. False)(2 := True),
     S_pending = [], S_written = (\<lambda>_. [])\<rparr>"

definition failed :: Server where
  "failed = subscribed\<lparr>S_hub := update_client 2 close_client subscribedHub, S_write := (S_write subscribed)(2 := False)\<rparr>"

definition tradePayload :: Json where
  "tradePayload = marshalTradeMessage (tradeData (zeroTrade\<lparr>Trd_EventID := ''ev'', Trd_Price := 45\<rparr>))"

lemma subscribe_decodes: "unmarshalIncoming subscribeMsg = Some \<lparr>In_Method = ''SUBSCRIBE'', In_Params = [''ev'']\<rparr>"
  by (simp add: unmarshalIncoming_def subscribeMsg_def set_Incoming_field_def eq_fold_eval)

lemma trade_translates: "translate tradeMsg = Inr (''ev'', tradePayload)"
  by (simp add: translate_def tradeMsg_def unmarshalEnvelope_def set_Envelope_field_def handleTrade_def
      unmarshalTrade_def set_Trade_field_def eq_fold_eval zeroTrade_def zeroEnvelope_def tradePayload_def in_i64_def)

lemma subscribed_serving: "serving iter subscribed"
proof -
  let ?s = "snd (Handle (\<lambda>_. True) False [] True 2 NewServer)"
  have "ws_step iter NewServer (Some ?s)"
    by (rule ws_step.connect [of _ 2 "\<lambda>_. True" False "[]" True None]) (simp_all add: NewServer_def Handle_def)
  then have "serving iter ?s" by (rule serving.step [OF serving.start])
  moreover have "with_hub ?s (clientMessage 2 subscribeMsg (S_hub ?s)) = Some subscribed"
    by (simp add: with_hub_def clientMessage_def subscribe_decodes SubscribeMethod_def handleSubscribe_def
        hubSubscribe_def clientSubscribe_def update_client_def Handle_def NewServer_def NewHub_def Register_def
        subscribed_def subscribedHub_def NewClient_def)
  moreover have "ws_step iter ?s (with_hub ?s (clientMessage 2 subscribeMsg (S_hub ?s)))"
    by (rule ws_step.read) (simp add: Handle_def)
  ultimately show ?thesis by (metis serving.step)
qed

lemma failed_serving: "serving iter failed"
proof -
  have "ws_step iter subscribed (Some failed)"
    unfolding failed_def using ws_step.ping_fails [of subscribed 2 iter] by (simp add: subscribed_def)
  then show ?thesis by (rule serving.step [OF subscribed_serving])
qed

lemma reading_two: "{c. (if c = 2 then Reading else Fresh) = Reading} = {2 :: nat}"
  by auto

lemma iterates_sorted: "iterates sorted_list_of_set"
  by (simp add: iterates_def)

section \<open>Properties\<close>

text \<open>
C28: In every state the goroutines of the WebSocket service can reach, the table of the hub and the
subscriptions the clients hold themselves agree for every connection that is being read; the table
has no empty entry, no entry for the empty event name and no connection that is not registered; and
no send buffer exceeds its size.
\<close>

theorem serving_hub_consistent:
  assumes "serving iter s"
  shows "H_clients (S_hub s) = {c. S_read s c = Reading}
    \<and> (\<forall>c ev. S_read s c = Reading \<longrightarrow> (IsSubscribed ev (heap (S_hub s) c) \<longleftrightarrow> c \<in> subscribers (S_hub s) ev))
    \<and> (\<forall>c ev. c \<in> subscribers (S_hub s) ev \<longrightarrow> S_read s c = Reading \<and> ev \<noteq> [])
    \<and> (\<forall>ev. H_subscriptions (S_hub s) ev \<noteq> Some {})
    \<and> (\<forall>c. length (C_send (heap (S_hub s) c)) \<le> sendBufferSize)"
proof -
  have "ws_ok s" using assms by (rule serving_ok)
  moreover from this have "c \<in> subscribers (S_hub s) ev \<Longrightarrow> ev \<noteq> []" for c ev
    by (auto simp: ws_ok_def hub_ok_def subscribers_def split: option.splits)
  ultimately show ?thesis by (auto simp: ws_ok_def hub_ok_def)
qed

theorem serving_hub_consistent_witness:
  "serving sorted_list_of_set failed \<and> H_clients (S_hub failed) = {2}
   \<and> IsSubscribed ''ev'' (heap (S_hub failed) 2) \<and> 2 \<in> subscribers (S_hub failed) ''ev''"
proof -
  have "S_read failed 2 = Reading" and subs: "2 \<in> subscribers (S_hub failed) ''ev''"
    and cl: "H_clients (S_hub failed) = {2}"
    by (simp_all add: failed_def subscribed_def subscribedHub_def subscribers_def)
  with serving_hub_consistent [OF failed_serving [of sorted_list_of_set]]
  have "IsSubscribed ''ev'' (heap (S_hub failed) 2)" by blast
  with subs cl failed_serving show ?thesis by blast
qed

text \<open>
A broadcast reaches exactly the subscribers of its event. When all of them are open it does not
panic: each subscriber with room gets the message at the end of its buffer, a subscriber whose buffer
is full is closed and gets nothing, every other client and the table stay as they are. When one of
them is closed the process panics.
\<close>

theorem BroadcastEvent_delivers:
  assumes "hub_ok R h" "iterates iter"
  shows "(BroadcastEvent iter ev m h = None \<longleftrightarrow> (\<exists>c. c \<in> subscribers h ev \<and> C_closed (heap h c)))
    \<and> (\<forall>h'. BroadcastEvent iter ev m h = Some h' \<longrightarrow>
         H_clients h' = H_clients h \<and> H_subscriptions h' = H_subscriptions h
         \<and> (\<forall>c. heap h' c = (if c \<in> subscribers h ev then push m (heap h c) else heap h c)))"
proof -
  let ?cs = "iter (subscribers h ev)"
  have cs: "set ?cs = subscribers h ev" "distinct ?cs"
    using assms(2) finite_subscribers [OF assms(1)] unfolding iterates_def by blast+
  have B: "BroadcastEvent iter ev m h = sendAll (map (\<lambda>c. (c, m)) ?cs) h"
    by (simp add: BroadcastEvent_def targets_subscribers)
  show ?thesis
  proof (cases "\<exists>c. c \<in> subscribers h ev \<and> C_closed (heap h c)")
    case True
    then obtain c where "c \<in> set ?cs" "C_closed (heap h c)" using cs(1) by blast
    with cs(2) have "sendAll (map (\<lambda>c. (c, m)) ?cs) h = None" by (rule sendAll_closed)
    with True show ?thesis unfolding B by simp
  next
    case False
    then have "\<forall>c\<in>set ?cs. \<not> C_closed (heap h c)" using cs(1) by blast
    from sendAll_open [OF cs(2) this, of m] obtain h' where "sendAll (map (\<lambda>c. (c, m)) ?cs) h = Some h'"
      "H_clients h' = H_clients h" "H_subscriptions h' = H_subscriptions h"
      "\<forall>c. heap h' c = (if c \<in> set ?cs then push m (heap h c) else heap h c)" by blast
    then show ?thesis using False unfolding B cs(1) by simp
  qed
qed

theorem BroadcastEvent_delivers_witness:
  "BroadcastEvent sorted_list_of_set ''ev'' (JInt 7) subscribedHub \<noteq> None
   \<and> BroadcastEvent sorted_list_of_set ''ev'' (JInt 7) (S_hub failed) = None"
proof -
  have ok: "hub_ok {2} subscribedHub" "hub_ok {2} (S_hub failed)"
    using serving_ok [OF subscribed_serving] serving_ok [OF failed_serving]
    by (simp_all add: ws_ok_def subscribed_def failed_def reading_two)
  show ?thesis
    using BroadcastEvent_delivers [OF ok(1) iterates_sorted, of "''ev''" "JInt 7"]
      BroadcastEvent_delivers [OF ok(2) iterates_sorted, of "''ev''" "JInt 7"]
    by (simp add: failed_def subscribed_def subscribedHub_def subscribers_def NewClient_def)
qed


end
