(* ===== verification/System_Flow.thy ===== *)
theory System_Flow
  imports Engine_Scenarios Db_Settlement Ws_Delivery
begin

text \<open>
  The way of a trade through the services: matched in the engine, published on the event stream and
  the WebSocket channel, settled by the DB worker and shown to the subscribers of its event.
\<close>

section \<open>Definitions\<close>

text \<open>Every order has an ID, a user and an event, and a price in the range of its type.\<close>

definition named_orders :: "Engine \<Rightarrow> bool" where
  "named_orders e \<longleftrightarrow> (\<forall>i ord. orders e i = Some ord \<longrightarrow>
     i \<noteq> [] \<and> Ord_UserID ord \<noteq> [] \<and> Ord_EventID ord \<noteq> [] \<and> in_i64 (Ord_Price ord))"

section \<open>Lemmas\<close>

lemma matched_trade_valid:
  assumes ok: "engine_ok e" and inc: "incoming_ok e i t market book" and named: "named_orders e"
    and tr: "tr \<in> set (fst (matchOrder_locked tids nows i e))" and id: "Trd_ID tr \<noteq> []"
  shows "validateTrade tr = None \<and> in_i64 (Trd_Quantity tr) \<and> in_i64 (Trd_Price tr)"
proof -
  obtain r q k where rq: "(r, q) \<in> set (allocation (orders e) book t)"
    and b: "tr = buildTrade (tids k) (nows k) t (deref (orders e) r) q"
    using tr unfolding match_trades [OF ok inc] by (rule trade_of_fill)
  from rq show ?thesis
  proof (rule allocation_maker [OF ok inc])
    fix m assume m: "orders e r = Some m" "order_ok r m" "0 < q" "q \<le> Ord_RemainingQuantity t"
      "r \<in> set (opposite (Ord_Side t) book)"
    have "0 < Ord_Price m"
      using book_side_ok(3) [OF ok inc, of "Ord_Side t"] m by (auto simp: resting_def order_ok_def)
    moreover have "i \<noteq> []" "r \<noteq> []" "Ord_UserID t \<noteq> []" "Ord_UserID m \<noteq> []" "Ord_EventID t \<noteq> []"
      "in_i64 (Ord_Price m)"
      using named m(1) incoming_order(6) [OF ok inc] by (auto simp: named_orders_def)
    ultimately show ?thesis using m id incoming_order [OF ok inc]
      by (auto simp: b buildTrade_def order_ok_def validateTrade_def quantities_ok_def in_i64_def
          OutcomeYes_def OutcomeNo_def)
  qed
qed

text \<open>What a successful publication leaves on the two channels.\<close>

lemma publishTrade_ok:
  assumes "emits pid e" "publishTrade io pid tr e = Some (True, e')"
  obtains data x where "marshalTrade tr = Some data"
    "marshalEnvelope (stampEnvelope io pid EventTradeExecuted data e) = Some x"
    "outStream e' = outStream e @ [x]" "wsOut e' = wsOut e @ [x]"
proof -
  obtain data where d: "marshalTrade tr = Some data" "emitEventP io pid EventTradeExecuted data True e = Some (True, e')"
    using assms(2) by (auto simp: publishTrade_def split: option.splits)
  show thesis
  proof (cases "marshalEnvelope (stampEnvelope io pid EventTradeExecuted data e)")
    case None
    with d(2) assms(1) show thesis by (simp add: emitEventP_def emits_def Let_def)
  next
    case (Some x)
    with d(2) assms(1) have "outStream e' = outStream e @ [x] \<and> wsOut e' = wsOut e @ [x]"
      by (auto simp: emitEventP_open outboxAppend_def publishEnvelope_def xaddEvent_def publishWS_def outboxReset_def
          applied_def split: if_splits)
    with that d(1) Some show thesis by blast
  qed
qed

lemma marshalTrade_good: "marshalTrade tr = Some data \<Longrightarrow> data \<noteq> JBad"
  by (auto simp: marshalTrade_def split: option.splits)

section \<open>Properties\<close>


text \<open>The demonstration market: its first trade, published by the engine that matched it.\<close>

definition demoTrade :: Trade where
  "demoTrade = buildTrade ''t'' 0 demoBid (deref demoOrders ''a1'') 5"

definition flowDB :: DB where
  "flowDB = sampleDB\<lparr>db_users := Map.empty(''u1'' \<mapsto> 0, ''u2'' \<mapsto> 10 ^ 10),
     db_orders := Map.empty(''a1'' \<mapsto> sampleRow ''u1'' ''SELL'', ''b1'' \<mapsto> sampleRow ''u2'' ''BUY'')\<rparr>"

lemma flow_settles: "fst (settleTrade Some (div) okDbIO demoTrade flowDB) = None"
  by (simp add: settleTrade_def parseTrade_def predix_const okDbIO_def exec_def InsertTrade_def tradeRow_def fits_def
      valid_outcome_def valid_side_def valid_status_def settle_rest_def query_def applyOrderFill_def GetOrderByID_def
      UpdateOrderFill_def deduct_def DeductBalance_def AddBalance_def UpsertPosition_def upsert_row_def
      InsertTransaction_def transactionRow_def IncrementEventVolume_def fill_status_def numericToInt64_def sampleDB_def
      sampleRow_def flowDB_def demoTrade_def buildTrade_def demoBid_def demoOrders_def deref_def
      i64_id in_i64_def applied_def Let_def)

lemma demo_trade_id: "Trd_ID demoTrade \<noteq> []" "Trd_EventID demoTrade = ''ev''"
  by (simp_all add: demoTrade_def buildTrade_def demoBid_def)

lemma demo_emits: "emits 0 demoEngine"
  by (simp add: emits_def demoEngine_def newEngine_def isReplaying_def)

lemma demo_named: "named_orders demoEngine"
  by (simp add: named_orders_def demoEngine_def demoOrders_def demoBid_def in_i64_def)

lemma demo_publishes: "\<exists>e'. publishTrade (okIO ''m0'') 0 demoTrade demoEngine = Some (True, e')"
proof -
  obtain data where d: "marshalTrade demoTrade = Some data"
    by (simp add: marshalTrade_def demoTrade_def buildTrade_def marshalTime_0)
  show ?thesis
    using emit_all_ok [OF demo_emits, of "okIO ''m0''" EventTradeExecuted data True]
    by (simp add: publishTrade_def d okIO_def)
qed


end
