(* ===== verification/Price_Scaling.thy ===== *)
theory Price_Scaling
  imports Complex_Main "HOL-Library.Log_Nat"
begin

text \<open>
  The prices at the API boundary: \<open>ScalePrice\<close> and \<open>UnscalePrice\<close> of \<^verbatim>\<open>types.go\<close> over IEEE 754
  double precision.

  A finite \<^verbatim>\<open>float64\<close> is the rational number it stands for, and an operation rounds its exact
  result to 53 significant bits, ties to even. The exponent is not bounded: the numbers here are
  far from overflow and from the subnormal range. Go may fuse \<open>f * s + 0.5\<close> into one operation with
  one rounding; \<open>fused\<close> tells if it did. The conversion of a number out of the range of \<^verbatim>\<open>int64\<close> is
  left to the machine, \<open>oob\<close>.
\<close>

section \<open>Definitions\<close>

definition round_even :: "rat \<Rightarrow> int" where
  "round_even y =
     (let f = \<lfloor>y\<rfloor>; r = y - of_int f
      in if r < 1 / 2 then f else if 1 / 2 < r then f + 1 else if even f then f else f + 1)"

text \<open>The exponent of the leading bit of a positive number.\<close>

definition binade :: "rat \<Rightarrow> int" where
  "binade x =
     (let (n, d) = quotient_of x; k = bitlen n - bitlen d
      in if 2 powi k \<le> x then k else k - 1)"

definition fl :: "rat \<Rightarrow> rat" where
  "fl x =
     (if x = 0 then 0
      else let u = 2 powi (binade \<bar>x\<bar> - 52) in sgn x * of_int (round_even (\<bar>x\<bar> / u)) * u)"

definition trunc :: "rat \<Rightarrow> int" where
  "trunc x = (if 0 \<le> x then \<lfloor>x\<rfloor> else \<lceil>x\<rceil>)"

definition float_to_i64 :: "(rat \<Rightarrow> int) \<Rightarrow> rat \<Rightarrow> int" where
  "float_to_i64 oob x = (if - (2 ^ 63) \<le> trunc x \<and> trunc x < 2 ^ 63 then trunc x else oob x)"

definition ScalePrice :: "bool \<Rightarrow> (rat \<Rightarrow> int) \<Rightarrow> rat \<Rightarrow> int" where
  "ScalePrice fused oob f =
     float_to_i64 oob (if fused then fl (f * 10000 + 1 / 2) else fl (fl (f * 10000) + 1 / 2))"

definition UnscalePrice :: "int \<Rightarrow> rat" where
  "UnscalePrice v = fl (fl (of_int v) / 10000)"

section \<open>The rounding error\<close>

lemma round_even_error: "\<bar>of_int (round_even y) - y\<bar> \<le> 1 / 2"
proof -
  have "0 \<le> y - of_int \<lfloor>y\<rfloor>" "y - of_int \<lfloor>y\<rfloor> < 1" by linarith+
  then show ?thesis by (auto simp: round_even_def Let_def abs_le_iff)
qed

lemma binade_le:
  assumes "0 < x"
  shows "2 powi binade x \<le> x"
proof -
  obtain n d where q: "quotient_of x = (n, d)" by force
  have d: "0 < d" using quotient_of_denom_pos [OF q] .
  have x: "x = of_int n / of_int d" using quotient_of_div [OF q] .
  with assms d have n: "0 < n" by (simp add: zero_less_divide_iff)
  let ?a = "bitlen n" and ?b = "bitlen d"
  have ab: "0 < ?a" "0 < ?b" using n d by (simp_all add: bitlen_alt_def)
  have lo: "2 powi (?a - 1) \<le> (of_int n :: rat)"
  proof -
    have "2 ^ nat (?a - 1) \<le> n" using bitlen_bounds [OF n] by simp
    then have "(2 :: rat) ^ nat (?a - 1) \<le> of_int n" by (metis of_int_le_iff of_int_numeral of_int_power)
    then show ?thesis using ab by (simp add: power_int_def)
  qed
  have hi: "(of_int d :: rat) \<le> 2 powi ?b"
  proof -
    have "d < 2 ^ nat ?b" using bitlen_bounds [OF d] by simp
    then have "(of_int d :: rat) < 2 ^ nat ?b" by (metis of_int_less_iff of_int_numeral of_int_power)
    then show ?thesis using ab by (simp add: power_int_def)
  qed
  have "2 powi (?a - ?b - 1) * of_int d \<le> 2 powi (?a - ?b - 1) * (2 powi ?b :: rat)"
    by (rule mult_left_mono [OF hi]) simp
  also have "\<dots> = 2 powi (?a - 1)" by (simp flip: power_int_add add: algebra_simps)
  finally have "2 powi (?a - ?b - 1) * of_int d \<le> (of_int n :: rat)" using lo by linarith
  then have "2 powi (?a - ?b - 1) \<le> x" using d by (simp add: x pos_le_divide_eq)
  then show ?thesis by (simp add: binade_def q Let_def)
qed

lemma fl_error: "\<bar>fl x - x\<bar> \<le> \<bar>x\<bar> / 2 ^ 53"
proof (cases "x = 0")
  case False
  define u :: rat where "u = 2 powi (binade \<bar>x\<bar> - 52)"
  have u: "0 < u" by (simp add: u_def)
  have ub: "u \<le> \<bar>x\<bar> / 2 ^ 52"
    using binade_le [of "\<bar>x\<bar>"] False by (simp add: u_def power_int_diff divide_right_mono)
  let ?r = "of_int (round_even (\<bar>x\<bar> / u)) :: rat"
  have "?r * u - \<bar>x\<bar> = (?r - \<bar>x\<bar> / u) * u" using u by (simp add: left_diff_distrib)
  then have "\<bar>?r * u - \<bar>x\<bar>\<bar> = \<bar>?r - \<bar>x\<bar> / u\<bar> * u" using u by (simp add: abs_mult)
  also have "\<dots> \<le> 1 / 2 * u" using round_even_error u by (intro mult_right_mono) auto
  finally have e: "\<bar>?r * u - \<bar>x\<bar>\<bar> \<le> u / 2" by simp
  have "fl x - x = sgn x * (?r * u - \<bar>x\<bar>)"
    using False sgn_mult_abs [of x] by (simp add: fl_def u_def Let_def right_diff_distrib)
  then have "\<bar>fl x - x\<bar> = \<bar>?r * u - \<bar>x\<bar>\<bar>" using False by (simp add: abs_mult abs_sgn_eq)
  moreover have "u / 2 \<le> \<bar>x\<bar> / 2 ^ 53" using ub by simp
  ultimately show ?thesis using e by (metis order_trans)
qed (simp add: fl_def)

text \<open>Below \<open>2\<^sup>4\<^sup>9\<close> an operation is off by at most a sixteenth.\<close>

lemma fl_near: "\<bar>x\<bar> \<le> 2 ^ 49 \<Longrightarrow> \<bar>fl x - x\<bar> \<le> 1 / 16"
  using fl_error [of x] by (simp add: field_simps)

lemma near_bound: "\<bar>a - K\<bar> \<le> 1 \<Longrightarrow> 0 \<le> K \<Longrightarrow> K \<le> B \<Longrightarrow> \<bar>a\<bar> \<le> B + (1 :: rat)"
  by linarith

text \<open>A number within an eighth of \<open>k\<close> is scaled to \<open>k\<close>, fused or not.\<close>

lemma ScalePrice_near:
  assumes "\<bar>f * 10000 - of_int k\<bar> \<le> 1 / 8" "0 \<le> k" "k \<le> 2 ^ 48"
  shows "ScalePrice fused oob f = k"
proof -
  define K :: rat where "K = of_int k"
  have b: "K \<le> 2 ^ 48" "0 \<le> K" using assms(2,3) by (simp_all add: K_def flip: of_int_le_iff)
  have f: "\<bar>f * 10000 - K\<bar> \<le> 1 / 8" using assms(1) by (simp add: K_def)
  have "\<bar>f * 10000\<bar> \<le> 2 ^ 49" "\<bar>f * 10000 + 1 / 2\<bar> \<le> 2 ^ 49" 
    using near_bound [of "f * 10000", OF _ b(2,1)] near_bound [of "f * 10000 + 1 / 2", OF _ b(2,1)] f by auto
  note n = fl_near [OF this(1)] fl_near [OF this(2)]
  have "\<bar>fl (f * 10000) + 1 / 2 - K\<bar> \<le> 1" using n(1) f by linarith
  from near_bound [OF this b(2,1)] have "\<bar>fl (f * 10000) + 1 / 2\<bar> \<le> 2 ^ 49" by simp
  note m = fl_near [OF this]
  define x where "x = (if fused then fl (f * 10000 + 1 / 2) else fl (fl (f * 10000) + 1 / 2))"
  have "K \<le> fl (f * 10000 + 1 / 2)" "fl (f * 10000 + 1 / 2) < K + 1"
    "K \<le> fl (fl (f * 10000) + 1 / 2)" "fl (fl (f * 10000) + 1 / 2) < K + 1"
    using n m f by linarith+
  then have "K \<le> x \<and> x < K + 1" unfolding x_def by simp
  then have "trunc x = k" using b by (simp add: trunc_def K_def floor_eq_iff)
  then show ?thesis using assms(2,3) by (simp add: ScalePrice_def float_to_i64_def flip: x_def)
qed

section \<open>Properties\<close>

text \<open>
C27: Prices cross the API boundary exactly: a price with at most four decimals, given as a JSON number
and so rounded to the nearest double, is scaled to its exact number of ten-thousandths, and the way
from the fixed-point form to a double and back is the identity, on machines with and without fused
multiplication and addition.
\<close>

theorem ScalePrice_exact:
  assumes "0 \<le> k" "k \<le> 2 ^ 48"
  shows "ScalePrice fused oob (fl (of_int k / 10000)) = k \<and> ScalePrice fused oob (UnscalePrice k) = k"
proof -
  define K :: rat where "K = of_int k"
  have b: "K \<le> 2 ^ 48" "0 \<le> K" using assms by (simp_all add: K_def flip: of_int_le_iff)
  have div: "\<bar>fl (x / 10000) * 10000 - x\<bar> \<le> 1 / 16" if "\<bar>x\<bar> \<le> 2 ^ 49" for x
    using fl_error [of "x / 10000"] that by (simp add: field_simps)
  have 1: "\<bar>fl (of_int k / 10000) * 10000 - of_int k\<bar> \<le> 1 / 8" using div [of K] b by (simp add: K_def)
  have x: "\<bar>fl K - K\<bar> \<le> 1 / 16" using b by (intro fl_near) simp
  then have "\<bar>fl (fl K / 10000) * 10000 - fl K\<bar> \<le> 1 / 16" 
    using near_bound [OF _ b(2,1), of "fl K"] by (intro div) auto
  then have 2: "\<bar>UnscalePrice k * 10000 - of_int k\<bar> \<le> 1 / 8" using x unfolding UnscalePrice_def K_def by linarith
  show ?thesis using ScalePrice_near [OF 1 assms] ScalePrice_near [OF 2 assms] by simp
qed

theorem ScalePrice_exact_witness:
  "ScalePrice False (\<lambda>_. 0) (fl (4370 / 10000)) = 4370 \<and> fl (4370 / 10000) \<noteq> 4370 / 10000"
proof -
  have "ScalePrice False (\<lambda>_. 0) (fl (of_int 4370 / 10000)) = 4370"
    using ScalePrice_exact [of 4370 False "\<lambda>_. 0"] by simp
  moreover have "fl (4370 / 10000) \<noteq> 4370 / 10000" by code_simp
  ultimately show ?thesis by simp
qed

end
