(* ===== verification/Api_Store.thy ===== *)
theory Api_Store
  imports Db_Tables Redis_Commands Price_Scaling
begin

text \<open>
  The data of the HTTP API: the requests of \<^verbatim>\<open>internal/dto\<close> with their binding rules, the rows and
  queries of \<^verbatim>\<open>internal/repository\<close> the handlers use, and the tokens of \<^verbatim>\<open>pkg/auth\<close>.

  \<open>ApiEnv\<close> holds the libraries the handlers call, as functions: the UUID parser (\<open>parse\<close>), the JWT
  and bcrypt packages, the format checks of the validator, the conversion of an out-of-range float,
  and the text of a time in the zone of the process.
\<close>

section \<open>Libraries\<close>

record Claims =
  Cl_UserID :: string
  Cl_Email :: string
  Cl_ExpiresAt :: int
  Cl_IssuedAt :: int

record ApiEnv =
  V_parse :: "string \<Rightarrow> string option"
  V_sign :: "string \<Rightarrow> Claims \<Rightarrow> string option"
  V_parseJWT :: "string \<Rightarrow> int \<Rightarrow> string \<Rightarrow> (Claims \<times> bool) option"
  V_hash :: "string \<Rightarrow> string option"
  V_compare :: "string \<Rightarrow> string \<Rightarrow> bool"
  V_email :: "string \<Rightarrow> bool"
  V_url :: "string \<Rightarrow> bool"
  V_fmtTime :: "int \<Rightarrow> string"
  V_fused :: bool
  V_oob :: "rat \<Rightarrow> int"
  V_secret :: string
  V_router :: "Router option"

text \<open>Nanoseconds; a token lives for a day. The parser of the package checks it at the time \<open>now\<close>.\<close>

definition GenerateToken :: "ApiEnv \<Rightarrow> int \<Rightarrow> string \<Rightarrow> string \<Rightarrow> string option" where
  "GenerateToken v now userID email =
     V_sign v (V_secret v) \<lparr>Cl_UserID = userID, Cl_Email = email,
       Cl_ExpiresAt = now + 24 * 3600 * 1000000000, Cl_IssuedAt = now\<rparr>"

definition ValidateToken :: "ApiEnv \<Rightarrow> int \<Rightarrow> string \<Rightarrow> Claims option" where
  "ValidateToken v now tokenString =
     (case V_parseJWT v (V_secret v) now tokenString of
        None \<Rightarrow> None
      | Some (claims, valid) \<Rightarrow> if valid then Some claims else None)"

section \<open>Requests\<close>

fun dec_float :: "Json \<Rightarrow> rat \<Rightarrow> rat option" where
  "dec_float (JInt n) old = (if \<bar>fl (of_int n)\<bar> < 2 ^ 1024 then Some (fl (of_int n)) else None)"
| "dec_float (JFloat m e) old =
     (let x = fl (of_int m * 10 powi e) in if \<bar>x\<bar> < 2 ^ 1024 then Some x else None)"
| "dec_float JNull old = Some old"
| "dec_float _ old = None"

record CreateOrderRequest =
  CO_OrderID :: string
  CO_EventID :: string
  CO_OrderType :: string
  CO_Outcome :: string
  CO_Side :: string
  CO_Quantity :: int
  CO_Price :: rat

definition set_CreateOrder_field :: "string \<Rightarrow> Json \<Rightarrow> CreateOrderRequest \<Rightarrow> CreateOrderRequest option" where
  "set_CreateOrder_field k v r =
     (if eq_fold k ''orderId'' then map_option (\<lambda>x. r\<lparr>CO_OrderID := x\<rparr>) (dec_string v (CO_OrderID r))
      else if eq_fold k ''eventId'' then map_option (\<lambda>x. r\<lparr>CO_EventID := x\<rparr>) (dec_string v (CO_EventID r))
      else if eq_fold k ''orderType'' then map_option (\<lambda>x. r\<lparr>CO_OrderType := x\<rparr>) (dec_string v (CO_OrderType r))
      else if eq_fold k ''outcome'' then map_option (\<lambda>x. r\<lparr>CO_Outcome := x\<rparr>) (dec_string v (CO_Outcome r))
      else if eq_fold k ''side'' then map_option (\<lambda>x. r\<lparr>CO_Side := x\<rparr>) (dec_string v (CO_Side r))
      else if eq_fold k ''quantity'' then map_option (\<lambda>x. r\<lparr>CO_Quantity := x\<rparr>) (dec_i64 v (CO_Quantity r))
      else if eq_fold k ''price'' then map_option (\<lambda>x. r\<lparr>CO_Price := x\<rparr>) (dec_float v (CO_Price r))
      else Some r)"

text \<open>The binding tags: \<^verbatim>\<open>required\<close> is a non-zero value, \<^verbatim>\<open>omitempty\<close> skips the rest on a zero one.\<close>

definition valid_CreateOrder :: "CreateOrderRequest \<Rightarrow> bool" where
  "valid_CreateOrder r \<longleftrightarrow> CO_EventID r \<noteq> []
     \<and> (CO_OrderType r = ''LIMIT'' \<or> CO_OrderType r = ''MARKET'')
     \<and> (CO_Outcome r = ''YES'' \<or> CO_Outcome r = ''NO'')
     \<and> (CO_Side r = ''BUY'' \<or> CO_Side r = ''SELL'')
     \<and> 0 < CO_Quantity r \<and> 0 \<le> CO_Price r"

definition bindCreateOrder :: "Json \<Rightarrow> CreateOrderRequest option" where
  "bindCreateOrder body =
     (case unmarshal set_CreateOrder_field body \<lparr>CO_OrderID = [], CO_EventID = [], CO_OrderType = [],
             CO_Outcome = [], CO_Side = [], CO_Quantity = 0, CO_Price = 0\<rparr> of
        None \<Rightarrow> None
      | Some req \<Rightarrow> if valid_CreateOrder req then Some req else None)"

text \<open>\<^verbatim>\<open>expiresAt\<close> with the instant its text stands for, if it is an RFC 3339 time.\<close>

record CreateEventRequest =
  CE_Title :: string
  CE_Description :: string
  CE_Question :: string
  CE_ImageURL :: string
  CE_ExpiresAt :: "string \<times> int option"

fun dec_time_text :: "Json \<Rightarrow> string \<times> int option \<Rightarrow> (string \<times> int option) option" where
  "dec_time_text (JStr s) old = Some (s, None)"
| "dec_time_text (JTime s t) old = Some (s, Some t)"
| "dec_time_text JNull old = Some old"
| "dec_time_text _ old = None"

definition set_CreateEvent_field :: "string \<Rightarrow> Json \<Rightarrow> CreateEventRequest \<Rightarrow> CreateEventRequest option" where
  "set_CreateEvent_field k v r =
     (if eq_fold k ''title'' then map_option (\<lambda>x. r\<lparr>CE_Title := x\<rparr>) (dec_string v (CE_Title r))
      else if eq_fold k ''description'' then map_option (\<lambda>x. r\<lparr>CE_Description := x\<rparr>) (dec_string v (CE_Description r))
      else if eq_fold k ''question'' then map_option (\<lambda>x. r\<lparr>CE_Question := x\<rparr>) (dec_string v (CE_Question r))
      else if eq_fold k ''imageurl'' then map_option (\<lambda>x. r\<lparr>CE_ImageURL := x\<rparr>) (dec_string v (CE_ImageURL r))
      else if eq_fold k ''expiresAt'' then map_option (\<lambda>x. r\<lparr>CE_ExpiresAt := x\<rparr>) (dec_time_text v (CE_ExpiresAt r))
      else Some r)"

definition bindCreateEvent :: "ApiEnv \<Rightarrow> Json \<Rightarrow> CreateEventRequest option" where
  "bindCreateEvent v body =
     (case unmarshal set_CreateEvent_field body
             \<lparr>CE_Title = [], CE_Description = [], CE_Question = [], CE_ImageURL = [], CE_ExpiresAt = ([], None)\<rparr> of
        None \<Rightarrow> None
      | Some r \<Rightarrow>
          if CE_Title r \<noteq> [] \<and> CE_Description r \<noteq> [] \<and> CE_Question r \<noteq> [] \<and> CE_ImageURL r \<noteq> []
             \<and> V_url v (CE_ImageURL r) \<and> fst (CE_ExpiresAt r) \<noteq> []
          then Some r else None)"

text \<open>\<^verbatim>\<open>SignupRequest\<close> and \<^verbatim>\<open>SigninRequest\<close>; the password has a least length at signup, counted in bytes here.\<close>

record Credentials =
  Cr_Email :: string
  Cr_Password :: string

definition set_Credentials_field :: "string \<Rightarrow> Json \<Rightarrow> Credentials \<Rightarrow> Credentials option" where
  "set_Credentials_field k v r =
     (if eq_fold k ''email'' then map_option (\<lambda>x. r\<lparr>Cr_Email := x\<rparr>) (dec_string v (Cr_Email r))
      else if eq_fold k ''password'' then map_option (\<lambda>x. r\<lparr>Cr_Password := x\<rparr>) (dec_string v (Cr_Password r))
      else Some r)"

definition bindCredentials :: "ApiEnv \<Rightarrow> nat \<Rightarrow> Json \<Rightarrow> Credentials option" where
  "bindCredentials v minLength body =
     (case unmarshal set_Credentials_field body \<lparr>Cr_Email = [], Cr_Password = []\<rparr> of
        None \<Rightarrow> None
      | Some r \<Rightarrow>
          if Cr_Email r \<noteq> [] \<and> V_email v (Cr_Email r) \<and> Cr_Password r \<noteq> [] \<and> minLength \<le> length (Cr_Password r)
          then Some r else None)"

section \<open>Rows and queries\<close>

record EventRow =
  ER_Title :: string
  ER_Description :: string
  ER_Question :: string
  ER_Thumbnail :: string
  ER_IsActive :: "bool option"
  ER_ExpiresAt :: int
  ER_CreatedAt :: int

record UserRow =
  UR_ID :: string
  UR_PasswordHash :: string
  UR_CreatedAt :: int

text \<open>The tables of the settlement, and the columns of events and users that only the API reads.\<close>

record ApiDB =
  tables :: DB
  event_rows :: "string \<rightharpoonup> EventRow"
  user_rows :: "string \<rightharpoonup> UserRow"

definition GetEventByID :: "bool \<Rightarrow> string \<Rightarrow> ApiDB \<Rightarrow> EventRow option" where
  "GetEventByID up eid db = (if up then event_rows db eid else None)"

text \<open>
  \<^verbatim>\<open>GetActiveEvents\<close>: the active rows by expiry. \<open>scan\<close> is the order in which the database comes
  across the rows, which decides between equal times.
\<close>

definition GetActiveEvents :: "bool \<Rightarrow> string list \<Rightarrow> ApiDB \<Rightarrow> (string \<times> EventRow) list option" where
  "GetActiveEvents up scan db =
     (if up then
        Some (sort_key (\<lambda>(eid, row). ER_ExpiresAt row)
          (filter (\<lambda>(eid, row). ER_IsActive row = Some True)
             (List.map_filter (\<lambda>eid. map_option (Pair eid) (event_rows db eid)) scan)))
      else None)"

text \<open>The identifier of a new row is generated by the database; the fate of the statement is an \<^typ>\<open>io\<close>.\<close>

definition CreateEventQ ::
  "io \<Rightarrow> string \<Rightarrow> int \<Rightarrow> CreateEventRequest \<Rightarrow> int \<Rightarrow> ApiDB \<Rightarrow> EventRow option \<times> ApiDB" where
  "CreateEventQ r eid now req expiresAt db =
     (if event_rows db eid \<noteq> None then (None, db)
      else
        (let row = \<lparr>ER_Title = CE_Title req, ER_Description = CE_Description req, ER_Question = CE_Question req,
               ER_Thumbnail = CE_ImageURL req, ER_IsActive = Some True, ER_ExpiresAt = expiresAt, ER_CreatedAt = now\<rparr>
         in (if r = IoOk then Some row else None,
             if applied r then db\<lparr>event_rows := (event_rows db)(eid \<mapsto> row),
                  tables := (tables db)\<lparr>db_events := (db_events (tables db))(eid \<mapsto> 0)\<rparr>\<rparr>
             else db)))"

text \<open>
  \<^verbatim>\<open>DeleteEvent\<close> takes the orders of the event with it and is refused while a trade, a position or a
  ledger entry refers to the event or to one of them.
\<close>

definition event_referenced :: "string \<Rightarrow> DB \<Rightarrow> bool" where
  "event_referenced eid db \<longleftrightarrow>
     (\<exists>t row. db_trades db t = Some row \<and> (TR_EventID row = eid
        \<or> map_option OR_EventID (db_orders db (TR_TakerOrderID row)) = Some eid
        \<or> map_option OR_EventID (db_orders db (TR_MakerOrderID row)) = Some eid))
     \<or> (\<exists>u oc. db_positions db (u, eid, oc) \<noteq> None)
     \<or> (\<exists>row\<in>set (db_transactions db). map_option OR_EventID (db_orders db (TX_OrderID row)) = Some eid)"

definition DeleteEvent :: "io \<Rightarrow> string \<Rightarrow> ApiDB \<Rightarrow> ApiDB" where
  "DeleteEvent r eid db =
     (if \<not> applied r \<or> event_referenced eid (tables db) then db
      else db\<lparr>event_rows := (event_rows db)(eid := None),
              tables := (tables db)\<lparr>db_events := (db_events (tables db))(eid := None),
                db_orders := (\<lambda>oid. case db_orders (tables db) oid of None \<Rightarrow> None
                  | Some row \<Rightarrow> if OR_EventID row = eid then None else Some row)\<rparr>\<rparr>)"

definition GetUserByEmail :: "bool \<Rightarrow> string \<Rightarrow> ApiDB \<Rightarrow> UserRow option" where
  "GetUserByEmail up email db = (if up then user_rows db email else None)"

text \<open>A new user has the default balance of 100, in the units of the column.\<close>

definition CreateUser :: "io \<Rightarrow> string \<Rightarrow> int \<Rightarrow> string \<Rightarrow> string \<Rightarrow> ApiDB \<Rightarrow> UserRow option \<times> ApiDB" where
  "CreateUser r uid now email passwordHash db =
     (if user_rows db email \<noteq> None \<or> db_users (tables db) uid \<noteq> None then (None, db)
      else
        (let row = \<lparr>UR_ID = uid, UR_PasswordHash = passwordHash, UR_CreatedAt = now\<rparr>
         in (if r = IoOk then Some row else None,
             if applied r then db\<lparr>user_rows := (user_rows db)(email \<mapsto> row),
                  tables := (tables db)\<lparr>db_users := (db_users (tables db))(uid \<mapsto> 100 * 10 ^ 8)\<rparr>\<rparr>
             else db)))"

end
