(* ===== verification/Api_Handlers.thy ===== *)
theory Api_Handlers
  imports Api_Store
begin

text \<open>
  The HTTP API: the handlers of \<^verbatim>\<open>internal/handler\<close>, the authentication middleware and the routes.

  A handler takes the answers of the environment (\<open>ApiIO\<close>), what it reads of the request, and the
  state: the database and the command streams. A response is a status and a body; the flag \<open>success\<close>
  that goes with the bodies is left out. \<open>A_query\<close> tells if the connection carried the first query,
  \<open>A_scan\<close> is the order in which a query comes across the events, \<open>A_insert\<close> and \<open>A_delete\<close> are the
  fates of the statements that change the database.
\<close>

section \<open>State and responses\<close>

record RpcIO =
  R_subscribed :: bool
  R_xadd :: "nat \<Rightarrow> io"
  R_incr :: "64 word option"
  R_uuid :: string
  R_now :: int
  R_client :: string
  R_events :: "await_event list"

record ApiIO =
  A_query :: bool
  A_scan :: "string list"
  A_insert :: io
  A_delete :: io
  A_uuid :: string
  A_now :: int
  A_rpc :: RpcIO
  A_fan :: "nat \<Rightarrow> FanIO"

record Api =
  A_db :: ApiDB
  A_streams :: streams

datatype Body =
    ErrorBody string
  | BindError
  | DataBody Json
  | EventBody string EventRow
  | EventsBody "(string \<times> EventRow) list"
  | SignupBody string string int
  | SigninBody string string string
  | MeBody string
  | MessageBody string

type_synonym Response = "nat \<times> Body"

definition bad_request :: "string \<Rightarrow> Response" where
  "bad_request msg = (400, ErrorBody msg)"

text \<open>The call of the engine and the reply, with the error cases in one: a missing reply is an error.\<close>

definition callEngine ::
  "ApiEnv \<Rightarrow> RpcIO \<Rightarrow> string \<Rightarrow> string \<Rightarrow> Json \<Rightarrow> streams \<Rightarrow> EngineResponse option \<times> streams" where
  "callEngine v io eventID typ payload ss =
     (case SendAndAwait (R_subscribed io) (R_xadd io) (V_router v) (R_incr io) (R_uuid io) (R_now io)
             (R_client io) eventID typ payload (R_events io) ss of
        (Some (Inr resp), True, ss') \<Rightarrow> (Some resp, ss')
      | (_, _, ss') \<Rightarrow> (None, ss'))"

text \<open>The end of every handler that calls the engine.\<close>

definition relay :: "EngineResponse option \<Rightarrow> Response" where
  "relay reply =
     (case reply of
        None \<Rightarrow> bad_request ''orderbook not responding''
      | Some resp \<Rightarrow>
          if \<not> Res_Success resp then bad_request ''orderbook not responding''
          else (200, DataBody (Res_Data resp)))"

section \<open>Orders\<close>

definition orderPayload :: "ApiEnv \<Rightarrow> string \<Rightarrow> string \<Rightarrow> CreateOrderRequest \<Rightarrow> Json" where
  "orderPayload v userID orderID req =
     JObj [(''eventId'', JStr (CO_EventID req)), (''orderId'', JStr orderID),
       (''orderType'', JStr (CO_OrderType req)), (''outcome'', JStr (CO_Outcome req)),
       (''price'', JInt (ScalePrice (V_fused v) (V_oob v) (CO_Price req))),
       (''quantity'', JInt (CO_Quantity req)), (''side'', JStr (CO_Side req)), (''userId'', JStr userID)]"

definition CreateOrder :: "ApiEnv \<Rightarrow> ApiIO \<Rightarrow> string option \<Rightarrow> Json \<Rightarrow> Api \<Rightarrow> Response \<times> Api" where
  "CreateOrder v io user body s =
     (case user of
        None \<Rightarrow> ((401, ErrorBody ''unauthorized''), s)
      | Some userID \<Rightarrow>
          (case bindCreateOrder body of
             None \<Rightarrow> ((400, BindError), s)
           | Some req \<Rightarrow>
               if CO_OrderType req = ''LIMIT'' \<and> CO_Price req \<le> 0
                 then (bad_request ''price is required for LIMIT orders'', s)
               else
                 (case V_parse v (CO_EventID req) of
                    None \<Rightarrow> (bad_request ''invalid event ID'', s)
                  | Some eventID \<Rightarrow>
                      (case GetEventByID (A_query io) eventID (A_db s) of
                         None \<Rightarrow> (bad_request ''event not found or not active'', s)
                       | Some event \<Rightarrow>
                           if ER_IsActive event \<noteq> Some True then (bad_request ''event is not active'', s)
                           else
                             (let orderID = (if CO_OrderID req = [] then A_uuid io else CO_OrderID req);
                                  (reply, ss) = callEngine v (A_rpc io) (CO_EventID req) CreateOrderCommand
                                    (orderPayload v userID orderID req) (A_streams s)
                              in (relay reply, s\<lparr>A_streams := ss\<rparr>))))))"

definition DeleteOrder :: "ApiEnv \<Rightarrow> ApiIO \<Rightarrow> string option \<Rightarrow> string \<Rightarrow> Api \<Rightarrow> Response \<times> Api" where
  "DeleteOrder v io user orderID s =
     (case user of
        None \<Rightarrow> ((401, ErrorBody ''unauthorized''), s)
      | Some userID \<Rightarrow>
          (case V_parse v orderID of
             None \<Rightarrow> (bad_request ''invalid order ID'', s)
           | Some oid \<Rightarrow>
               (case (if A_query io then GetOrderByID oid (tables (A_db s)) else None) of
                  None \<Rightarrow> ((404, ErrorBody ''order not found''), s)
                | Some order \<Rightarrow>
                    if OR_UserID order \<noteq> userID
                      then ((403, ErrorBody ''you are not authorized to cancel this order''), s)
                    else
                      (let (reply, ss) = callEngine v (A_rpc io) (OR_EventID order) CancelOrderCommand
                             (JObj [(''eventId'', JStr (OR_EventID order)), (''orderId'', JStr orderID)]) (A_streams s)
                       in (relay reply, s\<lparr>A_streams := ss\<rparr>)))))"

section \<open>Order books and events\<close>

definition GetOrderbook :: "ApiEnv \<Rightarrow> ApiIO \<Rightarrow> string \<Rightarrow> Api \<Rightarrow> Response \<times> Api" where
  "GetOrderbook v io eventID s =
     (case V_parse v eventID of
        None \<Rightarrow> (bad_request ''invalid event ID'', s)
      | Some eid \<Rightarrow>
          (case GetEventByID (A_query io) eid (A_db s) of
             None \<Rightarrow> ((404, ErrorBody ''event not found''), s)
           | Some _ \<Rightarrow>
               (let (reply, ss) = callEngine v (A_rpc io) eventID GetDepthCommand
                      (JObj [(''eventId'', JStr eventID)]) (A_streams s)
                in (relay reply, s\<lparr>A_streams := ss\<rparr>))))"

definition GetOrderbookDepth :: "ApiEnv \<Rightarrow> ApiIO \<Rightarrow> string \<Rightarrow> Api \<Rightarrow> Response \<times> Api" where
  "GetOrderbookDepth v io eventID s =
     (case V_parse v eventID of
        None \<Rightarrow> (bad_request ''invalid event ID'', s)
      | Some eid \<Rightarrow>
          (case GetEventByID (A_query io) eid (A_db s) of
             None \<Rightarrow> ((404, ErrorBody ''event not found''), s)
           | Some _ \<Rightarrow>
               (let (reply, ss) = callEngine v (A_rpc io) eventID GetDepthCommand
                      (JObj [(''eventId'', JStr eventID)]) (A_streams s)
                in (relay reply, s\<lparr>A_streams := ss\<rparr>))))"

definition GetEvents :: "ApiIO \<Rightarrow> Api \<Rightarrow> Response \<times> Api" where
  "GetEvents io s =
     (case GetActiveEvents (A_query io) (A_scan io) (A_db s) of
        None \<Rightarrow> ((500, ErrorBody ''failed to fetch events''), s)
      | Some events \<Rightarrow> if events = [] then ((200, EventsBody []), s) else ((200, EventsBody events), s))"

definition GetEvent :: "ApiEnv \<Rightarrow> ApiIO \<Rightarrow> string \<Rightarrow> Api \<Rightarrow> Response \<times> Api" where
  "GetEvent v io eventID s =
     (case V_parse v eventID of
        None \<Rightarrow> (bad_request ''invalid event ID'', s)
      | Some eid \<Rightarrow>
          (case GetEventByID (A_query io) eid (A_db s) of
             None \<Rightarrow> ((404, ErrorBody ''event not found''), s)
           | Some event \<Rightarrow> ((200, EventBody eid event), s)))"

definition CreateEvent :: "ApiEnv \<Rightarrow> ApiIO \<Rightarrow> Json \<Rightarrow> Api \<Rightarrow> Response \<times> Api" where
  "CreateEvent v io body s =
     (case bindCreateEvent v body of
        None \<Rightarrow> ((400, BindError), s)
      | Some req \<Rightarrow>
          (case snd (CE_ExpiresAt req) of
             None \<Rightarrow> (bad_request ''invalid expiresAt format, use RFC3339'', s)
           | Some expiresAt \<Rightarrow>
               (case CreateEventQ (A_insert io) (A_uuid io) (A_now io) req expiresAt (A_db s) of
                  (None, db) \<Rightarrow> ((500, ErrorBody ''failed to create event''), s\<lparr>A_db := db\<rparr>)
                | (Some event, db) \<Rightarrow>
                    (let eid = A_uuid io;
                         (reply, ss) = callEngine v (A_rpc io) eid CreateEventCommand
                           (JObj [(''eventId'', JStr eid), (''expiresAt'', JStr (V_fmtTime v (ER_ExpiresAt event))),
                             (''title'', JStr (ER_Title event))]) (A_streams s)
                     in case reply of
                          Some resp \<Rightarrow>
                            if Res_Success resp then ((201, EventBody eid event), s\<lparr>A_db := db, A_streams := ss\<rparr>)
                            else (bad_request ''orderbook not responding'',
                                  s\<lparr>A_db := DeleteEvent (A_delete io) eid db, A_streams := ss\<rparr>)
                        | None \<Rightarrow> (bad_request ''orderbook not responding'',
                                   s\<lparr>A_db := DeleteEvent (A_delete io) eid db, A_streams := ss\<rparr>)))))"

section \<open>Users\<close>

text \<open>\<open>hasRedis\<close>: the handler was built with a Redis manager. The outcome of the fan-out is ignored.\<close>

definition Signup :: "ApiEnv \<Rightarrow> ApiIO \<Rightarrow> bool \<Rightarrow> Json \<Rightarrow> Api \<Rightarrow> Response \<times> Api" where
  "Signup v io hasRedis body s =
     (case bindCredentials v 6 body of
        None \<Rightarrow> ((400, BindError), s)
      | Some req \<Rightarrow>
          if GetUserByEmail (A_query io) (Cr_Email req) (A_db s) \<noteq> None
            then ((409, ErrorBody ''email already registered''), s)
          else
            (case V_hash v (Cr_Password req) of
               None \<Rightarrow> ((500, ErrorBody ''failed to hash password''), s)
             | Some hashed \<Rightarrow>
                 (case CreateUser (A_insert io) (A_uuid io) (A_now io) (Cr_Email req) hashed (A_db s) of
                    (None, db) \<Rightarrow> ((500, ErrorBody ''failed to create user''), s\<lparr>A_db := db\<rparr>)
                  | (Some user, db) \<Rightarrow>
                      (let ss = (if hasRedis
                             then snd (SendCommandFanout (A_fan io) (V_router v) UserCreatedCommand
                               (JObj [(''userId'', JStr (UR_ID user))]) (A_streams s))
                             else A_streams s)
                       in ((201, SignupBody (UR_ID user) (Cr_Email req) (UR_CreatedAt user)),
                           s\<lparr>A_db := db, A_streams := ss\<rparr>)))))"

definition Signin :: "ApiEnv \<Rightarrow> ApiIO \<Rightarrow> Json \<Rightarrow> Api \<Rightarrow> Response \<times> Api" where
  "Signin v io body s =
     (case bindCredentials v 0 body of
        None \<Rightarrow> ((400, BindError), s)
      | Some req \<Rightarrow>
          (case GetUserByEmail (A_query io) (Cr_Email req) (A_db s) of
             None \<Rightarrow> ((401, ErrorBody ''invalid credentials''), s)
           | Some user \<Rightarrow>
               if \<not> V_compare v (UR_PasswordHash user) (Cr_Password req)
                 then ((401, ErrorBody ''invalid credentials''), s)
               else
                 (case GenerateToken v (A_now io) (UR_ID user) (Cr_Email req) of
                    None \<Rightarrow> ((500, ErrorBody ''failed to generate token''), s)
                  | Some token \<Rightarrow> ((200, SigninBody token (UR_ID user) (Cr_Email req)), s))))"

definition Me :: "string option \<Rightarrow> Response" where
  "Me user = (case user of None \<Rightarrow> (401, ErrorBody ''unauthorized'') | Some userID \<Rightarrow> (200, MeBody userID))"

definition GetPositionH :: "string option \<Rightarrow> Response" where
  "GetPositionH user =
     (case user of None \<Rightarrow> (401, ErrorBody ''unauthorized'')
      | Some userID \<Rightarrow> (200, MessageBody (''get position for user: '' @ userID)))"

definition GetBalancesH :: "string option \<Rightarrow> Response" where
  "GetBalancesH user =
     (case user of None \<Rightarrow> (401, ErrorBody ''unauthorized'')
      | Some userID \<Rightarrow> (200, MessageBody (''get balances for user: '' @ userID)))"

section \<open>Authentication and routes\<close>

text \<open>\<^verbatim>\<open>strings.Split\<close> at the blank.\<close>

fun split_blank :: "string \<Rightarrow> string list" where
  "split_blank [] = [[]]"
| "split_blank (c # cs) =
     (if c = CHR '' '' then [] # split_blank cs
      else case split_blank cs of [] \<Rightarrow> [[c]] | p # ps \<Rightarrow> (c # p) # ps)"

definition AuthMiddleware :: "ApiEnv \<Rightarrow> int \<Rightarrow> string \<Rightarrow> Response + Claims" where
  "AuthMiddleware v now authHeader =
     (if authHeader = [] then Inl (401, ErrorBody ''Authorization header required'')
      else
        (let parts = split_blank authHeader
         in if length parts \<noteq> 2 \<or> parts ! 0 \<noteq> ''Bearer''
              then Inl (401, ErrorBody ''Invalid authorization format'')
            else
              (case ValidateToken v now (parts ! 1) of
                 None \<Rightarrow> Inl (401, ErrorBody ''Invalid token'')
               | Some claims \<Rightarrow> Inr claims)))"

text \<open>The routes; a path parameter is part of the route.\<close>

datatype Route =
    Hello | Ping | PostSignup | PostSignin
  | GetMe | GetPositions | GetBalance | GetEventsR | GetEventR string | PostEvent
  | PostOrder | DeleteOrderR string | GetBook string | GetBookDepth string

fun public_route :: "Route \<Rightarrow> bool" where
  "public_route Hello = True"
| "public_route Ping = True"
| "public_route PostSignup = True"
| "public_route PostSignin = True"
| "public_route _ = False"

fun protected :: "ApiEnv \<Rightarrow> ApiIO \<Rightarrow> Route \<Rightarrow> Json \<Rightarrow> string option \<Rightarrow> Api \<Rightarrow> Response \<times> Api" where
  "protected v io GetMe body user s = (Me user, s)"
| "protected v io GetPositions body user s = (GetPositionH user, s)"
| "protected v io GetBalance body user s = (GetBalancesH user, s)"
| "protected v io GetEventsR body user s = GetEvents io s"
| "protected v io (GetEventR eid) body user s = GetEvent v io eid s"
| "protected v io PostEvent body user s = CreateEvent v io body s"
| "protected v io PostOrder body user s = CreateOrder v io user body s"
| "protected v io (DeleteOrderR oid) body user s = DeleteOrder v io user oid s"
| "protected v io (GetBook eid) body user s = GetOrderbook v io eid s"
| "protected v io (GetBookDepth eid) body user s = GetOrderbookDepth v io eid s"
| "protected v io _ body user s = ((404, ErrorBody ''404 page not found''), s)"

fun serve :: "ApiEnv \<Rightarrow> ApiIO \<Rightarrow> bool \<Rightarrow> Route \<Rightarrow> string \<Rightarrow> Json \<Rightarrow> Api \<Rightarrow> Response \<times> Api" where
  "serve v io hasRedis Hello authHeader body s = ((200, MessageBody ''hello''), s)"
| "serve v io hasRedis Ping authHeader body s = ((200, MessageBody ''pong''), s)"
| "serve v io hasRedis PostSignup authHeader body s = Signup v io hasRedis body s"
| "serve v io hasRedis PostSignin authHeader body s = Signin v io body s"
| "serve v io hasRedis route authHeader body s =
     (case AuthMiddleware v (A_now io) authHeader of
        Inl resp \<Rightarrow> (resp, s)
      | Inr claims \<Rightarrow> protected v io route body (Some (Cl_UserID claims)) s)"

end
