(* ===== verification/Api_Properties.thy ===== *)
theory Api_Properties
  imports Api_Handlers Engine_Safety
begin

text \<open>
  What the HTTP API guarantees: which requests reach a protected handler, what the handlers write to
  the command streams, and what the engine makes of it.
\<close>

section \<open>Commands of the handlers\<close>

text \<open>The entry of a command on the stream of its event, and how often a call of the engine appends it.\<close>

definition command_of :: "RpcIO \<Rightarrow> string \<Rightarrow> string \<Rightarrow> Json \<Rightarrow> CommandEnvelope" where
  "command_of io ev ty payload = createEnvelope (R_incr io) (R_uuid io) (R_now io) ty ev payload"

definition appended :: "ApiEnv \<Rightarrow> RpcIO \<Rightarrow> string \<Rightarrow> nat \<Rightarrow> Json \<Rightarrow> streams \<Rightarrow> streams" where
  "appended v io ev k x ss =
     (let key = streamFor (V_router v) (partitionFor (V_router v) ev)
      in ss(key := ss key @ replicate k \<lparr>SE_clientId = R_client io, SE_command = Some x\<rparr>))"

lemma appended_none [simp]: "appended v io ev 0 x ss = ss"
  by (simp add: appended_def Let_def)

lemma callEngine_appends:
  assumes "callEngine v io ev ty payload ss = (reply, ss')"
  obtains "ss' = ss"
  | k x where "1 \<le> k" "k \<le> 3" "marshalCommand (command_of io ev ty payload) = Some x" "ss' = appended v io ev k x ss"
proof -
  let ?key = "streamFor (V_router v) (partitionFor (V_router v) ev)"
  show thesis
  proof (cases "R_subscribed io")
    case False
    with assms that(1) show thesis by (simp add: callEngine_def SendAndAwait_def)
  next
    case True
    then have ss': "ss' = snd (appendCommand (R_xadd io) (V_router v) (R_client io) (command_of io ev ty payload)
        (partitionFor (V_router v) ev) ss)"
      using assms unfolding callEngine_def SendAndAwait_def command_of_def
      by (auto simp: Let_def split: prod.splits option.splits sum.splits bool.splits if_splits)
    show thesis
    proof (cases "marshalCommand (command_of io ev ty payload)")
      case None
      with ss' that(1) show thesis by (simp add: appendCommand_def)
    next
      case (Some x)
      obtain k where "k \<le> MaxAppendRetries" "ss' = appended v io ev k x ss"
        using appendLoop_copies [of MaxAppendRetries "R_xadd io" 0 ?key
            "\<lparr>SE_clientId = R_client io, SE_command = Some x\<rparr>" ss] ss' Some
        by (auto simp: appendCommand_def appended_def Let_def)
      then show thesis using that(1) that(2) [of k x] Some by (cases "k = 0") (simp_all add: MaxAppendRetries_def)
    qed
  qed
qed

text \<open>A call that changes the streams has left a command the engine reads back.\<close>

lemma callEngine_command:
  assumes "callEngine v io ev ty payload ss = (reply, ss')" "ss' \<noteq> ss" "payload \<noteq> JBad"
  obtains k x cmd where "1 \<le> k" "k \<le> 3" "ss' = appended v io ev k x ss"
    "unmarshalCommand x = Some cmd" "Cmd_Type cmd = ty" "Cmd_Payload cmd = payload"
  using assms(1)
proof (cases rule: callEngine_appends)
  case 1
  with assms(2) show thesis by simp
next
  case (2 k x)
  have "unmarshalCommand x = Some (command_of io ev ty payload)"
    using 2(3) by (rule command_json_roundtrip) (simp add: command_of_def createEnvelope_def assms(3))
  with 2 show thesis by (intro that [of k x "command_of io ev ty payload"])
    (simp_all add: command_of_def createEnvelope_def)
qed

definition order_id :: "ApiIO \<Rightarrow> CreateOrderRequest \<Rightarrow> string" where
  "order_id io req = (if CO_OrderID req = [] then A_uuid io else CO_OrderID req)"

lemma CreateOrder_calls:
  assumes "CreateOrder v io (Some u) body s = (resp, s')" "s' \<noteq> s" "bindCreateOrder body = Some req"
  obtains reply ss where "callEngine v (A_rpc io) (CO_EventID req) CreateOrderCommand
      (orderPayload v u (order_id io req) req) (A_streams s) = (reply, ss)" "s' = s\<lparr>A_streams := ss\<rparr>"
  using assms
  by (auto simp: CreateOrder_def Let_def simp flip: order_id_def split: option.split_asm if_split_asm prod.split_asm)

lemma DeleteOrder_calls:
  assumes "DeleteOrder v io (Some u) orderID s = (resp, s')" "s' \<noteq> s"
  obtains oid row reply ss where "V_parse v orderID = Some oid" "db_orders (tables (A_db s)) oid = Some row"
    "OR_UserID row = u" "s' = s\<lparr>A_streams := ss\<rparr>"
    "callEngine v (A_rpc io) (OR_EventID row) CancelOrderCommand
       (JObj [(''eventId'', JStr (OR_EventID row)), (''orderId'', JStr orderID)]) (A_streams s) = (reply, ss)"
  using assms
  by (auto simp: DeleteOrder_def GetOrderByID_def Let_def split: option.split_asm if_split_asm prod.split_asm)

lemma decoded_order_quantity: "bindCreateOrder body = Some req \<Longrightarrow> in_i64 (CO_Quantity req)"
proof -
  have f: "set_CreateOrder_field k v r = Some r' \<Longrightarrow> in_i64 (CO_Quantity r) \<Longrightarrow> in_i64 (CO_Quantity r')" for k v r r'
    by (cases v) (auto simp: set_CreateOrder_field_def split: if_splits)
  assume "bindCreateOrder body = Some req"
  then show ?thesis
    using unmarshal_inv [of set_CreateOrder_field "\<lambda>r. in_i64 (CO_Quantity r)", OF f]
    by (auto simp: bindCreateOrder_def in_i64_def split: option.splits if_splits)
qed

lemma bound_order_valid: "bindCreateOrder body = Some req \<Longrightarrow> valid_CreateOrder req"
  by (auto simp: bindCreateOrder_def split: option.splits if_splits)

text \<open>The engine reads the order of a payload as the API wrote it.\<close>

lemma orderPayload_decodes:
  assumes "in_i64 (CO_Quantity req)" "in_i64 (ScalePrice (V_fused v) (V_oob v) (CO_Price req))" "orderID \<noteq> []"
  shows "wanted_order hio (orderPayload v userID orderID req) = Some
    \<lparr>Ord_ID = orderID, Ord_EventID = CO_EventID req, Ord_UserID = userID, Ord_OrderType = CO_OrderType req,
     Ord_Outcome = CO_Outcome req, Ord_Side = CO_Side req, Ord_Quantity = CO_Quantity req, Ord_FilledQuantity = 0,
     Ord_RemainingQuantity = CO_Quantity req, Ord_Price = ScalePrice (V_fused v) (V_oob v) (CO_Price req),
     Ord_Status = StatusPending, Ord_LockedFunds = 0, Ord_CreatedAt = H_now hio\<rparr>"
  using assms
  by (simp add: wanted_order_def orderPayload_def decodeRequest_def order_fields_def set_Request_field_def eq_fold_eval
      zeroRequest_def requestOrder_def)

section \<open>Orders\<close>


text \<open>
C24: Only the owner cancels an order: \<^verbatim>\<open>DeleteOrder\<close> leaves everything as it is unless the order is in
the database and belongs to the authenticated user, and then all it does is to append the CANCEL
command for this order, up to three times, to the stream of the partition of its event. Any other
user gets status 403.
\<close>

theorem api_cancel_only_own_orders:
  assumes "DeleteOrder v io (Some u) orderID s = (resp, s')"
  shows "(s' \<noteq> s \<longrightarrow> (\<exists>oid row k x cmd. V_parse v orderID = Some oid \<and> db_orders (tables (A_db s)) oid = Some row
      \<and> OR_UserID row = u \<and> k \<le> 3
      \<and> s' = s\<lparr>A_streams := appended v (A_rpc io) (OR_EventID row) k x (A_streams s)\<rparr>
      \<and> unmarshalCommand x = Some cmd \<and> Cmd_Type cmd = CancelOrderCommand
      \<and> map_option Req_OrderID (decodeRequest [''orderId'', ''eventId''] (Cmd_Payload cmd)) = Some orderID))
    \<and> (\<forall>oid row. V_parse v orderID = Some oid \<and> A_query io \<and> db_orders (tables (A_db s)) oid = Some row
        \<and> OR_UserID row \<noteq> u \<longrightarrow> fst resp = 403 \<and> s' = s)"
proof (intro conjI allI impI)
  assume ne: "s' \<noteq> s"
  let ?payload = "\<lambda>row. JObj [(''eventId'', JStr (OR_EventID row)), (''orderId'', JStr orderID)]"
  from assms ne obtain oid row reply ss where r: "V_parse v orderID = Some oid"
    "db_orders (tables (A_db s)) oid = Some row" "OR_UserID row = u" and s': "s' = s\<lparr>A_streams := ss\<rparr>"
    and c: "callEngine v (A_rpc io) (OR_EventID row) CancelOrderCommand (?payload row) (A_streams s) = (reply, ss)"
    by (rule DeleteOrder_calls)
  have "ss \<noteq> A_streams s" "?payload row \<noteq> JBad" using ne s' by auto
  with c obtain k x cmd where k: "k \<le> 3" "ss = appended v (A_rpc io) (OR_EventID row) k x (A_streams s)"
    "unmarshalCommand x = Some cmd" "Cmd_Type cmd = CancelOrderCommand" "Cmd_Payload cmd = ?payload row"
    by (rule callEngine_command)
  have "map_option Req_OrderID (decodeRequest [''orderId'', ''eventId''] (?payload row)) = Some orderID"
    by (simp add: decodeRequest_def set_Request_field_def eq_fold_eval zeroRequest_def)
  then show "\<exists>oid row k x cmd. V_parse v orderID = Some oid \<and> db_orders (tables (A_db s)) oid = Some row
      \<and> OR_UserID row = u \<and> k \<le> 3
      \<and> s' = s\<lparr>A_streams := appended v (A_rpc io) (OR_EventID row) k x (A_streams s)\<rparr>
      \<and> unmarshalCommand x = Some cmd \<and> Cmd_Type cmd = CancelOrderCommand
      \<and> map_option Req_OrderID (decodeRequest [''orderId'', ''eventId''] (Cmd_Payload cmd)) = Some orderID"
    using r s' k by (intro exI [of _ oid] exI [of _ row] exI [of _ k] exI [of _ x] exI [of _ cmd]) simp
next
  fix oid row
  assume "V_parse v orderID = Some oid \<and> A_query io \<and> db_orders (tables (A_db s)) oid = Some row \<and> OR_UserID row \<noteq> u"
  then show "fst resp = 403" "s' = s" using assms by (auto simp: DeleteOrder_def GetOrderByID_def)
qed

section \<open>Authentication\<close>

lemma split_blank_ne: "split_blank s \<noteq> []"
  by (induction s) (auto split: list.splits)

lemma split_blank_one: "split_blank s = [p] \<longleftrightarrow> s = p \<and> CHR '' '' \<notin> set s"
proof (induction s arbitrary: p)
  case (Cons c cs)
  obtain q qs where q: "split_blank cs = q # qs" using split_blank_ne [of cs] by (cases "split_blank cs") auto
  with Cons.IH [of cs] have "qs = [] \<and> q = cs \<longleftrightarrow> CHR '' '' \<notin> set cs" by auto
  moreover from q Cons.IH [of q] have "qs = [] \<longleftrightarrow> cs = q \<and> CHR '' '' \<notin> set cs" by auto
  ultimately show ?case using q by auto
qed auto

lemma split_blank_append: "CHR '' '' \<notin> set p \<Longrightarrow> split_blank (p @ CHR '' '' # q) = p # split_blank q"
  by (induction p) auto

lemma split_blank_two:
  "split_blank s = [p, q] \<longleftrightarrow> s = p @ CHR '' '' # q \<and> CHR '' '' \<notin> set p \<and> CHR '' '' \<notin> set q"
proof
  show "split_blank s = [p, q] \<Longrightarrow> s = p @ CHR '' '' # q \<and> CHR '' '' \<notin> set p \<and> CHR '' '' \<notin> set q"
  proof (induction s arbitrary: p)
    case (Cons c cs)
    then show ?case
      using split_blank_one [of cs q] by (cases "c = CHR '' ''") (auto split: list.splits)
  qed simp
next
  assume "s = p @ CHR '' '' # q \<and> CHR '' '' \<notin> set p \<and> CHR '' '' \<notin> set q"
  then show "split_blank s = [p, q]" using split_blank_one [of q q] by (simp add: split_blank_append)
qed

lemma two_parts: "length xs = 2 \<and> xs ! 0 = a \<longleftrightarrow> (\<exists>b. xs = [a, b])"
  by (cases xs rule: list.exhaust [case_names Nil Cons]) (auto simp: length_Suc_conv numeral_2_eq_2)

lemma AuthMiddleware_accepts:
  "AuthMiddleware v now hdr = Inr claims \<longleftrightarrow>
     (\<exists>token. hdr = ''Bearer '' @ token \<and> CHR '' '' \<notin> set token \<and> ValidateToken v now token = Some claims)"
proof -
  have "AuthMiddleware v now hdr = Inr claims \<longleftrightarrow>
      (\<exists>token. split_blank hdr = [''Bearer'', token] \<and> ValidateToken v now token = Some claims)"
    using two_parts [of "split_blank hdr" "''Bearer''"]
    by (auto simp: AuthMiddleware_def Let_def split: option.splits if_splits)
  then show ?thesis by (auto simp: split_blank_two)
qed

lemma AuthMiddleware_rejects: "AuthMiddleware v now hdr = Inl resp \<Longrightarrow> fst resp = 401"
  by (auto simp: AuthMiddleware_def Let_def split: if_splits option.splits)

text \<open>
C25: No protected route runs without a valid token: for every route but the four public ones, a
request either is answered with status 401 and changes nothing, or its header is exactly the word
\<^verbatim>\<open>Bearer\<close>, one blank and a token that the token check accepts, and then the handler of the route runs
for the user the token names.
\<close>

theorem protected_needs_token:
  assumes "\<not> public_route route" "serve v io hasRedis route hdr body s = (resp, s')"
  shows "(fst resp = 401 \<and> s' = s \<and> (\<exists>err. AuthMiddleware v (A_now io) hdr = Inl err)) \<or>
    (\<exists>token claims. hdr = ''Bearer '' @ token \<and> CHR '' '' \<notin> set token
       \<and> ValidateToken v (A_now io) token = Some claims
       \<and> protected v io route body (Some (Cl_UserID claims)) s = (resp, s'))"
proof -
  have serve: "serve v io hasRedis route hdr body s = (case AuthMiddleware v (A_now io) hdr of
      Inl resp \<Rightarrow> (resp, s) | Inr claims \<Rightarrow> protected v io route body (Some (Cl_UserID claims)) s)"
    using assms(1) by (cases route) (simp_all split: sum.split)
  show ?thesis
  proof (cases "AuthMiddleware v (A_now io) hdr")
    case (Inl err)
    then show ?thesis using assms(2) AuthMiddleware_rejects [OF Inl] unfolding serve by simp
  next
    case (Inr claims)
    then show ?thesis using assms(2) AuthMiddleware_accepts [of v "A_now io" hdr claims] unfolding serve by auto
  qed
qed

section \<open>Users\<close>

text \<open>What a successful signup has done.\<close>

lemma Signup_created:
  assumes "Signup v io hasRedis body s = ((201, b), s')"
  obtains req hashed where "bindCredentials v 6 body = Some req" "V_hash v (Cr_Password req) = Some hashed"
    "b = SignupBody (A_uuid io) (Cr_Email req) (A_now io)"
    "user_rows (A_db s') (Cr_Email req) = Some \<lparr>UR_ID = A_uuid io, UR_PasswordHash = hashed, UR_CreatedAt = A_now io\<rparr>"
    "A_streams s' = (if hasRedis then snd (SendCommandFanout (A_fan io) (V_router v) UserCreatedCommand
       (JObj [(''userId'', JStr (A_uuid io))]) (A_streams s)) else A_streams s)"
  using assms
  by (auto simp: Signup_def CreateUser_def applied_def Let_def split: option.split_asm if_split_asm prod.split_asm)

lemma bindCredentials_min: "bindCredentials v n body = Some req \<Longrightarrow> bindCredentials v 0 body = Some req"
  by (auto simp: bindCredentials_def split: option.splits if_splits)

text \<open>
Who signs up can sign in: after a successful signup, a signin with the same body, at any later
time at which the account is still there, gives a token for the account that was created, and for a
day the middleware takes this token for that user. The assumptions are what the libraries document:
bcrypt accepts the password a hash was made of, and the JWT package accepts a token it has signed with
the same secret until it expires; a token contains no blank.
\<close>

theorem signup_then_signin:
  assumes bcrypt: "\<And>p h. V_hash v p = Some h \<Longrightarrow> V_compare v h p"
    and jwt: "\<And>c tok t. V_sign v (V_secret v) c = Some tok \<Longrightarrow> Cl_IssuedAt c \<le> t \<Longrightarrow> t < Cl_ExpiresAt c \<Longrightarrow>
      V_parseJWT v (V_secret v) t tok = Some (c, True)"
    and compact: "\<And>c tok. V_sign v (V_secret v) c = Some tok \<Longrightarrow> CHR '' '' \<notin> set tok"
    and signup: "Signup v io hasRedis body s = ((201, SignupBody uid email created), s1)"
    and later: "user_rows (A_db s2) email = user_rows (A_db s1) email" "A_query io2"
      "GenerateToken v (A_now io2) uid email = Some tok"
    and t: "A_now io2 \<le> t" "t < A_now io2 + 24 * 3600 * 1000000000"
  shows "Signin v io2 body s2 = ((200, SigninBody tok uid email), s2)
    \<and> (\<exists>claims. AuthMiddleware v t (''Bearer '' @ tok) = Inr claims \<and> Cl_UserID claims = uid)"
proof -
  from signup obtain req hashed where r: "bindCredentials v 6 body = Some req" "V_hash v (Cr_Password req) = Some hashed"
    "uid = A_uuid io" "email = Cr_Email req"
    "user_rows (A_db s1) email = Some \<lparr>UR_ID = uid, UR_PasswordHash = hashed, UR_CreatedAt = A_now io\<rparr>"
    by (rule Signup_created) auto
  let ?c = "\<lparr>Cl_UserID = uid, Cl_Email = email, Cl_ExpiresAt = A_now io2 + 24 * 3600 * 1000000000, Cl_IssuedAt = A_now io2\<rparr>"
  have sign: "V_sign v (V_secret v) ?c = Some tok" using later(3) by (simp add: GenerateToken_def)
  have "Signin v io2 body s2 = ((200, SigninBody tok uid email), s2)"
    using r later bcrypt [OF r(2)] bindCredentials_min [OF r(1)] by (simp add: Signin_def GetUserByEmail_def)
  moreover have "ValidateToken v t tok = Some ?c"
    using jwt [OF sign, of t] t by (simp add: ValidateToken_def)
  then have "AuthMiddleware v t (''Bearer '' @ tok) = Inr ?c"
    using compact [OF sign] by (simp only: AuthMiddleware_accepts) blast
  ultimately show ?thesis by auto
qed


text \<open>A signup reports success also when the fan-out did not reach any partition.\<close>

lemma signup_without_funding:
  assumes "Signup v io True body s = ((201, b), s')" "V_router v = Some r" "F_xadd (A_fan io 0) = IoLost"
  shows "A_streams s' = A_streams s"
proof -
  have "snd (fanoutFrom (A_fan io) r ty payload 0 n ss) = ss" for ty payload n ss
    using assms(3) by (cases n) (auto simp: xaddCommand_def applied_def split: option.splits)
  then show ?thesis using assms(1,2) by (auto elim!: Signup_created simp: SendCommandFanout_def)
qed

section \<open>Listing events\<close>

text \<open>
  \<open>GetEvents\<close> lists the active events, each once and the ones that expire first at the head,
  whatever the order in which the database finds the rows; it changes nothing.
\<close>

lemma GetEvents_lists_active:
  assumes "GetEvents io s = ((200, EventsBody rows), s')" "distinct (A_scan io)"
    and "set (A_scan io) = dom (event_rows (A_db s))"
  shows "s' = s" and "sorted (map (\<lambda>(eid, row). ER_ExpiresAt row) rows)" and "distinct (map fst rows)"
    and "(eid, row) \<in> set rows \<longleftrightarrow> event_rows (A_db s) eid = Some row \<and> ER_IsActive row = Some True"
proof -
  let ?f = "\<lambda>eid. map_option (Pair eid) (event_rows (A_db s) eid)"
  let ?found = "List.map_filter ?f (A_scan io)"
  have rows: "rows = sort_key (\<lambda>(eid, row). ER_ExpiresAt row) (filter (\<lambda>(eid, row). ER_IsActive row = Some True) ?found)"
    and "s' = s"
    using assms(1) by (auto simp: GetEvents_def GetActiveEvents_def split: if_splits)
  then show "s' = s" "sorted (map (\<lambda>(eid, row). ER_ExpiresAt row) rows)" by simp_all
  have "map fst (List.map_filter ?f xs) = filter (\<lambda>x. x \<in> dom (event_rows (A_db s))) xs" for xs
    by (induction xs) (auto split: option.split)
  then have "distinct (map fst ?found)" using assms(2) by simp
  then show "distinct (map fst rows)" unfolding rows by (simp add: distinct_map inj_on_def)
  have "(eid, row) \<in> set ?found \<longleftrightarrow> event_rows (A_db s) eid = Some row"
    using assms(3) by (force simp: List.map_filter_def)
  then show "(eid, row) \<in> set rows \<longleftrightarrow> event_rows (A_db s) eid = Some row \<and> ER_IsActive row = Some True"
    unfolding rows by simp
qed

end
