(* ===== verification/Api_Scenarios.thy ===== *)
theory Api_Scenarios
  imports Api_Properties Engine_Scenarios
begin

text \<open>
  A small installation of the API, with libraries that keep what their packages document, on which
  the properties of the handlers are exercised.
\<close>

section \<open>Definitions\<close>

definition annClaims :: Claims where
  "annClaims = \<lparr>Cl_UserID = ''u1'', Cl_Email = ''a@b'', Cl_ExpiresAt = 86400000000000, Cl_IssuedAt = 0\<rparr>"

definition demoEnv :: ApiEnv where
  "demoEnv = \<lparr>V_parse = Some,
     V_sign = (\<lambda>secret c. if c = annClaims then Some ''tok'' else None),
     V_parseJWT = (\<lambda>secret t tok. if tok = ''tok'' then Some (annClaims, t < Cl_ExpiresAt annClaims) else None),
     V_hash = (\<lambda>p. Some (CHR ''#'' # p)), V_compare = (\<lambda>h p. h = CHR ''#'' # p),
     V_email = (\<lambda>_. True), V_url = (\<lambda>_. True), V_fmtTime = (\<lambda>_. []), V_fused = False, V_oob = (\<lambda>_. 0),
     V_secret = ''s'', V_router = Some (NewRouter 2 ''commands'')\<rparr>"

definition demoRpc :: RpcIO where
  "demoRpc = \<lparr>R_subscribed = True, R_xadd = (\<lambda>_. IoOk), R_incr = Some 1, R_uuid = ''r1'', R_now = 0,
     R_client = ''c1'', R_events = [TimerFired]\<rparr>"

definition demoIO :: ApiIO where
  "demoIO = \<lparr>A_query = True, A_scan = [], A_insert = IoOk, A_delete = IoOk, A_uuid = ''u1'', A_now = 0, A_rpc = demoRpc,
     A_fan = sampleFan\<rparr>"

definition demoOrderRow :: OrderRow where
  "demoOrderRow = \<lparr>OR_EventID = ''ev'', OR_UserID = ''u1'', OR_OrderType = ''LIMIT'', OR_Outcome = ''YES'',
     OR_Side = ''BUY'', OR_Quantity = 10 ^ 9, OR_Price = 4370 * 10 ^ 4, OR_Status = ''PENDING'',
     OR_FilledQuantity = 0, OR_RemainingQuantity = 10 ^ 9\<rparr>"

definition demoApi :: Api where
  "demoApi = \<lparr>A_db = \<lparr>tables = \<lparr>db_users = Map.empty, db_events = Map.empty(''ev'' \<mapsto> 0),
         db_orders = Map.empty(''o1'' \<mapsto> demoOrderRow), db_trades = Map.empty, db_positions = Map.empty,
         db_transactions = []\<rparr>,
       event_rows = Map.empty(''ev'' \<mapsto> \<lparr>ER_Title = ''t'', ER_Description = ''d'', ER_Question = ''q'',
         ER_Thumbnail = ''i'', ER_IsActive = Some True, ER_ExpiresAt = 0, ER_CreatedAt = 0\<rparr>),
       user_rows = Map.empty\<rparr>, A_streams = (\<lambda>_. [])\<rparr>"

definition orderBody :: Json where
  "orderBody = JObj [(''eventId'', JStr ''ev''), (''orderType'', JStr ''LIMIT''), (''outcome'', JStr ''YES''),
     (''side'', JStr ''BUY''), (''quantity'', JInt 10), (''price'', JFloat 437 (-3))]"

definition demoPrice :: rat where
  "demoPrice = fl (437 * 10 powi (-3))"

definition annBody :: Json where
  "annBody = JObj [(''email'', JStr ''a@b''), (''password'', JStr ''secret'')]"

section \<open>Runs\<close>

lemma demoPrice_near: "\<bar>demoPrice - 437 / 1000\<bar> \<le> 1 / 100000000"
proof -
  have "demoPrice = fl (437 / 1000)" by (simp add: demoPrice_def power_int_def power_one_over)
  then show ?thesis using fl_error [of "437 / 1000"] by simp
qed

lemma demoPrice_scaled: "ScalePrice False (\<lambda>_. 0) demoPrice = 4370"
proof (rule ScalePrice_near)
  show "\<bar>demoPrice * 10000 - of_int 4370\<bar> \<le> 1 / 8" 
    using demoPrice_near unfolding of_int_numeral by linarith
qed simp_all

lemma demoPrice_range: "\<bar>demoPrice\<bar> < 2 ^ 1024" "0 < demoPrice"
proof -
  have "\<bar>demoPrice\<bar> < 1" "0 < demoPrice" using demoPrice_near by linarith+
  moreover have "(1 :: rat) \<le> 2 ^ 1024" by (rule one_le_power) simp
  ultimately show "\<bar>demoPrice\<bar> < 2 ^ 1024" "0 < demoPrice" by (auto intro: less_le_trans)
qed

lemma orderBody_binds:
  "bindCreateOrder orderBody = Some \<lparr>CO_OrderID = [], CO_EventID = ''ev'', CO_OrderType = ''LIMIT'', CO_Outcome = ''YES'',
     CO_Side = ''BUY'', CO_Quantity = 10, CO_Price = demoPrice\<rparr>"
proof -
  have "dec_float (JFloat 437 (-3)) 0 = Some demoPrice"
    using demoPrice_range by (simp add: demoPrice_def Let_def)
  moreover have "dec_float (JFloat 437 (-3)) r = dec_float (JFloat 437 (-3)) 0" for r by simp
  ultimately show ?thesis using demoPrice_range(2)
    by (simp add: bindCreateOrder_def orderBody_def set_CreateOrder_field_def eq_fold_eval valid_CreateOrder_def in_i64_def
        del: dec_float.simps)
qed

lemma command_marshals: "\<exists>x. marshalCommand (createEnvelope inc i 0 ty ev payload) = Some x"
  by (rule marshal_at_time_0) (simp add: createEnvelope_def)

text \<open>A call of the engine that is appended and times out.\<close>

lemma demo_call:
  "fst (callEngine demoEnv demoRpc ev ty payload ss) = None
   \<and> snd (callEngine demoEnv demoRpc ev ty payload ss) \<noteq> ss"
proof -
  obtain x where x: "marshalCommand (createEnvelope (Some 1) ''r1'' 0 ty ev payload) = Some x"
    using command_marshals by blast
  let ?key = "streamFor (Some (NewRouter 2 ''commands'')) (partitionFor (Some (NewRouter 2 ''commands'')) ev)"
  have "appendLoop (\<lambda>_. IoOk) 0 MaxAppendRetries key en ss' = (True, ss'(key := ss' key @ [en]))" for key en ss'
    by (simp add: MaxAppendRetries_def numeral_3_eq_3 xaddCommand_def applied_def)
  then have c: "callEngine demoEnv demoRpc ev ty payload ss =
      (None, ss(?key := ss ?key @ [\<lparr>SE_clientId = ''c1'', SE_command = Some x\<rparr>]))"
    using x by (simp add: callEngine_def SendAndAwait_def demoEnv_def demoRpc_def appendCommand_def Let_def)
  have "f(k := f k @ [y]) \<noteq> f" for f :: streams and k y by (metis append_self_conv fun_upd_same not_Cons_self2)
  with c show ?thesis by simp
qed

lemma demo_order_sent:
  "A_streams (snd (CreateOrder demoEnv demoIO (Some ''u1'') orderBody demoApi)) \<noteq> A_streams demoApi"
proof -
  obtain reply ss where c: "callEngine demoEnv demoRpc ''ev'' CreateOrderCommand
      (orderPayload demoEnv ''u1'' ''u1'' \<lparr>CO_OrderID = [], CO_EventID = ''ev'', CO_OrderType = ''LIMIT'',
         CO_Outcome = ''YES'', CO_Side = ''BUY'', CO_Quantity = 10, CO_Price = demoPrice\<rparr>) (A_streams demoApi) = (reply, ss)"
    by (rule prod.exhaust)
  have "V_parse demoEnv = Some" "A_rpc demoIO = demoRpc" "A_query demoIO" "A_uuid demoIO = ''u1''"
    "\<exists>row. event_rows (A_db demoApi) ''ev'' = Some row \<and> ER_IsActive row = Some True"
    by (simp_all add: demoEnv_def demoIO_def demoApi_def)
  then have "CreateOrder demoEnv demoIO (Some ''u1'') orderBody demoApi = (relay reply, demoApi\<lparr>A_streams := ss\<rparr>)"
    using c demoPrice_range(2) by (auto simp: CreateOrder_def orderBody_binds GetEventByID_def Let_def)
  moreover have "ss \<noteq> A_streams demoApi" using demo_call c by (metis snd_conv)
  ultimately show ?thesis by simp
qed

lemma ann_signs_up:
  "\<exists>s'. Signup demoEnv demoIO True annBody demoApi = ((201, SignupBody ''u1'' ''a@b'' 0), s')
     \<and> user_rows (A_db s') ''a@b'' = Some \<lparr>UR_ID = ''u1'', UR_PasswordHash = ''#secret'', UR_CreatedAt = 0\<rparr>"
  by (simp add: Signup_def bindCredentials_def annBody_def set_Credentials_field_def eq_fold_eval demoEnv_def demoIO_def
      demoApi_def GetUserByEmail_def CreateUser_def applied_def Let_def)

lemma ann_token: "GenerateToken demoEnv 0 ''u1'' ''a@b'' = Some ''tok''"
  by (simp add: GenerateToken_def demoEnv_def annClaims_def)

section \<open>Witnesses\<close>


theorem api_cancel_only_own_orders_witness:
  "\<exists>resp s'. DeleteOrder demoEnv demoIO (Some ''u2'') ''o1'' demoApi = (resp, s') \<and> fst resp = 403 \<and> s' = demoApi"
proof -
  obtain resp s' where c: "DeleteOrder demoEnv demoIO (Some ''u2'') ''o1'' demoApi = (resp, s')" by (rule prod.exhaust)
  have "V_parse demoEnv ''o1'' = Some ''o1''" "A_query demoIO"
    "db_orders (tables (A_db demoApi)) ''o1'' = Some demoOrderRow" "OR_UserID demoOrderRow \<noteq> ''u2''"
    by (simp_all add: demoEnv_def demoIO_def demoApi_def demoOrderRow_def)
  with api_cancel_only_own_orders [OF c] c show ?thesis by blast
qed

theorem protected_needs_token_witness:
  "\<exists>resp. serve demoEnv demoIO True PostOrder ''Bearer bad'' orderBody demoApi = (resp, demoApi) \<and> fst resp = 401"
proof -
  obtain resp s' where c: "serve demoEnv demoIO True PostOrder ''Bearer bad'' orderBody demoApi = (resp, s')" by (rule prod.exhaust)
  have "ValidateToken demoEnv (A_now demoIO) tok = Some claims \<Longrightarrow> tok = ''tok''" for tok claims
    by (auto simp: ValidateToken_def demoEnv_def split: if_splits)
  moreover from protected_needs_token [OF _ c] have "fst resp = 401 \<and> s' = demoApi \<or>
      (\<exists>token claims. ''Bearer bad'' = ''Bearer '' @ token \<and> ValidateToken demoEnv (A_now demoIO) token = Some claims)"
    by auto
  ultimately show ?thesis using c by auto
qed

theorem signup_then_signin_witness:
  "\<exists>s'. Signup demoEnv demoIO True annBody demoApi = ((201, SignupBody ''u1'' ''a@b'' 0), s')
     \<and> Signin demoEnv demoIO annBody s' = ((200, SigninBody ''tok'' ''u1'' ''a@b''), s')
     \<and> (\<exists>claims. AuthMiddleware demoEnv 5 ''Bearer tok'' = Inr claims \<and> Cl_UserID claims = ''u1'')"
proof -
  obtain s' where s': "Signup demoEnv demoIO True annBody demoApi = ((201, SignupBody ''u1'' ''a@b'' 0), s')"
    using ann_signs_up by blast
  have "Signin demoEnv demoIO annBody s' = ((200, SigninBody ''tok'' ''u1'' ''a@b''), s')
    \<and> (\<exists>claims. AuthMiddleware demoEnv 5 (''Bearer '' @ ''tok'') = Inr claims \<and> Cl_UserID claims = ''u1'')"
    by (rule signup_then_signin [OF _ _ _ s' refl])
      (use ann_token in \<open>auto simp: demoEnv_def annClaims_def demoIO_def split: if_splits\<close>)
  with s' show ?thesis by simp
qed


end
