(* ===== verification/Service_Health.thy ===== *)
theory Service_Health
  imports Service_Config
begin

text \<open>
  Operations: the readiness probes of \<^verbatim>\<open>internal/observability/ops.go\<close> with the checks the engine process
  registers, and the instance identifier of \<^verbatim>\<open>pkg/logging\<close>.

  A check is its result, \<open>None\<close> for no error, else the error text. The order in which Go visits a map is
  an argument, a list of the names. The JSON of a response keeps the result of each check; encoding
  it sorts the names, which the model leaves to the map.
\<close>

section \<open>Readiness\<close>

type_synonym checks = "string \<rightharpoonup> string option"

definition NewOps :: checks where
  "NewOps = Map.empty"

definition AddCheck :: "string \<Rightarrow> string option \<Rightarrow> checks \<Rightarrow> checks" where
  "AddCheck name result cs = cs(name \<mapsto> result)"

record HealthBody =
  H_status :: string
  H_checks :: "string \<rightharpoonup> string"

text \<open>The loop over the checks, with \<open>ready\<close> and \<open>results\<close>.\<close>

fun run_checks :: "checks \<Rightarrow> string list \<Rightarrow> bool \<Rightarrow> (string \<rightharpoonup> string) \<Rightarrow> bool \<times> (string \<rightharpoonup> string)" where
  "run_checks cs [] ready results = (ready, results)"
| "run_checks cs (name # names) ready results =
     (case cs name of
        None \<Rightarrow> run_checks cs names ready results
      | Some (Some err) \<Rightarrow> run_checks cs names False (results(name \<mapsto> err))
      | Some None \<Rightarrow> run_checks cs names ready (results(name \<mapsto> ''ok'')))"

definition ReadyHandler :: "string list \<Rightarrow> checks \<Rightarrow> nat \<times> HealthBody" where
  "ReadyHandler order cs =
     (let (ready, results) = run_checks cs order True Map.empty
      in if ready then (200, \<lparr>H_status = ''ok'', H_checks = results\<rparr>)
         else (503, \<lparr>H_status = ''degraded'', H_checks = results\<rparr>))"

definition LiveHandler :: "nat \<times> string" where
  "LiveHandler = (200, ''ok'')"

text \<open>The paths of \<^verbatim>\<open>Handler\<close>: 200 with the metrics, the two probes, else 404.\<close>

definition ops_status :: "string list \<Rightarrow> checks \<Rightarrow> string \<Rightarrow> nat" where
  "ops_status order cs path =
     (if path = ''/metrics'' then 200
      else if path = ''/health/live'' then fst LiveHandler
      else if path = ''/health/ready'' then fst (ReadyHandler order cs)
      else 404)"

text \<open>The checks of the engine process: the ping of Redis, and that a partition lease is held.\<close>

definition engine_checks :: "string option \<Rightarrow> Engine \<Rightarrow> checks" where
  "engine_checks ping e =
     AddCheck ''partition-ownership'' (if OwnedPartitions e = 0 then Some ''no partition lease held'' else None)
       (AddCheck ''redis'' ping NewOps)"

section \<open>Instance identifiers\<close>

text \<open>
  \<^verbatim>\<open>itoa\<close> fills a buffer of 20 bytes from its end; \<open>buf\<close> is what has been written. The loop runs while
  the number is positive.
\<close>

function itoa_loop :: "int \<Rightarrow> string \<Rightarrow> string" where
  "itoa_loop n buf = (if n > 0 then itoa_loop (n div 10) (char_of (48 + nat (n mod 10)) # buf) else buf)"
  by pat_completeness auto

termination
  by (relation "measure (\<lambda>(n, buf). nat n)") auto

declare itoa_loop.simps [simp del]

definition itoa :: "int \<Rightarrow> string" where
  "itoa n = (if n = 0 then ''0'' else itoa_loop n [])"

text \<open>The identifier \<^verbatim>\<open>logging.New\<close> puts on every record; \<open>host\<close> is \<open>None\<close> when the host name cannot be read.\<close>

definition instanceID :: "string \<Rightarrow> string option \<Rightarrow> int \<Rightarrow> string" where
  "instanceID given host pid =
     (if given = [] then (case host of None \<Rightarrow> ''unknown'' | Some h \<Rightarrow> h) @ '':'' @ itoa pid else given)"

section \<open>Lemmas\<close>

lemma run_checks_ready:
  "fst (run_checks cs names ready results) \<longleftrightarrow> ready \<and> (\<forall>n\<in>set names. cs n \<in> {None, Some None})"
  by (induction names arbitrary: ready results) (auto split: option.splits)

lemma run_checks_results:
  "snd (run_checks cs names ready results) n =
     (if n \<in> set names \<and> cs n \<noteq> None then map_option (case_option ''ok'' id) (cs n) else results n)"
  by (induction names arbitrary: ready results) (auto split: option.splits)

lemma itoa_loop_digits: "0 < n \<Longrightarrow> itoa_loop n buf = nat_digits (nat n) @ buf"
proof (induction n buf rule: itoa_loop.induct)
  case (1 n buf)
  let ?c = "char_of (48 + nat (n mod 10)) :: char"
  have m: "nat (n mod 10) = nat n mod 10" "nat (n div 10) = nat n div 10"
    using 1 by (simp_all add: nat_mod_distrib nat_div_distrib)
  have u: "itoa_loop n buf = itoa_loop (n div 10) (?c # buf)"
    using 1(2) by (simp add: itoa_loop.simps [of n])
  show ?case
  proof (cases "n < 10")
    case True
    then have "nat_digits (nat n) = [?c]" using 1(2) m by (simp add: nat_digits.simps [of "nat n"])
    with True 1(2) show ?thesis by (simp add: u itoa_loop.simps [of 0])
  next
    case False
    then have "nat_digits (nat n) = nat_digits (nat n div 10) @ [?c]"
      by (simp add: nat_digits.simps [of "nat n"] m)
    with False 1 show ?thesis by (simp add: u m)
  qed
qed

text \<open>The identifier has the process number in decimal: \<^verbatim>\<open>itoa\<close> agrees with \<open>%d\<close> on numbers that are not negative.\<close>

lemma itoa_fmt_d: "0 \<le> n \<Longrightarrow> itoa n = fmt_d n"
proof (cases "n = 0")
  case True
  have "nat_digits 0 = ''0''" by code_simp
  with True show ?thesis by (simp add: itoa_def fmt_d_def)
qed (simp add: itoa_def itoa_loop_digits fmt_d_def)

lemma instanceID_inj:
  assumes "0 \<le> p" "0 \<le> q" "instanceID [] host p = instanceID [] host q"
  shows "p = q"
  using assms by (simp add: instanceID_def itoa_fmt_d fmt_d_inj)

section \<open>Properties\<close>

text \<open>
The readiness probe does not depend on the order in which the checks are visited: it answers 200
with the status ok if every registered check passed, and 503 degraded otherwise, and reports for
each registered check, and for no other name, its error or ok. For the engine process it is ready
exactly if Redis answers and the engine holds the lease of at least one partition.
\<close>

theorem readiness_sound:
  assumes "set order = dom cs"
  shows "fst (ReadyHandler order cs) = (if \<forall>r\<in>ran cs. r = None then 200 else 503)
    \<and> H_status (snd (ReadyHandler order cs)) = (if \<forall>r\<in>ran cs. r = None then ''ok'' else ''degraded'')
    \<and> H_checks (snd (ReadyHandler order cs)) = (\<lambda>n. map_option (case_option ''ok'' id) (cs n))
    \<and> (cs = engine_checks ping e \<longrightarrow> fst (ReadyHandler order cs) = 200 \<longleftrightarrow> ping = None \<and> OwnedPartitions e \<noteq> 0)"
proof -
  obtain ready results where r: "run_checks cs order True Map.empty = (ready, results)" by fastforce
  then have "ready \<longleftrightarrow> (\<forall>r\<in>ran cs. r = None)" and "results = (\<lambda>n. map_option (case_option ''ok'' id) (cs n))"
    using run_checks_ready [of cs order True Map.empty] run_checks_results [of cs order True Map.empty] assms
    by (auto simp: ran_def dom_def fun_eq_iff)
  moreover have "(\<forall>r\<in>ran (engine_checks ping e). r = None) \<longleftrightarrow> ping = None \<and> OwnedPartitions e \<noteq> 0"
    by (auto simp: engine_checks_def AddCheck_def NewOps_def)
  moreover have "ReadyHandler order cs = (if ready then (200, \<lparr>H_status = ''ok'', H_checks = results\<rparr>)
      else (503, \<lparr>H_status = ''degraded'', H_checks = results\<rparr>))"
    by (simp add: ReadyHandler_def r)
  ultimately show ?thesis by (cases ready) auto
qed

text \<open>An engine that has just started is alive, but not ready.\<close>

theorem readiness_sound_witness:
  "fst (ReadyHandler [''redis'', ''partition-ownership''] (engine_checks None freshEngine)) = 503"
proof -
  let ?cs = "engine_checks None freshEngine"
  have "set [''redis'', ''partition-ownership''] = dom ?cs"
    by (auto simp: engine_checks_def AddCheck_def NewOps_def)
  from readiness_sound [OF this, of None freshEngine] show ?thesis
    by (auto simp: OwnedPartitions_def freshEngine_def newEngine_def split: if_splits)
qed

end
