(* ===== verification/Outbox_Journal.thy ===== *)
theory Outbox_Journal
  imports Outbox
begin

text \<open>
  The journal file behind the outbox (\<^verbatim>\<open>outbox.go\<close>): \<open>NewOutbox\<close>, \<open>Append\<close>, \<open>Reset\<close>, \<open>ReadAll\<close> and \<open>Close\<close>
  on the bytes of the file, with the line scanner of \<^verbatim>\<open>bufio\<close>. \<open>Outbox\<close> treats the journal as a list of
  envelopes; here a run of the file operations is shown to keep exactly that list, as long as no
  write is torn.

  The operating system is an argument again: a write is done or stops with an error after some
  bytes, and reading, syncing, truncating and seeking succeed or fail. What has been written stays
  written; loss of unsynced data in a power failure is outside the model.
\<close>

section \<open>Definitions\<close>

text \<open>Whether the handle is open, and the bytes under the path (\<open>None\<close>: no such file).\<close>

record OutboxFile =
  ob_file :: bool
  ob_disk :: "string option"

datatype disk_write = Wrote | Torn nat

definition newline :: char where
  "newline = CHR 0x0A"

definition put :: "string \<Rightarrow> OutboxFile \<Rightarrow> OutboxFile" where
  "put x b = b\<lparr>ob_disk := map_option (\<lambda>d. d @ x) (ob_disk b)\<rparr>"

definition NewOutbox :: "bool \<Rightarrow> string option \<Rightarrow> OutboxFile option" where
  "NewOutbox opened disk =
     (if opened then Some \<lparr>ob_file = True, ob_disk = Some (case disk of None \<Rightarrow> [] | Some d \<Rightarrow> d)\<rparr>
      else None)"

definition Append :: "disk_write \<Rightarrow> bool \<Rightarrow> string \<Rightarrow> OutboxFile \<Rightarrow> bool \<times> OutboxFile" where
  "Append w synced data b =
     (if \<not> ob_file b then (False, b)
      else case w of
        Torn n \<Rightarrow> (False, put (take n (data @ [newline])) b)
      | Wrote \<Rightarrow> (synced, put (data @ [newline]) b))"

definition Reset :: "io \<Rightarrow> bool \<Rightarrow> OutboxFile \<Rightarrow> bool \<times> OutboxFile" where
  "Reset truncated sought b =
     (if \<not> ob_file b then (True, b)
      else
        (let b1 = (if applied truncated then b\<lparr>ob_disk := map_option (\<lambda>_. []) (ob_disk b)\<rparr> else b)
         in (truncated = IoOk \<and> sought, b1)))"

definition Close :: "bool \<Rightarrow> OutboxFile \<Rightarrow> bool \<times> OutboxFile" where
  "Close closed b = (if \<not> ob_file b then (True, b) else (closed, b\<lparr>ob_file := False\<rparr>))"

text \<open>
  The scanner: lines end at a newline or at the end of the data, one carriage return before the end
  is dropped, and a line that fills the buffer of 64 KiB stops it with \<open>ErrTooLong\<close>.
\<close>

datatype scan_error = ErrRead | ErrTooLong

definition maxTokenSize :: nat where
  "maxTokenSize = 65536"

definition dropCR :: "string \<Rightarrow> string" where
  "dropCR l = (if l \<noteq> [] \<and> last l = CHR 0x0D then butlast l else l)"

lemma tl_drop_shorter: "s \<noteq> [] \<Longrightarrow> length (dropWhile P s) - Suc 0 < length s"
  using length_dropWhile_le [of P s] by (cases s) (auto simp: less_Suc_eq_le)

function scanLines :: "string \<Rightarrow> string list \<times> scan_error option" where
  "scanLines s =
     (if s = [] then ([], None)
      else
        (let l = takeWhile (\<lambda>c. c \<noteq> newline) s; rest = tl (dropWhile (\<lambda>c. c \<noteq> newline) s)
         in if maxTokenSize \<le> length l then ([], Some ErrTooLong)
            else (let (ls, err) = scanLines rest in (dropCR l # ls, err))))"
  by pat_completeness auto

termination
  by (relation "measure length") (auto simp: tl_drop_shorter)

declare scanLines.simps [simp del]

definition ReadAll :: "bool \<Rightarrow> OutboxFile \<Rightarrow> string list \<times> scan_error option" where
  "ReadAll readable b =
     (case ob_disk b of
        None \<Rightarrow> ([], None)
      | Some d \<Rightarrow>
          if \<not> readable then ([], Some ErrRead)
          else (let (ls, err) = scanLines d in (filter (\<lambda>l. l \<noteq> []) ls, err)))"

section \<open>The list the file stands for\<close>

text \<open>
  A line the scanner gives back as it was written. The JSON of an envelope is such a line when it
  is shorter than the buffer: \<^verbatim>\<open>json.Marshal\<close> escapes control characters.
\<close>

definition good_line :: "string \<Rightarrow> bool" where
  "good_line l \<longleftrightarrow> l \<noteq> [] \<and> newline \<notin> set l \<and> last l \<noteq> CHR 0x0D \<and> length l < maxTokenSize"

definition journal_text :: "string list \<Rightarrow> string" where
  "journal_text ls = concat (map (\<lambda>l. l @ [newline]) ls)"

datatype JournalOp = OpAppend disk_write bool string | OpReset io bool

fun file_step :: "JournalOp \<Rightarrow> OutboxFile \<Rightarrow> OutboxFile" where
  "file_step (OpAppend w synced data) b = snd (Append w synced data b)"
| "file_step (OpReset truncated sought) b = snd (Reset truncated sought b)"

text \<open>The same operations on the list of pending lines; a write is whole or not there at all.\<close>

fun list_step :: "JournalOp \<Rightarrow> string list \<Rightarrow> string list" where
  "list_step (OpAppend Wrote synced data) ls = ls @ [data]"
| "list_step (OpAppend (Torn n) synced data) ls = ls"
| "list_step (OpReset truncated sought) ls = (if applied truncated then [] else ls)"

fun clean_op :: "JournalOp \<Rightarrow> bool" where
  "clean_op (OpAppend w synced data) \<longleftrightarrow> good_line data \<and> (w = Wrote \<or> w = Torn 0)"
| "clean_op (OpReset truncated sought) \<longleftrightarrow> True"

definition holds_lines :: "string list \<Rightarrow> OutboxFile \<Rightarrow> bool" where
  "holds_lines ls b \<longleftrightarrow> ob_file b \<and> ob_disk b = Some (journal_text ls) \<and> list_all good_line ls"

lemma journal_text_simps [simp]:
  "journal_text [] = []" "journal_text (l # ls) = l @ newline # journal_text ls"
  "journal_text (ls @ ls') = journal_text ls @ journal_text ls'"
  by (simp_all add: journal_text_def)

lemma scan_line:
  assumes "newline \<notin> set l" "length l < maxTokenSize"
  shows "scanLines (l @ newline # s) = (let (ls, err) = scanLines s in (dropCR l # ls, err))"
proof -
  from assms(1) have "takeWhile (\<lambda>c. c \<noteq> newline) (l @ newline # s) = l"
    and "dropWhile (\<lambda>c. c \<noteq> newline) (l @ newline # s) = newline # s"
    by (induction l) auto
  with assms(2) show ?thesis by (subst scanLines.simps) simp
qed

lemma scan_text:
  "list_all good_line ls \<Longrightarrow> scanLines (journal_text ls @ s) = (ls @ fst (scanLines s), snd (scanLines s))"
proof (induction ls)
  case (Cons l ls)
  then show ?case by (simp add: scan_line good_line_def dropCR_def case_prod_unfold)
qed simp

lemma scan_empty [simp]: "scanLines [] = ([], None)"
  by (simp add: scanLines.simps)

lemma holds_lines_read: "holds_lines ls b \<Longrightarrow> ReadAll True b = (ls, None)"
  using scan_text [of ls "[]"]
  by (auto simp: holds_lines_def ReadAll_def good_line_def list_all_iff filter_id_conv)

lemma file_step_refines:
  "holds_lines ls b \<Longrightarrow> clean_op p \<Longrightarrow> holds_lines (list_step p ls) (file_step p b)"
  by (cases "(p, ls)" rule: list_step.cases)
    (auto simp: holds_lines_def Append_def Reset_def put_def Let_def)

lemma file_run_refines:
  "holds_lines ls b \<Longrightarrow> list_all clean_op ps \<Longrightarrow> holds_lines (fold list_step ps ls) (fold file_step ps b)"
  by (induction ps arbitrary: ls b) (auto intro: file_step_refines)

section \<open>Properties\<close>

text \<open>
C31: The journal file is faithful to the list of pending envelopes: after any sequence of appends
and resets, with failing syncs, truncations and seeks, reading the file (also after a close, or in
a new process that opens it again) gives exactly the lines that were written since the last reset
that truncated, in order and without an error. The assumptions are that every line is one the
scanner can give back and that no write stops in the middle of a line.
\<close>

theorem journal_file_refines_list:
  assumes "NewOutbox True (Some (journal_text ls)) = Some b" "list_all good_line ls" "list_all clean_op ps"
  shows "ReadAll True (fold file_step ps b) = (fold list_step ps ls, None)
    \<and> ReadAll True (snd (Close closed (fold file_step ps b))) = (fold list_step ps ls, None)
    \<and> (\<exists>b'. NewOutbox True (ob_disk (fold file_step ps b)) = Some b'
         \<and> ReadAll True b' = (fold list_step ps ls, None))"
proof -
  from assms(1,2) have "holds_lines ls b"
    by (auto simp: NewOutbox_def holds_lines_def)
  from file_run_refines [OF this assms(3)] have h: "holds_lines (fold list_step ps ls) (fold file_step ps b)" .
  then have "ReadAll True (fold file_step ps b) = (fold list_step ps ls, None)"
    and "ob_disk (fold file_step ps b) = Some (journal_text (fold list_step ps ls))"
    by (simp_all add: holds_lines_read holds_lines_def)
  then show ?thesis by (simp add: ReadAll_def Close_def NewOutbox_def)
qed

lemma good_line_small:
  "l \<noteq> [] \<Longrightarrow> newline \<notin> set l \<Longrightarrow> last l \<noteq> CHR 0x0D \<Longrightarrow> length l < 65536 \<Longrightarrow> good_line l"
  by (simp add: good_line_def maxTokenSize_def)

theorem journal_file_refines_list_witness:
  "ReadAll True (fold file_step [OpAppend Wrote False ''e2'', OpAppend (Torn 0) True ''e3''] 
      \<lparr>ob_file = True, ob_disk = Some (journal_text [''e1''])\<rparr>) = ([''e1'', ''e2''], None)"
  using journal_file_refines_list [of "[''e1'']" "\<lparr>ob_file = True, ob_disk = Some (journal_text [''e1''])\<rparr>"
      "[OpAppend Wrote False ''e2'', OpAppend (Torn 0) True ''e3'']" True]
  by (simp add: NewOutbox_def good_line_small newline_def del: journal_text_simps)

text \<open>
A write that stops in the middle of a line damages the next one: the append that failed leaves
the start of its line in the file, and the following append, although written, synced and
acknowledged, ends up in the same line. Reading gives one line that is neither of the two, so the
acknowledged envelope is not among the pending ones.
\<close>

theorem torn_append_corrupts_next:
  assumes "ob_file b" "ob_disk b = Some (journal_text ls)" "list_all good_line ls"
    and "good_line d" "good_line d'" "0 < n" "n \<le> length d" "length (take n d @ d') < maxTokenSize"
    and "Append (Torn n) synced d b = (ok, b1)" "Append Wrote True d' b1 = (ok', b2)"
  shows "\<not> ok \<and> ok' \<and> ReadAll True b2 = (ls @ [take n d @ d'], None)"
proof -
  have b2: "\<not> ok" "ok'" "ob_disk b2 = Some (journal_text ls @ (take n d @ d') @ newline # [])"
    using assms(1,2,7,9,10) by (auto simp: Append_def put_def)
  have nl: "newline \<notin> set (take n d @ d')"
    using assms(4,5) by (auto simp: good_line_def dest: in_set_takeD)
  have ne: "d' \<noteq> []" "last d' \<noteq> CHR 0x0D" using assms(5) by (simp_all add: good_line_def)
  have "scanLines (journal_text ls @ (take n d @ d') @ newline # []) = (ls @ [take n d @ d'], None)"
    using scan_text [OF assms(3)] scan_line [OF nl assms(8), of "[]"] ne by (simp add: dropCR_def)
  moreover have "filter (\<lambda>l. l \<noteq> []) ls = ls"
    using assms(3) by (auto simp: filter_id_conv list_all_iff good_line_def)
  ultimately show ?thesis using b2 ne by (simp add: ReadAll_def)
qed

theorem torn_append_corrupts_next_witness:
  "\<exists>b2. Append Wrote True ''{b}'' (snd (Append (Torn 2) True ''{a}''
       \<lparr>ob_file = True, ob_disk = Some []\<rparr>)) = (True, b2) \<and> ReadAll True b2 = ([''{a{b}''], None)"
proof -
  let ?b = "\<lparr>ob_file = True, ob_disk = Some []\<rparr>"
  obtain ok b1 where 1: "Append (Torn 2) True ''{a}'' ?b = (ok, b1)" by fastforce
  obtain ok' b2 where 2: "Append Wrote True ''{b}'' b1 = (ok', b2)" by fastforce
  have g: "good_line ''{a}''" "good_line ''{b}''" by (simp_all add: good_line_small newline_def)
  from torn_append_corrupts_next [of ?b "[]" "''{a}''" "''{b}''" 2, OF _ _ _ g _ _ _ 1 2] 1 2
  show ?thesis by (simp add: maxTokenSize_def)
qed

end
