(* ===== verification/Service_Deployment.thy ===== *)
theory Service_Deployment
  imports Service_Health Api_Scenarios Ws_Hub Db_Worker Outbox_Journal
begin

text \<open>
  The four programs of one deployment: what \<^verbatim>\<open>cmd/api\<close>, \<^verbatim>\<open>cmd/ws\<close> and \<^verbatim>\<open>cmd/db-worker\<close> build from the
  environment (\<^verbatim>\<open>cmd/engine\<close> is in \<open>Service_Config\<close>), with the constructors they call, the consumer groups,
  the metrics registries, and the life of the DB worker process.

  The connections to Redis and Postgres are libraries: whether the pool could be built, and what a ping
  answers, are arguments. A panic or \<^verbatim>\<open>log.Fatal\<close> is \<open>None\<close>.
\<close>

section \<open>The Redis manager\<close>

record RedisManager =
  RM_addr :: string
  RM_password :: string
  RM_router :: "Router option"

definition NewRedisManager :: "string \<Rightarrow> string \<Rightarrow> RedisManager" where
  "NewRedisManager addr password = \<lparr>RM_addr = addr, RM_password = password, RM_router = None\<rparr>"

definition RM_SetRouter :: "Router \<Rightarrow> RedisManager \<Rightarrow> RedisManager" where
  "RM_SetRouter r m = m\<lparr>RM_router := Some r\<rparr>"

text \<open>
  \<^verbatim>\<open>generateClientID\<close>: twenty draws \<open>rnd k\<close> from the alphabet. The draw is below 36.
\<close>

definition client_chars :: string where
  "client_chars = ''abcdefghijklmnopqrstuvwxyz0123456789''"

definition generateClientID :: "(nat \<Rightarrow> nat) \<Rightarrow> string" where
  "generateClientID rnd = map (\<lambda>k. client_chars ! rnd k) [0..<20]"

text \<open>\<open>Close\<close> stops at the first error; the answers of the two clients are arguments, \<open>None\<close> is no error.\<close>

definition RM_Close :: "'e option \<Rightarrow> 'e option \<Rightarrow> 'e option" where
  "RM_Close client publisher = (case client of Some err \<Rightarrow> Some err | None \<Rightarrow> publisher)"

section \<open>Consumer groups\<close>

text \<open>
  \<^verbatim>\<open>XGROUP CREATE ... MKSTREAM\<close> on the set of existing groups: a group that exists is the error
  \<^verbatim>\<open>BUSYGROUP\<close>; \<open>r\<close> is the fate of the call.
\<close>

datatype group_error = BusyGroup | GroupFailure

definition XGroupCreateMkStream ::
  "io \<Rightarrow> string \<Rightarrow> string \<Rightarrow> (string \<times> string) set \<Rightarrow> group_error option \<times> (string \<times> string) set" where
  "XGroupCreateMkStream r stream grp gs =
     (if applied r \<and> (stream, grp) \<notin> gs
      then (if r = IoOk then None else Some GroupFailure, insert (stream, grp) gs)
      else if r = IoOk then (Some BusyGroup, gs) else (Some GroupFailure, gs))"

definition ensureGroup ::
  "io \<Rightarrow> string \<Rightarrow> string \<Rightarrow> (string \<times> string) set \<Rightarrow> bool \<times> (string \<times> string) set" where
  "ensureGroup r stream grp gs =
     (let (err, gs') = XGroupCreateMkStream r stream grp gs in (err \<noteq> Some GroupFailure, gs'))"

definition ensureCommandGroup ::
  "io \<Rightarrow> int \<Rightarrow> Engine \<Rightarrow> (string \<times> string) set \<Rightarrow> bool \<times> (string \<times> string) set" where
  "ensureCommandGroup r pid e gs =
     (let (err, gs') = XGroupCreateMkStream r (Stream (router e) pid) (Group (router e) pid) gs
      in (err \<noteq> Some GroupFailure, gs'))"

text \<open>A group that was set up exists, whatever was there before, and setting it up again changes nothing.\<close>

lemma ensureGroup_exists:
  assumes "ensureGroup r stream grp gs = (True, gs')"
  shows "(stream, grp) \<in> gs'" "gs \<subseteq> gs'" "ensureGroup IoOk stream grp gs' = (True, gs')"
  using assms by (auto simp: ensureGroup_def XGroupCreateMkStream_def applied_def split: if_splits)

lemma ensureCommandGroup_exists:
  assumes "ensureCommandGroup r pid e gs = (True, gs')"
  shows "(Stream (router e) pid, Group (router e) pid) \<in> gs'"
  using assms by (auto simp: ensureCommandGroup_def XGroupCreateMkStream_def applied_def split: if_splits)

section \<open>Metrics registries\<close>

text \<open>
  A registry is the set of the names of its collectors. \<^verbatim>\<open>MustRegister\<close> panics on a name that is taken.
\<close>

definition MustRegister :: "string list \<Rightarrow> string set \<Rightarrow> string set option" where
  "MustRegister names reg = (if distinct names \<and> set names \<inter> reg = {} then Some (reg \<union> set names) else None)"

definition engine_collectors :: "string list" where
  "engine_collectors =
     [''engine_orders_processed_total'', ''engine_order_latency_seconds'', ''engine_orders_accepted_total'',
      ''engine_orders_rejected_total'', ''engine_orders_canceled_total'', ''engine_orders_filled_total'',
      ''engine_trades_executed_total'', ''engine_matching_latency_seconds'', ''engine_replay_latency_seconds'',
      ''engine_partition_owner'', ''engine_lease_acquire_total'', ''engine_lease_losses_total'']"

definition NewMetricsWithRegistry :: "string set \<Rightarrow> (Metrics \<times> string set) option" where
  "NewMetricsWithRegistry reg = map_option (\<lambda>r. (NewMetrics, r)) (MustRegister engine_collectors reg)"

text \<open>\<open>runtime\<close> and \<open>process\<close> are the names of the two standard collectors.\<close>

definition WithRuntimeMetrics :: "string list \<Rightarrow> string list \<Rightarrow> string set \<Rightarrow> string set option" where
  "WithRuntimeMetrics runtime process reg = MustRegister (runtime @ process) reg"

definition ops_registry :: "string list \<Rightarrow> string list \<Rightarrow> string set option \<Rightarrow> string set option" where
  "ops_registry runtime process registry =
     WithRuntimeMetrics runtime process (case registry of None \<Rightarrow> {} | Some r \<Rightarrow> r)"

text \<open>
  The registries of all processes can be built: the engine's own names are distinct, and those of the
  standard collectors start with \<^verbatim>\<open>go_\<close> and \<^verbatim>\<open>process_\<close>.
\<close>

lemma engine_registry_built:
  assumes "distinct runtime" "distinct process"
    and "\<And>n. n \<in> set runtime \<Longrightarrow> take 3 n = ''go_''" "\<And>n. n \<in> set process \<Longrightarrow> take 3 n = ''pro''"
  shows "\<exists>m r. NewMetricsWithRegistry {} = Some (m, r) \<and> ops_registry runtime process (Some r) \<noteq> None
    \<and> ops_registry runtime process None \<noteq> None"
proof -
  have d: "distinct engine_collectors" by (simp add: engine_collectors_def)
  have e: "take 3 n = ''eng''" if "n \<in> set engine_collectors" for n using that by (auto simp: engine_collectors_def)
  have "set runtime \<inter> set process = {}" "(set runtime \<union> set process) \<inter> set engine_collectors = {}"
    using assms(3,4) e by fastforce+
  with d assms(1,2) show ?thesis
    by (simp add: NewMetricsWithRegistry_def MustRegister_def ops_registry_def WithRuntimeMetrics_def)
qed

section \<open>The DB worker and the subscriber\<close>

definition EventGroup :: string where
  "EventGroup = ''db-workers''"

record Worker =
  W_consumer :: string
  W_stream :: string
  W_group :: string

definition NewWithStreams :: "string \<Rightarrow> string \<Rightarrow> string \<Rightarrow> Worker" where
  "NewWithStreams uuid stream grp = \<lparr>W_consumer = uuid, W_stream = stream, W_group = grp\<rparr>"

definition New :: "string \<Rightarrow> Worker" where
  "New uuid = NewWithStreams uuid EventStream EventGroup"

text \<open>A subscriber is its channel.\<close>

definition NewRedisSubscriber :: "string \<Rightarrow> string" where
  "NewRedisSubscriber channel = (if channel = [] then WSChannel else channel)"

section \<open>The programs\<close>

record ApiProcess =
  Api_secret :: string
  Api_redis :: RedisManager
  Api_addr :: string

definition api_main :: "Config \<Rightarrow> bool \<Rightarrow> ApiProcess option" where
  "api_main cfg pool_ok =
     (case auth_Init (JWTSecret cfg) of
        None \<Rightarrow> None
      | Some secret \<Rightarrow>
          if \<not> pool_ok then None
          else Some \<lparr>Api_secret = secret,
                 Api_redis = RM_SetRouter (NewRouter (PartitionCount cfg) (CommandStreamPrefix cfg))
                   (NewRedisManager (RedisURL cfg) []),
                 Api_addr = '':'' @ APIPort cfg\<rparr>)"

text \<open>The API and the DB worker check Redis and Postgres, the WebSocket service Redis only.\<close>

definition redis_postgres_checks :: "string option \<Rightarrow> string option \<Rightarrow> checks" where
  "redis_postgres_checks redis postgres = AddCheck ''postgres'' postgres (AddCheck ''redis'' redis NewOps)"

definition ws_checks :: "string option \<Rightarrow> checks" where
  "ws_checks redis = AddCheck ''redis'' redis NewOps"

text \<open>The probes on the port of the API, beside the routes of the handlers; they ask for no token.\<close>

definition api_ops :: "string list \<Rightarrow> checks \<Rightarrow> string \<Rightarrow> nat option" where
  "api_ops order cs path =
     (if path = ''/health/live'' then Some (fst LiveHandler)
      else if path = ''/health/ready'' then Some (fst (ReadyHandler order cs))
      else if path = ''/metrics'' then Some 200 else None)"

lemma api_ops_status: "api_ops order cs path = Some c \<Longrightarrow> ops_status order cs path = c"
  by (auto simp: api_ops_def ops_status_def split: if_splits)

text \<open>The libraries of the API as its handlers find them: the secret and the router are those of the process.\<close>

definition api_env :: "ApiEnv \<Rightarrow> ApiProcess \<Rightarrow> ApiEnv" where
  "api_env v a = v\<lparr>V_secret := Api_secret a, V_router := RM_router (Api_redis a)\<rparr>"

record WsProcess =
  Ws_secret :: string
  Ws_redis :: RedisManager
  Ws_server :: Server
  Ws_requireAuth :: bool
  Ws_channel :: string
  Ws_addr :: string

definition ws_main :: "Config \<Rightarrow> WsProcess option" where
  "ws_main cfg =
     (case auth_Init (JWTSecret cfg) of
        None \<Rightarrow> None
      | Some secret \<Rightarrow>
          Some \<lparr>Ws_secret = secret, Ws_redis = NewRedisManager (RedisURL cfg) [], Ws_server = NewServer,
            Ws_requireAuth = True, Ws_channel = NewRedisSubscriber (WSStream cfg), Ws_addr = '':'' @ WSPort cfg\<rparr>)"

text \<open>A request to the one path of the service, with the token it carries.\<close>

definition ws_connect ::
  "ApiEnv \<Rightarrow> WsProcess \<Rightarrow> int \<Rightarrow> string \<Rightarrow> bool \<Rightarrow> nat \<Rightarrow> Server \<Rightarrow> (nat \<times> string) option \<times> Server" where
  "ws_connect v w now token upgraded c s =
     Handle (\<lambda>tok. ValidateToken (v\<lparr>V_secret := Ws_secret w\<rparr>) now tok \<noteq> None) (Ws_requireAuth w) token upgraded c s"

record DbProcess =
  Dp_redis :: RedisManager
  Dp_worker :: Worker
  Dp_ended :: "worker_error option option"
  Dp_ops :: bool
  Dp_running :: bool

definition db_worker_main :: "Config \<Rightarrow> string \<Rightarrow> bool \<Rightarrow> DbProcess option" where
  "db_worker_main cfg uuid pool_ok =
     (if \<not> pool_ok then None
      else Some \<lparr>Dp_redis = NewRedisManager (RedisURL cfg) [],
             Dp_worker = NewWithStreams uuid (DBStream cfg) (DBGroup cfg),
             Dp_ended = None, Dp_ops = True, Dp_running = True\<rparr>)"

text \<open>
  What happens to the process while it waits: the goroutine of the worker returns, the operations
  server stops, or a signal arrives. Only the signal ends the wait; it cancels the other two.
\<close>

datatype db_event = WorkerReturned "worker_error option" | OpsStopped | SignalReceived

definition db_wait :: "db_event \<Rightarrow> DbProcess \<Rightarrow> DbProcess" where
  "db_wait ev p =
     (if \<not> Dp_running p then p
      else case ev of
        WorkerReturned r \<Rightarrow> p\<lparr>Dp_ended := Some r\<rparr>
      | OpsStopped \<Rightarrow> p\<lparr>Dp_ops := False\<rparr>
      | SignalReceived \<Rightarrow> p\<lparr>Dp_ops := False, Dp_running := False\<rparr>)"

text \<open>What the readiness probe answers, if it answers: \<open>order\<close> is the order in which the checks are visited.\<close>

definition db_ready :: "string list \<Rightarrow> string option \<Rightarrow> string option \<Rightarrow> DbProcess \<Rightarrow> nat option" where
  "db_ready order redis postgres p =
     (if Dp_running p \<and> Dp_ops p then Some (ops_status order (redis_postgres_checks redis postgres) ''/health/ready'')
      else None)"

text \<open>
  \<^verbatim>\<open>Run\<close> of the operations server: an error of the listener ends it with that error, a canceled context
  with the result of the shutdown.
\<close>

definition ops_Run :: "'e option \<Rightarrow> 'e option \<Rightarrow> 'e option" where
  "ops_Run listen shutdown = (case listen of Some err \<Rightarrow> Some err | None \<Rightarrow> shutdown)"

text \<open>
  \<^verbatim>\<open>Shutdown\<close> of the engine after its workers have ended: the outbox is closed, once. \<open>stopped\<close> is the state of
  \<^verbatim>\<open>stopOnce\<close>, \<open>closes\<close> the answer of the file system; an error is only logged.
\<close>

definition Shutdown :: "bool \<Rightarrow> bool \<Rightarrow> OutboxFile option \<Rightarrow> bool \<times> OutboxFile option" where
  "Shutdown stopped closes ob =
     (if stopped then (True, ob) else (True, map_option (\<lambda>b. snd (Close closes b)) ob))"

lemma Shutdown_once: "Shutdown (fst (Shutdown s c ob)) c' (snd (Shutdown s c ob)) = Shutdown s c ob"
  by (simp add: Shutdown_def)

lemma Shutdown_closes: "Shutdown False c (Some b) = (s, Some b') \<Longrightarrow> \<not> ob_file b' \<and> ob_disk b' = ob_disk b"
  by (auto simp: Shutdown_def Close_def split: if_splits)

section \<open>Properties\<close>


text \<open>
A stopped DB worker still reports ready. An entry that cannot be decoded makes the worker return,
with the tables as they were before it, but the process only waits for a signal: it goes on running
without a worker, and its readiness probe answers 200 as long as Redis and Postgres answer. No entry
behind the bad one reaches the database.
\<close>

theorem stopped_worker_reports_ready:
  assumes "db_worker_main cfg uuid True = Some p" "set order = {''redis'', ''postgres''}"
    and "runEntries parse pg_div ios 0 claimed db = (None, k, db1)" "unmarshalEnvelope raw = None"
    and "Run parse pg_div ios True claimed (EventBatch (raw # raws) # reads) db = (err, db')"
  defines "p' \<equiv> db_wait (WorkerReturned err) p"
  shows "err = Some DecodeEnvelope \<and> db' = db1 \<and> Dp_running p' \<and> Dp_ended p' = Some (Some DecodeEnvelope)
    \<and> db_ready order None None p' = Some 200"
proof -
  have p: "Dp_running p" "Dp_ops p" using assms(1) by (auto simp: db_worker_main_def)
  have r: "err = Some DecodeEnvelope" "db' = db1"
    using assms(3-5) by (simp_all add: Run_def processEventEntry_def)
  let ?cs = "redis_postgres_checks None None"
  have "set order = dom ?cs" using assms(2) by (auto simp: redis_postgres_checks_def AddCheck_def NewOps_def)
  moreover have "\<forall>r\<in>ran ?cs. r = None" by (auto simp: redis_postgres_checks_def AddCheck_def NewOps_def ran_def)
  ultimately have "fst (ReadyHandler order ?cs) = 200" using readiness_sound [of order ?cs] by simp
  with p r show ?thesis by (simp add: p'_def db_ready_def ops_status_def db_wait_def)
qed

section \<open>Witnesses\<close>

definition noDB :: DB where
  "noDB = \<lparr>db_users = Map.empty, db_events = Map.empty, db_orders = Map.empty, db_trades = Map.empty,
     db_positions = Map.empty, db_transactions = []\<rparr>"

theorem stopped_worker_reports_ready_witness:
  "\<exists>p. db_worker_main (Load (\<lambda>_. [])) ''c'' True = Some p
     \<and> db_ready [''redis'', ''postgres''] None None (db_wait (WorkerReturned (Some DecodeEnvelope)) p) = Some 200"
proof -
  obtain p where p: "db_worker_main (Load (\<lambda>_. [])) ''c'' True = Some p" by (simp add: db_worker_main_def)
  have "unmarshalEnvelope (JInt 0) = None" by (simp add: unmarshalEnvelope_def)
  from stopped_worker_reports_ready [OF p _ _ this, of "[''redis'', ''postgres'']" Some "(div)" undefined "[]" noDB 0 noDB
      "[]" "[]" "Some DecodeEnvelope" noDB] p
  show ?thesis by (auto simp: Run_def processEventEntry_def unmarshalEnvelope_def)
qed

lemma demo_jwt:
  "V_sign demoEnv s c = Some tok \<Longrightarrow> Cl_IssuedAt c \<le> t \<Longrightarrow> t < Cl_ExpiresAt c \<Longrightarrow> V_parseJWT demoEnv s t tok = Some (c, True)"
  "V_sign demoEnv s c \<noteq> Some []"
  by (auto simp: demoEnv_def split: if_splits)


end
