(* ===== verification/Service_Lifecycle.thy ===== *)
theory Service_Lifecycle
  imports Service_Deployment
begin

text \<open>
  The life of the four processes from the end of their start-up to their exit: the goroutines that
  \<^verbatim>\<open>main\<close> starts, the wait for a signal, and the drain after it (\<^verbatim>\<open>cmd/api\<close>, \<^verbatim>\<open>cmd/ws\<close>, \<^verbatim>\<open>cmd/db-worker\<close>,
  \<^verbatim>\<open>cmd/engine\<close> and \<^verbatim>\<open>Engine.Shutdown\<close>), with the passing of time in nanoseconds.

  Of the HTTP library it is used that \<^verbatim>\<open>Server.Shutdown\<close> returns when the open requests have ended or the
  context has expired.
\<close>

section \<open>Definitions\<close>

datatype program = ApiProgram | WsProgram | DbProgram | EngineProgram

datatype task = HttpServer | OpsServer | Subscriber | WorkerLoop | PartitionLoop int

text \<open>The goroutines of a program; \<open>parts\<close> are the partitions of the engine.\<close>

definition api_tasks :: "task set" where
  "api_tasks = {HttpServer}"

definition ws_tasks :: "task set" where
  "ws_tasks = {Subscriber, OpsServer, HttpServer}"

definition db_tasks :: "task set" where
  "db_tasks = {OpsServer, WorkerLoop}"

definition engine_tasks :: "int set \<Rightarrow> task set" where
  "engine_tasks parts = insert OpsServer (PartitionLoop ` parts)"

definition tasks_of :: "program \<Rightarrow> int set \<Rightarrow> task set" where
  "tasks_of prog parts =
     (case prog of ApiProgram \<Rightarrow> api_tasks | WsProgram \<Rightarrow> ws_tasks | DbProgram \<Rightarrow> db_tasks
      | EngineProgram \<Rightarrow> engine_tasks parts)"

definition seconds :: "int \<Rightarrow> int" where
  "seconds n = n * 1000000000"

text \<open>The bound \<^verbatim>\<open>main\<close> puts on the drain.\<close>

definition drain_timeout :: "program \<Rightarrow> int" where
  "drain_timeout prog = (if prog = EngineProgram then seconds 30 else seconds 10)"

text \<open>
  A process waits for a signal, drains with the deadline of its context, or has exited with a status.
  \<open>P_wake\<close> is when a goroutine that sleeps goes on; \<^verbatim>\<open>time.Sleep\<close> heeds no context.
\<close>

datatype life = Waiting | Draining int | Exited nat

record Process =
  P_now :: int
  P_life :: life
  P_tasks :: "task set"
  P_wake :: "task \<Rightarrow> int"

definition boot :: "program \<Rightarrow> int set \<Rightarrow> int \<Rightarrow> Process" where
  "boot prog parts now = \<lparr>P_now = now, P_life = Waiting, P_tasks = tasks_of prog parts, P_wake = (\<lambda>_. now)\<rparr>"

text \<open>
  What ends the drain: for the HTTP servers the end of the server or of the context, for the DB worker the
  return of the worker or the timer, for the engine the return of every partition worker. The engine
  is handed a context too, and ignores it.
\<close>

definition http_drained :: "int \<Rightarrow> Process \<Rightarrow> bool" where
  "http_drained deadline p \<longleftrightarrow> HttpServer \<notin> P_tasks p \<or> deadline \<le> P_now p"

definition worker_drained :: "int \<Rightarrow> Process \<Rightarrow> bool" where
  "worker_drained deadline p \<longleftrightarrow> WorkerLoop \<notin> P_tasks p \<or> deadline \<le> P_now p"

definition engine_drained :: "int \<Rightarrow> Process \<Rightarrow> bool" where
  "engine_drained deadline p \<longleftrightarrow> (\<forall>pid. PartitionLoop pid \<notin> P_tasks p)"

definition drained :: "program \<Rightarrow> int \<Rightarrow> Process \<Rightarrow> bool" where
  "drained prog deadline p =
     (case prog of ApiProgram \<Rightarrow> http_drained deadline p | WsProgram \<Rightarrow> http_drained deadline p
      | DbProgram \<Rightarrow> worker_drained deadline p | EngineProgram \<Rightarrow> engine_drained deadline p)"

text \<open>
  The steps. A listener that fails is \<^verbatim>\<open>log.Fatal\<close>; the other goroutines of \<^verbatim>\<open>main\<close> that return are only
  logged. A partition worker ends only when its engine is shut down, and sleeps for the renewal interval
  \<open>renew\<close> between two attempts to get the lease.
\<close>

inductive proc_step :: "program \<Rightarrow> int \<Rightarrow> Process \<Rightarrow> Process \<Rightarrow> bool" for prog renew where
  pass: "0 < d \<Longrightarrow> proc_step prog renew p (p\<lparr>P_now := P_now p + d\<rparr>)"
| fatal: "P_life p = Waiting \<Longrightarrow> HttpServer \<in> P_tasks p \<Longrightarrow> proc_step prog renew p (p\<lparr>P_life := Exited 1\<rparr>)"
| returned: "P_life p = Waiting \<Longrightarrow> t \<in> P_tasks p \<inter> {OpsServer, Subscriber, WorkerLoop} \<Longrightarrow>
    proc_step prog renew p (p\<lparr>P_tasks := P_tasks p - {t}\<rparr>)"
| sleeps: "P_life p = Waiting \<Longrightarrow> PartitionLoop pid \<in> P_tasks p \<Longrightarrow> P_wake p (PartitionLoop pid) \<le> P_now p \<Longrightarrow>
    proc_step prog renew p (p\<lparr>P_wake := (P_wake p)(PartitionLoop pid := P_now p + renew)\<rparr>)"
| signal: "P_life p = Waiting \<Longrightarrow> proc_step prog renew p (p\<lparr>P_life := Draining (P_now p + drain_timeout prog)\<rparr>)"
| ended: "P_life p = Draining deadline \<Longrightarrow> t \<in> P_tasks p \<Longrightarrow> P_wake p t \<le> P_now p \<Longrightarrow>
    proc_step prog renew p (p\<lparr>P_tasks := P_tasks p - {t}\<rparr>)"
| exits: "P_life p = Draining deadline \<Longrightarrow> drained prog deadline p \<Longrightarrow>
    proc_step prog renew p (p\<lparr>P_life := Exited 0\<rparr>)"

inductive lifecycle :: "program \<Rightarrow> int \<Rightarrow> int set \<Rightarrow> Process \<Rightarrow> bool" for prog renew parts where
  start: "lifecycle prog renew parts (boot prog parts now)"
| step: "lifecycle prog renew parts p \<Longrightarrow> proc_step prog renew p p' \<Longrightarrow> lifecycle prog renew parts p'"

inductive_cases proc_stepE: "proc_step prog renew p p'"

section \<open>Invariants\<close>

definition life_ok :: "program \<Rightarrow> Process \<Rightarrow> bool" where
  "life_ok prog p \<longleftrightarrow>
     (\<forall>deadline. P_life p = Draining deadline \<longrightarrow> deadline \<le> P_now p + drain_timeout prog) \<and>
     (prog = EngineProgram \<longrightarrow> HttpServer \<notin> P_tasks p \<and>
        (\<forall>c pid. P_life p = Exited c \<longrightarrow> PartitionLoop pid \<notin> P_tasks p))"

lemma life_ok_boot: "life_ok prog (boot prog parts now)"
  by (auto simp: life_ok_def boot_def tasks_of_def engine_tasks_def)

lemma life_ok_step: "proc_step prog renew p p' \<Longrightarrow> life_ok prog p \<Longrightarrow> life_ok prog p'"
  by (auto elim!: proc_stepE simp: life_ok_def drained_def engine_drained_def)

lemma lifecycle_ok: "lifecycle prog renew parts p \<Longrightarrow> life_ok prog p"
  by (induction rule: lifecycle.induct) (auto intro: life_ok_boot life_ok_step)

text \<open>A partition worker that sleeps until \<open>u\<close> keeps a draining engine from exiting before.\<close>

definition held_until :: "int \<Rightarrow> int \<Rightarrow> int \<Rightarrow> Process \<Rightarrow> bool" where
  "held_until pid u deadline p \<longleftrightarrow> u \<le> P_now p \<or>
     P_life p = Draining deadline \<and> PartitionLoop pid \<in> P_tasks p \<and> P_wake p (PartitionLoop pid) = u"

lemma held_step: "proc_step EngineProgram renew p p' \<Longrightarrow> held_until pid u deadline p \<Longrightarrow> held_until pid u deadline p'"
  by (auto elim!: proc_stepE simp: held_until_def drained_def engine_drained_def)

lemma held_steps:
  "(proc_step EngineProgram renew)\<^sup>*\<^sup>* p p' \<Longrightarrow> held_until pid u deadline p \<Longrightarrow> held_until pid u deadline p'"
  by (induction rule: rtranclp_induct) (auto intro: held_step)

lemma lifecycle_steps:
  "(proc_step prog renew)\<^sup>*\<^sup>* p p' \<Longrightarrow> lifecycle prog renew parts p \<Longrightarrow> lifecycle prog renew parts p'"
  by (induction rule: rtranclp_induct) (auto intro: lifecycle.step)

section \<open>Properties\<close>


text \<open>
C21: The engine does not keep the bound its program sets: it exits only when every partition worker has
ended, so nobody writes to the journal it closes, but the 30 seconds it is given do not count. A worker
that was refused the lease sleeps for the renewal interval and does not notice the signal; from a signal
that arrives at the start of that sleep until its end no sequence of steps lets the process exit, however
long the interval is.
\<close>

theorem engine_shutdown_ignores_deadline:
  assumes "pid \<in> parts" "0 < d" "d < renew"
  shows "(\<forall>p c. lifecycle EngineProgram renew parts p \<longrightarrow> P_life p = Exited c \<longrightarrow>
      (\<forall>pid. PartitionLoop pid \<notin> P_tasks p))
    \<and> (\<exists>p. lifecycle EngineProgram renew parts p \<and> P_life p = Draining (now + seconds 30) \<and> P_now p = now + d
      \<and> (\<forall>p'. (proc_step EngineProgram renew)\<^sup>*\<^sup>* p p' \<longrightarrow> P_now p' < now + renew \<longrightarrow>
           P_life p' = Draining (now + seconds 30)))"
proof -
  let ?t = "PartitionLoop pid" and ?step = "proc_step EngineProgram renew"
  let ?p = "boot EngineProgram parts now"
  let ?p1 = "?p\<lparr>P_wake := (P_wake ?p)(?t := now + renew)\<rparr>"
  let ?p2 = "?p1\<lparr>P_life := Draining (now + seconds 30)\<rparr>"
  let ?p3 = "?p2\<lparr>P_now := now + d\<rparr>"
  have t: "?t \<in> P_tasks ?p" using assms(1) by (simp add: boot_def tasks_of_def engine_tasks_def)
  have 1: "?step ?p ?p1" using proc_step.sleeps [of ?p pid EngineProgram renew] t by (simp add: boot_def)
  have 2: "?step ?p1 ?p2"
    using proc_step.signal [of ?p1 EngineProgram renew] by (simp add: boot_def drain_timeout_def)
  have 3: "?step ?p2 ?p3" using proc_step.pass [OF assms(2), of EngineProgram renew ?p2] by (simp add: boot_def)
  from 1 2 3 have run: "lifecycle EngineProgram renew parts ?p3" by (blast intro: lifecycle.intros)
  have h: "held_until pid (now + renew) (now + seconds 30) ?p3" using t by (simp add: held_until_def)
  have held: "P_life p' = Draining (now + seconds 30)" if "?step\<^sup>*\<^sup>* ?p3 p'" "P_now p' < now + renew" for p'
  proof -
    have "held_until pid (now + renew) (now + seconds 30) p'" using that(1) h by (rule held_steps)
    with that(2) show ?thesis by (simp add: held_until_def)
  qed
  show ?thesis
  proof (intro conjI allI impI exI [of _ ?p3])
    show "PartitionLoop i \<notin> P_tasks q" if "lifecycle EngineProgram renew parts q" "P_life q = Exited c" for q c i
      using lifecycle_ok [OF that(1)] that(2) by (simp add: life_ok_def)
  qed (use run held in simp_all)
qed

section \<open>Witnesses\<close>


text \<open>With a renewal interval of a minute in the environment the engine is still draining 59 seconds after the signal.\<close>

definition minuteEnv :: "string \<Rightarrow> string" where
  "minuteEnv k = (if k = ''LEASE_RENEW_INTERVAL'' then ''1m'' else [])"

lemma minute_interval: "LeaseRenewInterval (Load minuteEnv) = seconds 60"
  by code_simp

theorem engine_shutdown_ignores_deadline_witness:
  "\<exists>e p. engine_setup (Load minuteEnv) (Some []) = Some e
    \<and> lifecycle EngineProgram (leaseRenewInterval e) {0} p
    \<and> P_life p = Draining (seconds 30) \<and> P_now p = seconds 59"
proof -
  obtain e where e: "engine_setup (Load minuteEnv) (Some []) = Some e" "set_up (Load minuteEnv) [] e"
    using engine_setup_total by blast
  then have "leaseRenewInterval e = seconds 60" by (simp add: set_up_def minute_interval seconds_def)
  with e(1) engine_shutdown_ignores_deadline [of 0 "{0}" "seconds 59" "seconds 60" 0] show ?thesis
    by (auto simp: seconds_def)
qed

end
