(* ===== verification/Lease_Metrics.thy ===== *)
theory Lease_Metrics
  imports Partition_Ownership
begin

text \<open>
  The labelled metrics of partition ownership (\<^verbatim>\<open>AcquiredPartitions\<close>, \<^verbatim>\<open>LeaseAcquire\<close> and \<^verbatim>\<open>LeaseLosses\<close> of
  \<^verbatim>\<open>engine/metric.go\<close>) as \<^verbatim>\<open>runPartition\<close> and \<^verbatim>\<open>renewLease\<close> keep them: the workers of \<open>Partition_Lease\<close> with
  their metrics as a step relation, and what the values say about tokens and leases.
\<close>

section \<open>Definitions\<close>

text \<open>The values by their labels, engine and partition; a label that was never used reads 0.\<close>

type_synonym labels = "string \<times> string"

record LeaseMetrics =
  AcquiredPartitions :: "labels \<Rightarrow> int"
  LeaseAcquire :: "labels \<Rightarrow> nat"
  LeaseLosses :: "labels \<Rightarrow> nat"

definition no_leases :: LeaseMetrics where
  "no_leases = \<lparr>AcquiredPartitions = (\<lambda>_. 0), LeaseAcquire = (\<lambda>_. 0), LeaseLosses = (\<lambda>_. 0)\<rparr>"

definition label :: "string \<Rightarrow> int \<Rightarrow> labels" where
  "label i pid = (i, fmt_d pid)"

definition report_acquired :: "string \<Rightarrow> int \<Rightarrow> LeaseMetrics \<Rightarrow> LeaseMetrics" where
  "report_acquired i pid m =
     m\<lparr>LeaseAcquire := (LeaseAcquire m)(label i pid := LeaseAcquire m (label i pid) + 1),
       AcquiredPartitions := (AcquiredPartitions m)(label i pid := 1)\<rparr>"

definition report_lost :: "string \<Rightarrow> int \<Rightarrow> LeaseMetrics \<Rightarrow> LeaseMetrics" where
  "report_lost i pid m = m\<lparr>LeaseLosses := (LeaseLosses m)(label i pid := LeaseLosses m (label i pid) + 1)\<rparr>"

definition report_released :: "string \<Rightarrow> int \<Rightarrow> LeaseMetrics \<Rightarrow> LeaseMetrics" where
  "report_released i pid m = m\<lparr>AcquiredPartitions := (AcquiredPartitions m)(label i pid := 0)\<rparr>"

text \<open>
  The steps of the workers with their metrics: a token is drawn, a renewal is refused, a tenure ends. Every
  other step leaves the tokens and the metrics alone; a tenure that ends with the engine is among them.
\<close>

inductive metered_step :: "int \<Rightarrow> int \<Rightarrow> System \<times> LeaseMetrics \<Rightarrow> System \<times> LeaseMetrics \<Rightarrow> bool" for pid ttl where
  acquires: "s_phase s i = Leased \<Longrightarrow> Next r (FencingKey pid) (s_redis s) = (Some tok, rd) \<Longrightarrow>
    metered_step pid ttl (s, m) (enter i (Serving tok) rd s, report_acquired i pid m)"
| loses: "s_phase s i = Serving tok \<Longrightarrow>
    Renew r (NewLease (LeaseKey pid) i ttl) (s_now s) (s_redis s) = (Some False, rd) \<Longrightarrow>
    metered_step pid ttl (s, m) (enter i (Leaving tok) rd s, report_lost i pid m)"
| releases: "s_phase s i = Leaving tok \<Longrightarrow>
    Release r (NewLease (LeaseKey pid) i ttl) (s_now s) (s_redis s) = (b, rd) \<Longrightarrow>
    metered_step pid ttl (s, m) (enter i Competing rd s, report_released i pid m)"
| quiet: "worker_step pid ttl s s' \<Longrightarrow> (\<And>i. token_of (s_phase s' i) = token_of (s_phase s i)) \<Longrightarrow>
    metered_step pid ttl (s, m) (s', m)"

inductive metered :: "int \<Rightarrow> int \<Rightarrow> System \<times> LeaseMetrics \<Rightarrow> bool" for pid ttl where
  start: "metered pid ttl (start_state now, no_leases)"
| step: "metered pid ttl c \<Longrightarrow> metered_step pid ttl c c' \<Longrightarrow> metered pid ttl c'"

inductive_cases metered_stepE: "metered_step pid ttl (s, m) (s', m')"

text \<open>Every step with metrics is a step of the workers, and every step of the workers has one with metrics.\<close>

lemma metered_step_worker: "metered_step pid ttl (s, m) (s', m') \<Longrightarrow> worker_step pid ttl s s'"
  by (auto elim!: metered_stepE intro: worker_step.intros)

lemma worker_step_metered:
  assumes "worker_step pid ttl s s'"
  shows "\<exists>m'. metered_step pid ttl (s, m) (s', m')"
proof (cases "\<forall>i. token_of (s_phase s' i) = token_of (s_phase s i)")
  case True
  with metered_step.quiet [OF assms, of m] show ?thesis by blast
next
  case False
  with assms show ?thesis
    by (cases rule: worker_step.cases)
      (auto simp: enter_def [abs_def] split: if_splits
        intro: metered_step.acquires [unfolded enter_def] metered_step.releases [unfolded enter_def])
qed

lemma metered_running: "metered pid ttl c \<Longrightarrow> running pid ttl (fst c)"
proof (induction rule: metered.induct)
  case (step c c')
  then show ?case by (cases c; cases c') (auto intro: running.step metered_step_worker)
qed (simp add: running.start)

lemma running_metered: "running pid ttl s \<Longrightarrow> \<exists>m. metered pid ttl (s, m)"
  by (induction rule: running.induct) (blast intro: metered.intros dest: worker_step_metered)+

section \<open>The invariant\<close>

text \<open>
  The gauge of an engine says whether it has a token; its losses are covered by acquisitions, with one to spare
  while it serves; and it has not acquired the partition more often than tokens were drawn.
\<close>

definition meters_ok :: "int \<Rightarrow> System \<Rightarrow> LeaseMetrics \<Rightarrow> bool" where
  "meters_ok pid s m \<longleftrightarrow> (\<forall>i.
     AcquiredPartitions m (label i pid) = (if token_of (s_phase s i) = None then 0 else 1) \<and>
     LeaseLosses m (label i pid) + (if \<exists>tok. s_phase s i = Serving tok then 1 else 0) \<le> LeaseAcquire m (label i pid) \<and>
     int (LeaseAcquire m (label i pid)) \<le> counter pid s)"

text \<open>The effect of a step on one label, and of the other labels none.\<close>

lemma label_inj [simp]: "label i pid = label j pid' \<longleftrightarrow> i = j \<and> pid = pid'"
  by (auto simp: label_def fmt_d_inj)

lemmas report_defs = report_acquired_def report_lost_def report_released_def

lemma phase_enter [simp]: "s_phase (enter i ph rd s) j = (if j = i then ph else s_phase s j)"
  by (simp add: enter_def)

lemma meters_ok_start: "meters_ok pid (start_state now) no_leases"
  by (simp add: meters_ok_def start_state_def no_leases_def counter_def counter_value_def)

lemma meters_ok_counter:
  assumes "meters_ok pid s m" "counter pid s \<le> counter pid s'"
    "\<And>i. token_of (s_phase s' i) = token_of (s_phase s i)"
    "\<And>i tok. s_phase s' i = Serving tok \<Longrightarrow> s_phase s i = Serving tok"
  shows "meters_ok pid s' m"
  unfolding meters_ok_def
proof
  fix i
  have "int (LeaseAcquire m (label i pid)) \<le> counter pid s"
    "LeaseLosses m (label i pid) + (if \<exists>tok. s_phase s i = Serving tok then 1 else 0) \<le> LeaseAcquire m (label i pid)"
    "AcquiredPartitions m (label i pid) = (if token_of (s_phase s i) = None then 0 else 1)"
    using assms(1) by (auto simp: meters_ok_def)
  with assms(2-4) show "AcquiredPartitions m (label i pid) = (if token_of (s_phase s' i) = None then 0 else 1) \<and>
      LeaseLosses m (label i pid) + (if \<exists>tok. s_phase s' i = Serving tok then 1 else 0) \<le> LeaseAcquire m (label i pid) \<and>
      int (LeaseAcquire m (label i pid)) \<le> counter pid s'"
    by (auto split: if_splits)
qed

lemma quiet_serving:
  assumes "worker_step pid ttl s s'" "\<And>i. token_of (s_phase s' i) = token_of (s_phase s i)"
    "s_phase s' i = Serving tok"
  shows "s_phase s i = Serving tok"
proof -
  have "token_of (s_phase s i) = Some tok" using assms(2) [of i] assms(3) by simp
  with assms(1,3) show ?thesis by (cases rule: worker_step.cases) (auto split: if_splits)
qed

lemma counter_same: "counters rd = counters (s_redis s) \<Longrightarrow> counter pid (enter i ph rd s) = counter pid s"
  by (simp only: counter_enter) (simp add: counter_def counter_value_def)

lemma counter_step:
  assumes "worker_step pid ttl s s'" "fence_ok pid s"
  shows "counter pid s \<le> counter pid s'"
  using assms(1)
proof (cases rule: worker_step.cases)
  case (tick d)
  then show ?thesis by (simp add: counter_def)
next
  case (fenced i r tok rd)
  with Next_counter [OF fenced(3) assms(2), of i "Serving tok"] show ?thesis by simp
next
  case (unfenced i r rd r' b rd')
  with Next_counter [OF unfenced(3) assms(2)] show ?thesis by (simp add: counter_enter Release_value)
next
  case (abandon i r rd)
  with Next_counter [OF abandon(3) assms(2)] show ?thesis by simp
qed (auto simp: counter_same dest: ops_keep_counters)

text \<open>A step of one engine: its own label changes, the counter does not fall.\<close>

lemma meters_ok_upd:
  assumes ok: "meters_ok pid s m" and c: "counter pid s \<le> counter pid (enter i ph rd s)"
    and other: "\<And>j. j \<noteq> i \<Longrightarrow> AcquiredPartitions m' (label j pid) = AcquiredPartitions m (label j pid)
      \<and> LeaseLosses m' (label j pid) = LeaseLosses m (label j pid)
      \<and> LeaseAcquire m' (label j pid) = LeaseAcquire m (label j pid)"
    and own: "AcquiredPartitions m' (label i pid) = (if token_of ph = None then 0 else 1)"
      "LeaseLosses m' (label i pid) + (if \<exists>tok. ph = Serving tok then 1 else 0) \<le> LeaseAcquire m' (label i pid)"
      "int (LeaseAcquire m' (label i pid)) \<le> counter pid (enter i ph rd s)"
  shows "meters_ok pid (enter i ph rd s) m'"
  unfolding meters_ok_def
proof
  fix j
  show "AcquiredPartitions m' (label j pid) = (if token_of (s_phase (enter i ph rd s) j) = None then 0 else 1) \<and>
     LeaseLosses m' (label j pid) + (if \<exists>tok. s_phase (enter i ph rd s) j = Serving tok then 1 else 0)
       \<le> LeaseAcquire m' (label j pid) \<and> int (LeaseAcquire m' (label j pid)) \<le> counter pid (enter i ph rd s)"
  proof (cases "j = i")
    case True
    with own show ?thesis by simp
  next
    case False
    with other [OF False] ok c show ?thesis by (simp add: meters_ok_def) (metis order_trans)
  qed
qed

lemma meters_okD:
  assumes "meters_ok pid s m"
  shows "AcquiredPartitions m (label i pid) = (if token_of (s_phase s i) = None then 0 else 1)"
    "LeaseLosses m (label i pid) \<le> LeaseAcquire m (label i pid)"
    "s_phase s i = Serving tok \<Longrightarrow> Suc (LeaseLosses m (label i pid)) \<le> LeaseAcquire m (label i pid)"
    "int (LeaseAcquire m (label i pid)) \<le> counter pid s"
  using assms by (auto simp: meters_ok_def dest!: spec [of _ i] split: if_splits)

lemma meters_ok_acquired:
  assumes "meters_ok pid s m" "fence_ok pid s" "Next r (FencingKey pid) (s_redis s) = (Some tok, rd)"
  shows "meters_ok pid (enter i (Serving tok) rd s) (report_acquired i pid m)"
  using Next_counter [OF assms(3,2), of i "Serving tok"] meters_okD(2,4) [OF assms(1), of i]
  by (intro meters_ok_upd [OF assms(1)]) (auto simp: report_acquired_def)

lemma meters_ok_lost:
  assumes "meters_ok pid s m" "s_phase s i = Serving tok" "Renew r l now (s_redis s) = (res, rd)"
  shows "meters_ok pid (enter i (Leaving tok) rd s) (report_lost i pid m)"
  using meters_okD [OF assms(1), of i] assms(2) Renew_counters [OF assms(3)]
  by (intro meters_ok_upd [OF assms(1)]) (auto simp: report_lost_def counter_same)

lemma meters_ok_released:
  assumes "meters_ok pid s m" "Release r l now (s_redis s) = (b, rd)"
  shows "meters_ok pid (enter i Competing rd s) (report_released i pid m)"
  using meters_okD(2,4) [OF assms(1), of i] Release_counters [OF assms(2)]
  by (intro meters_ok_upd [OF assms(1)]) (auto simp: report_released_def counter_same)

lemma meters_ok_step:
  assumes "metered_step pid ttl (s, m) (s', m')" "meters_ok pid s m" "fence_ok pid s"
  shows "meters_ok pid s' m'"
  using assms(1)
proof (rule metered_stepE)
  assume 4: "m' = m" "worker_step pid ttl s s'" "\<And>i. token_of (s_phase s' i) = token_of (s_phase s i)"
  show ?thesis
    unfolding 4(1) using meters_ok_counter [OF assms(2) counter_step [OF 4(2) assms(3)] 4(3)] quiet_serving [OF 4(2,3)]
    by blast
qed (use assms(2,3) in \<open>auto intro: meters_ok_acquired meters_ok_lost meters_ok_released\<close>)

lemma metered_ok: "metered pid ttl c \<Longrightarrow> meters_ok pid (fst c) (snd c)"
proof (induction rule: metered.induct)
  case (step c c')
  then show ?case
    using running_fence_ok [OF metered_running [OF step(1)]] by (cases c; cases c') (auto intro: meters_ok_step)
qed (simp add: meters_ok_start)

section \<open>Properties\<close>



end
