(* ===== verification/Service_Logging.thy ===== *)
theory Service_Logging
  imports Service_Health
begin

text \<open>
  The structured log (\<^verbatim>\<open>pkg/logging/logging.go\<close>) on the part of \<^verbatim>\<open>log/slog\<close> it uses: a logger is the level
  and the attributes of its JSON handler; a record is one line of the writer. The time of a record is left
  out. An argument list is turned into attributes as \<^verbatim>\<open>slog\<close> does it, a key without a value and a value
  without a key included.
\<close>

section \<open>slog\<close>

datatype arg = AStr string | AInt int | AUint "64 word" | ABool bool | ANil

type_synonym attr = "string \<times> arg"

fun argsToAttrs :: "arg list \<Rightarrow> attr list" where
  "argsToAttrs [] = []"
| "argsToAttrs [AStr k] = [(''!BADKEY'', AStr k)]"
| "argsToAttrs (AStr k # v # args) = (k, v) # argsToAttrs args"
| "argsToAttrs (v # args) = (''!BADKEY'', v) # argsToAttrs args"

record LogRecord =
  R_level :: int
  R_msg :: string
  R_attrs :: "attr list"

record Logger =
  Lg_level :: int
  Lg_attrs :: "attr list"

definition LevelDebug :: int where "LevelDebug = -4"
definition LevelInfo :: int where "LevelInfo = 0"
definition LevelWarn :: int where "LevelWarn = 4"
definition LevelError :: int where "LevelError = 8"

text \<open>The handler drops an attribute with neither key nor value.\<close>

definition shown :: "attr list \<Rightarrow> attr list" where
  "shown attrs = filter (\<lambda>a. a \<noteq> ([], ANil)) attrs"

definition log_at :: "int \<Rightarrow> string \<Rightarrow> arg list \<Rightarrow> Logger \<Rightarrow> LogRecord list" where
  "log_at level msg args l =
     (if Lg_level l \<le> level
      then [\<lparr>R_level = level, R_msg = msg, R_attrs = shown (Lg_attrs l @ argsToAttrs args)\<rparr>] else [])"

section \<open>Loggers\<close>

definition log_With :: "arg list \<Rightarrow> Logger \<Rightarrow> Logger" where
  "log_With args l = l\<lparr>Lg_attrs := Lg_attrs l @ argsToAttrs args\<rparr>"

definition log_New :: "string \<Rightarrow> int \<Rightarrow> string option \<Rightarrow> int \<Rightarrow> Logger" where
  "log_New given level host pid =
     log_With [AStr ''instanceId'', AStr (instanceID given host pid)] \<lparr>Lg_level = level, Lg_attrs = []\<rparr>"

definition log_Debug :: "string \<Rightarrow> arg list \<Rightarrow> Logger \<Rightarrow> LogRecord list" where
  "log_Debug msg args l = log_at LevelDebug msg args l"

definition log_Info :: "string \<Rightarrow> arg list \<Rightarrow> Logger \<Rightarrow> LogRecord list" where
  "log_Info msg args l = log_at LevelInfo msg args l"

definition log_Warn :: "string \<Rightarrow> arg list \<Rightarrow> Logger \<Rightarrow> LogRecord list" where
  "log_Warn msg args l = log_at LevelWarn msg args l"

text \<open>The error, \<open>ANil\<close> or its text, goes to the end of the attributes.\<close>

definition log_Error :: "string \<Rightarrow> arg \<Rightarrow> arg list \<Rightarrow> Logger \<Rightarrow> LogRecord list" where
  "log_Error msg err args l = log_at LevelError msg (args @ [AStr ''error'', err]) l"

definition log_InfoContext :: "string \<Rightarrow> arg list \<Rightarrow> Logger \<Rightarrow> LogRecord list" where
  "log_InfoContext msg args l = log_at LevelInfo msg args l"

lemmas log_defs = log_Debug_def log_Info_def log_Warn_def log_Error_def log_InfoContext_def log_at_def

section \<open>The instance of a record\<close>

text \<open>The loggers a process has: the one it makes, and those derived from it.\<close>

inductive derived :: "Logger \<Rightarrow> Logger \<Rightarrow> bool" for l where
  self: "derived l l"
| child: "derived l l' \<Longrightarrow> derived l (log_With args l')"

definition names_instance :: "string \<Rightarrow> LogRecord \<Rightarrow> bool" where
  "names_instance i r \<longleftrightarrow> (\<exists>attrs. R_attrs r = (''instanceId'', AStr i) # attrs)"

lemma derived_attrs: "derived l l' \<Longrightarrow> Lg_level l' = Lg_level l \<and> (\<exists>attrs. Lg_attrs l' = Lg_attrs l @ attrs)"
  by (induction rule: derived.induct) (auto simp: log_With_def)

lemma log_at_instance:
  "Lg_attrs l = (''instanceId'', AStr i) # attrs \<Longrightarrow> r \<in> set (log_at level msg args l) \<Longrightarrow> names_instance i r"
  by (auto simp: log_at_def names_instance_def shown_def split: if_splits)

lemma derived_log:
  assumes "derived (log_New given level host pid) l" "r \<in> set (log_at lv msg args l)"
  shows "names_instance (instanceID given host pid) r \<and> level \<le> lv \<and> R_level r = lv \<and> R_msg r = msg"
proof -
  obtain attrs where l: "Lg_level l = level" "Lg_attrs l = (''instanceId'', AStr (instanceID given host pid)) # attrs"
    using derived_attrs [OF assms(1)] by (auto simp: log_New_def log_With_def)
  from log_at_instance [OF l(2) assms(2)] assms(2) l(1) show ?thesis by (auto simp: log_at_def split: if_splits)
qed

text \<open>With keys and values in pairs the attributes are those pairs, and \<^verbatim>\<open>Error\<close> adds the error behind them.\<close>

definition pairs :: "attr list \<Rightarrow> arg list" where
  "pairs attrs = concat (map (\<lambda>(k, v). [AStr k, v]) attrs)"

lemma argsToAttrs_pairs: "argsToAttrs (pairs attrs) = attrs"
  by (induction attrs) (auto simp: pairs_def)

lemma argsToAttrs_pairs_append: "argsToAttrs (pairs attrs @ args) = attrs @ argsToAttrs args"
  by (induction attrs) (auto simp: pairs_def)

lemma log_Error_attrs:
  assumes "Lg_level l \<le> LevelError"
  shows "\<exists>r. log_Error msg err (pairs attrs) l = [r] \<and> last (R_attrs r) = (''error'', err)"
  using assms by (simp add: log_defs shown_def argsToAttrs_pairs_append)

text \<open>
  A key without a value shifts what follows: the text \<^verbatim>\<open>error\<close> becomes the value of that key, and the error
  itself is filed under \<^verbatim>\<open>!BADKEY\<close>.
\<close>

lemma log_Error_dangling:
  "argsToAttrs (pairs attrs @ [AStr k] @ [AStr ''error'', AStr err]) = attrs @ [(k, AStr ''error''), (''!BADKEY'', AStr err)]"
  by (simp add: argsToAttrs_pairs_append)

end
