(* ===== verification/Engine_Telemetry.thy ===== *)
theory Engine_Telemetry
  imports Service_Logging Engine_Failover
begin

text \<open>
  The engine with its telemetry: the handlers of \<open>Engine_Handlers\<close> and \<open>Engine_Dispatch\<close> once more, with the log
  records they write (\<^verbatim>\<open>logEvent\<close>) and the latencies they observe. Each definition repeats the one it
  instruments and adds what the code does to the log and to the histograms at that place; the erasure lemmas
  show that nothing else differs. The plain lines of the package \<^verbatim>\<open>log\<close> are left out.

  A histogram is the list of the durations observed, in nanoseconds; the buckets are those of the metrics
  library. What the clock says the work took is an argument.
\<close>

section \<open>Definitions\<close>

record Telemetry =
  T_logger :: "Logger option"
  T_lines :: "LogRecord list"
  OrderLatency :: "int list"
  MatchingLatency :: "int list"
  ReplayLatency :: "int list"

record Took =
  K_order :: int
  K_matching :: int

text \<open>The telemetry of \<^verbatim>\<open>newEngine\<close>: a logger of its own, no observation.\<close>

definition newTelemetry :: "string option \<Rightarrow> int \<Rightarrow> Telemetry" where
  "newTelemetry host pid = \<lparr>T_logger = Some (log_New [] LevelInfo host pid), T_lines = [], OrderLatency = [],
     MatchingLatency = [], ReplayLatency = []\<rparr>"

definition SetLogger :: "Logger option \<Rightarrow> Telemetry \<Rightarrow> Telemetry" where
  "SetLogger l t = (case l of None \<Rightarrow> t | Some lg \<Rightarrow> t\<lparr>T_logger := Some lg\<rparr>)"

definition logEvent :: "string \<Rightarrow> arg list \<Rightarrow> Telemetry \<Rightarrow> Telemetry" where
  "logEvent event attrs t =
     (case T_logger t of None \<Rightarrow> t | Some l \<Rightarrow> t\<lparr>T_lines := T_lines t @ log_Info event attrs l\<rparr>)"

subsection \<open>Orders\<close>

definition trade_record :: "int \<Rightarrow> Trade \<Rightarrow> arg list" where
  "trade_record pid trade =
     [AStr ''tradeId'', AStr (Trd_ID trade), AStr ''eventId'', AStr (Trd_EventID trade),
      AStr ''orderId'', AStr (Trd_OrderID trade), AStr ''matchOrderId'', AStr (Trd_MatchOrderID trade),
      AStr ''partitionId'', AInt pid, AStr ''quantity'', AInt (Trd_Quantity trade), AStr ''price'', AInt (Trd_Price trade)]"

definition order_record :: "int \<Rightarrow> string \<Rightarrow> string \<Rightarrow> arg list" where
  "order_record pid oid ev =
     [AStr ''orderId'', AStr oid, AStr ''eventId'', AStr ev, AStr ''partitionId'', AInt pid]"

fun publishTradesT ::
  "(nat \<Rightarrow> EmitIO) \<Rightarrow> int \<Rightarrow> nat \<Rightarrow> Trade list \<Rightarrow> Engine \<Rightarrow> Telemetry \<Rightarrow> (Engine \<times> Telemetry) option" where
  "publishTradesT ios pid k [] e t = Some (e, t)"
| "publishTradesT ios pid k (trade # trades) e t =
     (let e1 = e\<lparr>metrics := (metrics e)\<lparr>TradesExecuted := TradesExecuted (metrics e) + 1\<rparr>\<rparr>;
          t1 = logEvent ''trade_executed'' (trade_record pid trade) t
      in case publishTrade (ios k) pid trade e1 of
           None \<Rightarrow> None
         | Some (ok, e2) \<Rightarrow> publishTradesT ios pid (Suc k) trades e2 t1)"

definition matchOrderT ::
  "HandlerIO \<Rightarrow> string \<Rightarrow> int \<Rightarrow> Engine \<Rightarrow> Telemetry \<Rightarrow> (Trade list \<times> Engine \<times> Telemetry) option" where
  "matchOrderT io i pid e t =
     (let (trades, e1) = matchOrder_locked (H_tids io) (H_nows io) i e;
          order = deref (orders e1) i
      in if isReplaying pid e1 then Some (trades, e1, t)
         else
           (let (e2, t2) = (if Ord_Status order = StatusFilled
                 then (e1\<lparr>metrics := (metrics e1)\<lparr>OrdersFilled := OrdersFilled (metrics e1) + 1\<rparr>\<rparr>,
                       logEvent ''order_filled'' (order_record pid (Ord_ID order) (Ord_EventID order)) t)
                 else (e1, t))
            in case publishTradesT (H_trade io) pid 0 trades e2 t2 of
                 None \<Rightarrow> None
               | Some (e3, t3) \<Rightarrow> Some (trades, e3, t3)))"

definition announceOrderT ::
  "HandlerIO \<Rightarrow> Took \<Rightarrow> int \<Rightarrow> Order \<Rightarrow> Engine \<Rightarrow> Telemetry \<Rightarrow> (EngineResponse \<times> Engine \<times> Telemetry) option" where
  "announceOrderT io took pid ord e t =
     (case marshalOrder ord of
        None \<Rightarrow> Some (failure ''failed to serialize order'', dropOrder (Ord_ID ord) e, t)
      | Some orderData \<Rightarrow>
          (case emitEventP (H_emit io) pid EventOrderCreated orderData False e of
             None \<Rightarrow> None
           | Some (False, e1) \<Rightarrow>
               Some (failure ''failed to stream order creation'', dropOrder (Ord_ID ord) e1, t)
           | Some (True, e1) \<Rightarrow>
               (case matchOrderT io (Ord_ID ord) pid e1 t of
                  None \<Rightarrow> None
                | Some (trades, e2, t2) \<Rightarrow>
                    Some (successJSON (Some (orderReply (deref (orders e2) (Ord_ID ord)))),
                      e2\<lparr>metrics := (metrics e2)
                           \<lparr>OrdersProcessed := OrdersProcessed (metrics e2) + 1\<rparr>\<rparr>,
                      t2\<lparr>MatchingLatency := MatchingLatency t2 @ [K_matching took]\<rparr>))))"

definition handleCreateOrderCoreT ::
  "HandlerIO \<Rightarrow> Took \<Rightarrow> int \<Rightarrow> Json \<Rightarrow> Engine \<Rightarrow> Telemetry \<Rightarrow> (EngineResponse \<times> Engine \<times> Telemetry) option" where
  "handleCreateOrderCoreT io took pid payload e t =
     (case decodeRequest order_fields payload of
        None \<Rightarrow> Some (failure ''invalid payload'', e, t)
      | Some req \<Rightarrow>
          if Req_Quantity req \<le> 0
          then Some (failure ''quantity must be greater than zero'', e, t)
          else
            (let oid = (if Req_OrderID req = [] then H_uuid io else Req_OrderID req);
                 order = requestOrder oid (H_now io) req
             in case validateOrder order of
                  Some msg \<Rightarrow> Some (failure msg, e, t)
                | None \<Rightarrow>
                    (case admit_locked order e of
                       (Duplicate existing, e1) \<Rightarrow>
                         Some (successJSON (Some
                           (statusReply (Ord_ID existing) (Ord_Status existing))), e1, t)
                     | (NoEvent, e1) \<Rightarrow> Some (failure ErrEventNotFound, e1, t)
                     | (NoFunds err, e1) \<Rightarrow> Some (failure (reserve_message err), e1, t)
                     | (Admitted ord, e1) \<Rightarrow> announceOrderT io took pid ord e1 t)))"

text \<open>
  The two fields of the payload that go into the log. The error of \<^verbatim>\<open>json.Unmarshal\<close> is ignored: a member of
  another type leaves its field alone and the decoding goes on.
\<close>

definition meta_member :: "string \<times> Json \<Rightarrow> string \<times> string \<Rightarrow> string \<times> string" where
  "meta_member kv meta =
     (let (k, v) = kv; (oid, ev) = meta
      in if eq_fold k ''orderId'' then (case dec_string v oid of None \<Rightarrow> meta | Some x \<Rightarrow> (x, ev))
         else if eq_fold k ''eventId'' then (case dec_string v ev of None \<Rightarrow> meta | Some x \<Rightarrow> (oid, x))
         else meta)"

definition order_meta :: "Json \<Rightarrow> string \<times> string" where
  "order_meta payload = (case payload of JObj kvs \<Rightarrow> fold meta_member kvs ([], []) | _ \<Rightarrow> ([], []))"

definition handleCreateOrderPT ::
  "HandlerIO \<Rightarrow> Took \<Rightarrow> int \<Rightarrow> Json \<Rightarrow> Engine \<Rightarrow> Telemetry \<Rightarrow> (EngineResponse \<times> Engine \<times> Telemetry) option" where
  "handleCreateOrderPT io took pid payload e t =
     (case handleCreateOrderCoreT io took pid payload e t of
        None \<Rightarrow> None
      | Some (resp, e1, t1) \<Rightarrow>
          (let (e2, t2) =
             (if isReplaying pid e1 then (e1, t1)
              else (if Res_Success resp
                    then e1\<lparr>metrics := (metrics e1)\<lparr>OrdersAccepted := OrdersAccepted (metrics e1) + 1\<rparr>\<rparr>
                    else e1\<lparr>metrics := (metrics e1)\<lparr>OrdersRejected := OrdersRejected (metrics e1) + 1\<rparr>\<rparr>,
                    t1\<lparr>OrderLatency := OrderLatency t1 @ [K_order took]\<rparr>));
               (oid, ev) = order_meta payload
           in Some (resp, e2,
                if Res_Success resp then logEvent ''order_accepted'' (order_record pid oid ev) t2
                else logEvent ''order_rejected''
                       (order_record pid oid ev @ [AStr ''reason'', AStr (Res_Error resp)]) t2)))"

definition handleCancelOrderPT ::
  "HandlerIO \<Rightarrow> int \<Rightarrow> Json \<Rightarrow> Engine \<Rightarrow> Telemetry \<Rightarrow> (EngineResponse \<times> Engine \<times> Telemetry) option" where
  "handleCancelOrderPT io pid payload e t =
     (case decodeRequest [''orderId'', ''eventId''] payload of
        None \<Rightarrow> Some (failure ''invalid payload'', e, t)
      | Some req \<Rightarrow>
          if Req_OrderID req = [] then Some (failure ''orderId is required'', e, t)
          else
            (case cancel_locked (Req_OrderID req) (Req_EventID req) e of
               None \<Rightarrow> None
             | Some (Inl msg) \<Rightarrow> Some (failure msg, e, t)
             | Some (Inr e1) \<Rightarrow>
                 (let order = deref (orders e1) (Req_OrderID req);
                      e2 = (if isReplaying pid e1 then e1
                            else e1\<lparr>metrics := (metrics e1)
                                      \<lparr>OrdersCanceled := OrdersCanceled (metrics e1) + 1\<rparr>\<rparr>);
                      t2 = logEvent ''order_canceled'' (order_record pid (Ord_ID order) (Ord_EventID order)) t
                  in case emitEventP (H_emit io) pid EventOrderCanceled
                            (JObj [(''orderId'', JStr (Ord_ID order))]) False e2 of
                       None \<Rightarrow> None
                     | Some (ok, e3) \<Rightarrow>
                         Some (successJSON (Some (statusReply (Ord_ID order) StatusCanceled)), e3, t2))))"

subsection \<open>Commands\<close>

definition handleMessageT ::
  "HandlerIO \<Rightarrow> Took \<Rightarrow> int \<Rightarrow> string \<Rightarrow> Json \<Rightarrow> Engine \<Rightarrow> Telemetry \<Rightarrow> (EngineResponse \<times> Engine \<times> Telemetry) option" where
  "handleMessageT io took pid typ payload e t =
     (if typ = CreateOrderCommand then handleCreateOrderPT io took pid payload e t
      else if typ = CancelOrderCommand then handleCancelOrderPT io pid payload e t
      else map_option (\<lambda>(resp, e'). (resp, e', t)) (handleMessage io pid typ payload e))"

definition command_record :: "int \<Rightarrow> CommandEnvelope \<Rightarrow> bool \<Rightarrow> arg list" where
  "command_record pid env success =
     [AStr ''type'', AStr (Cmd_Type env), AStr ''requestId'', AStr (Cmd_RequestID env),
      AStr ''commandId'', AStr (Cmd_CommandID env), AStr ''eventId'', AStr (Cmd_EventID env),
      AStr ''partitionId'', AInt pid, AStr ''sequence'', AUint (Cmd_Sequence env), AStr ''success'', ABool success]"

definition processStreamEntryT ::
  "HandlerIO \<Rightarrow> Took \<Rightarrow> int \<Rightarrow> StreamEntry \<Rightarrow> Engine \<Rightarrow> Telemetry \<Rightarrow>
     ((string \<times> Json) option \<times> Engine \<times> Telemetry) option" where
  "processStreamEntryT io took pid entry e t =
     (case SE_command entry of
        None \<Rightarrow> Some (None, e, t)
      | Some rawCommand \<Rightarrow>
          (case unmarshalCommand rawCommand of
             None \<Rightarrow> Some (None, e, t)
           | Some env \<Rightarrow>
               if Cmd_Type env = [] then Some (None, e, t)
               else
                 (case handleMessageT io took pid (Cmd_Type env) (Cmd_Payload env) e t of
                    None \<Rightarrow> None
                  | Some (response, e1, t1) \<Rightarrow>
                      (let t2 = logEvent ''command_handled'' (command_record pid env (Res_Success response)) t1
                       in if SE_clientId entry = [] then Some (None, e1, t2)
                          else
                            (let response' = (if Cmd_RequestID env \<noteq> []
                                   then response\<lparr>Res_RequestID := Cmd_RequestID env\<rparr> else response)
                             in Some (Some (SE_clientId entry, marshalResponse response'), e1, t2))))))"

fun processEntriesT ::
  "(nat \<Rightarrow> HandlerIO) \<Rightarrow> (nat \<Rightarrow> Took) \<Rightarrow> int \<Rightarrow> nat \<Rightarrow> StreamEntry list \<Rightarrow> Engine \<Rightarrow> Telemetry \<Rightarrow>
     ((string \<times> Json) list \<times> nat \<times> Engine \<times> Telemetry) option" where
  "processEntriesT ios took pid k [] e t = Some ([], k, e, t)"
| "processEntriesT ios took pid k (entry # entries) e t =
     (case processStreamEntryT (ios k) (took k) pid entry e t of
        None \<Rightarrow> None
      | Some (reply, e1, t1) \<Rightarrow>
          (case processEntriesT ios took pid (Suc k) entries e1 t1 of
             None \<Rightarrow> None
           | Some (replies, k', e2, t2) \<Rightarrow>
               Some ((case reply of None \<Rightarrow> [] | Some r \<Rightarrow> [r]) @ replies, k', e2, t2)))"

definition applyCommandT ::
  "HandlerIO \<Rightarrow> Took \<Rightarrow> int \<Rightarrow> CommandEnvelope \<Rightarrow> Engine \<Rightarrow> Telemetry \<Rightarrow> (Engine \<times> Telemetry) option" where
  "applyCommandT io took pid env e t =
     (if Cmd_Type env = [] then Some (e, t)
      else map_option snd (handleMessageT io took pid (Cmd_Type env) (Cmd_Payload env) e t))"

fun replayEntriesT ::
  "(nat \<Rightarrow> HandlerIO) \<Rightarrow> (nat \<Rightarrow> Took) \<Rightarrow> int \<Rightarrow> nat \<Rightarrow> StreamEntry list \<Rightarrow> Engine \<Rightarrow> Telemetry \<Rightarrow>
     (Engine \<times> Telemetry) option" where
  "replayEntriesT ios took pid k [] e t = Some (e, t)"
| "replayEntriesT ios took pid k (entry # entries) e t =
     (case (case SE_command entry of
              None \<Rightarrow> Some (e, t)
            | Some raw \<Rightarrow>
                (case unmarshalCommand raw of
                   None \<Rightarrow> Some (e, t)
                 | Some env \<Rightarrow> applyCommandT (ios k) (took k) pid env e t)) of
        None \<Rightarrow> None
      | Some (e1, t1) \<Rightarrow> replayEntriesT ios took pid (Suc k) entries e1 t1)"

text \<open>The clock is read twice at the end: \<open>observed\<close> for the histogram, \<open>elapsed\<close> for the record.\<close>

definition replayCommandLogT ::
  "(nat \<Rightarrow> HandlerIO) \<Rightarrow> (nat \<Rightarrow> Took) \<Rightarrow> int \<Rightarrow> int \<Rightarrow> int \<Rightarrow> StreamEntry list option \<Rightarrow> Engine \<Rightarrow> Telemetry \<Rightarrow>
     (bool \<times> Engine \<times> Telemetry) option" where
  "replayCommandLogT ios took observed elapsed pid entries e t =
     (if \<not> redisManager e then Some (True, e, t)
      else
        (case entries of
           None \<Rightarrow> Some (False, e, t)
         | Some es \<Rightarrow>
             (case replayEntriesT ios took pid 0 es (e\<lparr>replaying := (replaying e)(pid \<mapsto> True)\<rparr>)
                     (logEvent ''event_replay_start'' [AStr ''partitionId'', AInt pid] t) of
                None \<Rightarrow> None
              | Some (e1, t1) \<Rightarrow>
                  Some (True, e1\<lparr>replaying := (replaying e1)(pid := None)\<rparr>,
                    logEvent ''event_replay_complete''
                      [AStr ''partitionId'', AInt pid, AStr ''commands'', AInt (int (length es)),
                       AStr ''elapsedMs'', AInt (elapsed div 1000000)]
                      (t1\<lparr>ReplayLatency := ReplayLatency t1 @ [observed]\<rparr>)))))"

section \<open>Erasure\<close>

text \<open>Without the telemetry the handlers are those of the engine.\<close>

definition plain :: "('r \<times> Engine \<times> Telemetry) option \<Rightarrow> ('r \<times> Engine) option" where
  "plain = map_option (\<lambda>(r, e, t). (r, e))"

lemma plain_simps [simp]: "plain None = None" "plain (Some (r, e, t)) = Some (r, e)"
  by (simp_all add: plain_def)

lemma publishTradesT_erase: "map_option fst (publishTradesT ios pid k trades e t) = publishTrades ios pid k trades e"
  by (induction trades arbitrary: k e t) (auto simp: Let_def split: option.split)

lemma matchOrderT_erase: "plain (matchOrderT io i pid e t) = matchOrder io i pid e"
proof (cases "matchOrder_locked (H_tids io) (H_nows io) i e")
  case (Pair trades e1)
  have "publishTrades (H_trade io) pid 0 trades e2 = map_option fst (publishTradesT (H_trade io) pid 0 trades e2 t2)" for e2 t2
    by (simp add: publishTradesT_erase)
  note pub = this [of _ t] this [of _ "logEvent ''order_filled''
      (order_record pid (Ord_ID (deref (orders e1) i)) (Ord_EventID (deref (orders e1) i))) t"]
  show ?thesis
  proof (cases "Ord_Status (deref (orders e1) i) = StatusFilled")
    case True
    then show ?thesis unfolding matchOrder_def matchOrderT_def by (auto simp: Pair Let_def pub(2) split: option.split)
  next
    case False
    then show ?thesis unfolding matchOrder_def matchOrderT_def by (auto simp: Pair Let_def pub(1) split: option.split)
  qed
qed

lemma announceOrderT_erase: "plain (announceOrderT io took pid ord e t) = announceOrder io pid ord e"
  unfolding announceOrder_def matchOrderT_erase [where io = io and pid = pid and t = t, symmetric]
  by (auto simp: announceOrderT_def split: option.split bool.split)

lemma createCoreT_erase: "plain (handleCreateOrderCoreT io took pid payload e t) = handleCreateOrderCore io pid payload e"
  by (auto simp: handleCreateOrderCoreT_def handleCreateOrderCore_def announceOrderT_erase Let_def
      split: option.split prod.split admission.split)

lemma createT_erase: "plain (handleCreateOrderPT io took pid payload e t) = handleCreateOrderP io pid payload e"
  unfolding handleCreateOrderP_def createCoreT_erase [of io took pid payload e t, symmetric]
  by (auto simp: handleCreateOrderPT_def Let_def case_prod_unfold split: option.split)

lemma cancelT_erase: "plain (handleCancelOrderPT io pid payload e t) = handleCancelOrderP io pid payload e"
  by (auto simp: handleCancelOrderPT_def handleCancelOrderP_def Let_def split: option.split sum.split)

lemma plain_lift: "plain (map_option (\<lambda>(r, e). (r, e, t)) x) = x"
  by (cases x) auto

lemma handleMessageT_erase: "plain (handleMessageT io took pid ty payload e t) = handleMessage io pid ty payload e"
proof -
  consider "ty = CreateOrderCommand" | "ty = CancelOrderCommand" | "ty \<noteq> CreateOrderCommand" "ty \<noteq> CancelOrderCommand" by blast
  then show ?thesis
  proof cases
    case 1
    then show ?thesis by (simp add: handleMessageT_def handleMessage_def createT_erase)
  next
    case 2
    then show ?thesis by (simp add: handleMessageT_def handleMessage_def createT_erase cancelT_erase)
  qed (simp add: handleMessageT_def plain_lift)
qed

lemma processEntryT_erase: "plain (processStreamEntryT io took pid en e t) = processStreamEntry io pid en e"
  unfolding processStreamEntry_def handleMessageT_erase [where took = took and t = t, symmetric]
  by (auto simp: processStreamEntryT_def Let_def split: option.split)

lemma processEntriesT_erase:
  "map_option (\<lambda>(rs, k, e, t). (rs, k, e)) (processEntriesT ios took pid k ens e t) = processEntries ios pid k ens e"
proof (induction ens arbitrary: k e t)
  case (Cons en ens)
  have tail: "processEntries ios pid (Suc k) ens e1 =
      map_option (\<lambda>(rs, k, e, t). (rs, k, e)) (processEntriesT ios took pid (Suc k) ens e1 t1)" for e1 t1
    by (simp add: Cons.IH)
  show ?case
  proof (cases "processStreamEntryT (ios k) (took k) pid en e t")
    case None
    with processEntryT_erase [of "ios k" "took k" pid en e t] show ?thesis by simp
  next
    case (Some x)
    obtain reply e1 t1 where x: "x = (reply, e1, t1)" by (cases x)
    with Some processEntryT_erase [of "ios k" "took k" pid en e t]
    have p: "processStreamEntry (ios k) pid en e = Some (reply, e1)" by simp
    show ?thesis by (simp add: Some x p tail [of e1 t1]) (auto split: option.split)
  qed
qed simp

lemma applyCommandT_erase: "map_option fst (applyCommandT io took pid env e t) = applyCommand io pid env e"
  unfolding applyCommand_def handleMessageT_erase [where took = took and t = t, symmetric]
  by (auto simp: applyCommandT_def plain_def option.map_comp comp_def case_prod_unfold)

lemma replayEntriesT_erase: "map_option fst (replayEntriesT ios took pid k ens e t) = replayEntries ios pid k ens e"
proof (induction ens arbitrary: k e t)
  case (Cons en ens)
  show ?case
    unfolding replayEntries.simps applyCommandT_erase [where took = "took k" and t = t, symmetric]
    by (auto simp: Cons.IH split: option.split)
qed simp

lemma replayT_erase: "plain (replayCommandLogT ios took ob el pid ens e t) = replayCommandLog ios pid ens e"
  unfolding replayCommandLog_def
    replayEntriesT_erase [where took = took and t = "logEvent ''event_replay_start'' [AStr ''partitionId'', AInt pid] t", symmetric]
  by (auto simp: replayCommandLogT_def split: option.split)

section \<open>The log and the counters\<close>

definition logged :: "string \<Rightarrow> Telemetry \<Rightarrow> nat" where
  "logged msg t = length (filter (\<lambda>r. R_msg r = msg) (T_lines t))"

definition info_logger :: "Telemetry \<Rightarrow> bool" where
  "info_logger t \<longleftrightarrow> (\<exists>l. T_logger t = Some l \<and> Lg_level l \<le> LevelInfo)"

text \<open>The log has one record for each count, and each count of an order has its latency.\<close>

definition tallies :: "Engine \<Rightarrow> Telemetry \<Rightarrow> bool" where
  "tallies e t \<longleftrightarrow> info_logger t
     \<and> logged ''order_accepted'' t = OrdersAccepted (metrics e)
     \<and> logged ''order_rejected'' t = OrdersRejected (metrics e)
     \<and> logged ''order_canceled'' t = OrdersCanceled (metrics e)
     \<and> logged ''order_filled'' t = OrdersFilled (metrics e)
     \<and> logged ''trade_executed'' t = TradesExecuted (metrics e)
     \<and> length (OrderLatency t) = OrdersAccepted (metrics e) + OrdersRejected (metrics e)
     \<and> length (MatchingLatency t) = OrdersProcessed (metrics e)"

definition audited :: "int \<Rightarrow> Engine \<Rightarrow> Telemetry \<Rightarrow> bool" where
  "audited pid e t \<longleftrightarrow> tallies e t \<and> \<not> isReplaying pid e"

definition quietly :: "Engine \<Rightarrow> Engine \<Rightarrow> bool" where
  "quietly e e' \<longleftrightarrow> metrics e' = metrics e \<and> replaying e' = replaying e"

lemma logEvent_sel [simp]:
  "T_logger (logEvent ev args t) = T_logger t" "OrderLatency (logEvent ev args t) = OrderLatency t"
  "MatchingLatency (logEvent ev args t) = MatchingLatency t" "ReplayLatency (logEvent ev args t) = ReplayLatency t"
  by (simp_all add: logEvent_def split: option.split)

lemma info_logger_sel [simp]:
  "info_logger (logEvent ev args t) = info_logger t" "info_logger (t\<lparr>OrderLatency := x\<rparr>) = info_logger t"
  "info_logger (t\<lparr>MatchingLatency := x\<rparr>) = info_logger t" "info_logger (t\<lparr>ReplayLatency := x\<rparr>) = info_logger t"
  by (simp_all add: info_logger_def)

lemma logged_sel [simp]:
  "logged msg (t\<lparr>OrderLatency := x\<rparr>) = logged msg t" "logged msg (t\<lparr>MatchingLatency := x\<rparr>) = logged msg t"
  "logged msg (t\<lparr>ReplayLatency := x\<rparr>) = logged msg t"
  by (simp_all add: logged_def)

lemma logged_logEvent: "info_logger t \<Longrightarrow> logged msg (logEvent ev args t) = logged msg t + (if ev = msg then 1 else 0)"
  by (auto simp: logged_def logEvent_def info_logger_def log_defs)

lemma audited_quietly: "audited pid e t \<Longrightarrow> quietly e e' \<Longrightarrow> audited pid e' t"
  by (simp add: audited_def tallies_def quietly_def isReplaying_def)

lemma quietly_trans: "quietly e e' \<Longrightarrow> quietly e' e'' \<Longrightarrow> quietly e e''"
  by (simp add: quietly_def)

lemma quietly_emit: "emitEventP io pid ty d b e = Some (ok, e') \<Longrightarrow> quietly e e'"
  using emitEventP_frame [of io pid ty d b e ok e'] by (simp add: quietly_def same_setup_def same_core_def)

lemma quietly_publish: "publishTrade io pid trade e = Some (ok, e') \<Longrightarrow> quietly e e'"
  using quietly_emit by (auto simp: publishTrade_def quietly_def split: option.splits)

lemma quietly_match: "matchOrder_locked tids nows i e = (trades, e') \<Longrightarrow> quietly e e'"
  using match_metrics [of tids nows i e] match_outputs [of e tids nows i] by (simp add: quietly_def same_outputs_def)

lemma quietly_admit: "admit_locked ord e = (a, e') \<Longrightarrow> quietly e e'"
  by (cases "Ord_Side ord = SideBuy")
    (auto simp: admit_locked_def reserve_buy reserve_sell quietly_def split: option.splits if_splits)

lemma quietly_cancel: "cancel_locked i ev e = Some (Inr e') \<Longrightarrow> quietly e e'"
  using cancel_outputs [of i ev e e']
  by (auto simp: cancel_locked_def Let_def quietly_def same_outputs_def release_metrics split: option.splits if_splits)

lemma quietly_drop [simp]: "quietly e (dropOrder i e)"
  by (simp add: quietly_def dropOrder_def)

lemma quietly_control:
  "handleCreateEvent payload e = (resp, e') \<Longrightarrow> quietly e e'"
  "handleUserCreated payload e = (resp, e') \<Longrightarrow> quietly e e'"
  by (auto simp: handleCreateEvent_def handleUserCreated_def quietly_def split: option.splits if_splits)

text \<open>Each handler keeps the tallies of a partition that is not being replayed.\<close>

lemma audited_trades:
  "publishTradesT ios pid k trades e t = Some (e', t') \<Longrightarrow> audited pid e t \<Longrightarrow> audited pid e' t'"
proof (induction trades arbitrary: k e t)
  case (Cons trade trades)
  let ?e1 = "e\<lparr>metrics := (metrics e)\<lparr>TradesExecuted := TradesExecuted (metrics e) + 1\<rparr>\<rparr>"
  let ?t1 = "logEvent ''trade_executed'' (trade_record pid trade) t"
  have "audited pid ?e1 ?t1"
    using Cons.prems(2) by (simp add: audited_def tallies_def logged_logEvent isReplaying_def)
  moreover obtain ok e2 where "publishTrade (ios k) pid trade ?e1 = Some (ok, e2)"
    "publishTradesT ios pid (Suc k) trades e2 ?t1 = Some (e', t')"
    using Cons.prems(1) by (auto simp: Let_def split: option.splits)
  ultimately show ?case using Cons.IH quietly_publish audited_quietly by blast
qed simp

lemma audited_match:
  assumes "matchOrderT io i pid e t = Some (trades, e', t')" "audited pid e t"
  shows "audited pid e' t'"
proof -
  obtain ts e1 where m: "matchOrder_locked (H_tids io) (H_nows io) i e = (ts, e1)" by fastforce
  have a: "audited pid e1 t" using audited_quietly [OF assms(2) quietly_match [OF m]] .
  let ?o = "deref (orders e1) i"
  let ?e2 = "e1\<lparr>metrics := (metrics e1)\<lparr>OrdersFilled := OrdersFilled (metrics e1) + 1\<rparr>\<rparr>"
  let ?t2 = "logEvent ''order_filled'' (order_record pid (Ord_ID ?o) (Ord_EventID ?o)) t"
  have "audited pid ?e2 ?t2" using a by (simp add: audited_def tallies_def logged_logEvent isReplaying_def)
  with a assms(1) m show ?thesis
    by (auto simp: matchOrderT_def Let_def audited_def [of pid e1] split: option.splits if_splits intro: audited_trades)
qed

lemma audited_announce:
  assumes "announceOrderT io took pid ord e t = Some (resp, e', t')" "audited pid e t"
  shows "audited pid e' t'"
proof (cases "marshalOrder ord")
  case None
  with assms show ?thesis by (auto simp: announceOrderT_def intro: audited_quietly)
next
  case (Some d)
  with assms(1) obtain ok e1 where em: "emitEventP (H_emit io) pid EventOrderCreated d False e = Some (ok, e1)"
    by (auto simp: announceOrderT_def split: option.splits)
  have a: "audited pid e1 t" using audited_quietly [OF assms(2) quietly_emit [OF em]] .
  show ?thesis
  proof (cases ok)
    case True
    with assms(1) Some em obtain trades e2 t2 where m: "matchOrderT io (Ord_ID ord) pid e1 t = Some (trades, e2, t2)"
      and e': "e' = e2\<lparr>metrics := (metrics e2)\<lparr>OrdersProcessed := OrdersProcessed (metrics e2) + 1\<rparr>\<rparr>"
        "t' = t2\<lparr>MatchingLatency := MatchingLatency t2 @ [K_matching took]\<rparr>"
      by (auto simp: announceOrderT_def split: option.splits)
    from audited_match [OF m a] e' show ?thesis by (simp add: audited_def tallies_def isReplaying_def)
  next
    case False
    with assms(1) Some em a show ?thesis by (auto simp: announceOrderT_def intro: audited_quietly)
  qed
qed

lemma audited_create_core:
  assumes "handleCreateOrderCoreT io took pid payload e t = Some (resp, e', t')" "audited pid e t"
  shows "audited pid e' t'"
proof -
  have a: "audited pid e1 t" if "admit_locked ord e = (x, e1)" for ord x e1
    using audited_quietly [OF assms(2) quietly_admit [OF that]] .
  with assms audited_announce show ?thesis
    by (fastforce simp: handleCreateOrderCoreT_def Let_def split: option.splits if_splits prod.splits admission.splits)
qed

lemma audited_create:
  assumes "handleCreateOrderPT io took pid payload e t = Some (resp, e', t')" "audited pid e t"
  shows "audited pid e' t'"
proof -
  obtain r e1 t1 where c: "handleCreateOrderCoreT io took pid payload e t = Some (r, e1, t1)"
    using assms(1) by (auto simp: handleCreateOrderPT_def split: option.splits)
  from audited_create_core [OF c assms(2)] c assms(1) show ?thesis
    by (auto simp: handleCreateOrderPT_def Let_def case_prod_unfold audited_def tallies_def logged_logEvent isReplaying_def
        split: if_splits)
qed

lemma audited_cancel:
  assumes "handleCancelOrderPT io pid payload e t = Some (resp, e', t')" "audited pid e t"
  shows "audited pid e' t'"
proof -
  have "audited pid e3 (logEvent ''order_canceled'' (order_record pid oid ev) t)"
    if c: "cancel_locked i v e = Some (Inr e1)"
      and em: "emitEventP io' pid ty d b (if isReplaying pid e1 then e1
        else e1\<lparr>metrics := (metrics e1)\<lparr>OrdersCanceled := OrdersCanceled (metrics e1) + 1\<rparr>\<rparr>) = Some (ok, e3)"
    for i v e1 io' ty d b ok e3 oid ev
  proof -
    have "audited pid e1 t" using audited_quietly [OF assms(2) quietly_cancel [OF c]] .
    then have "audited pid (e1\<lparr>metrics := (metrics e1)\<lparr>OrdersCanceled := OrdersCanceled (metrics e1) + 1\<rparr>\<rparr>)
        (logEvent ''order_canceled'' (order_record pid oid ev) t)" "\<not> isReplaying pid e1"
      by (simp_all add: audited_def tallies_def logged_logEvent isReplaying_def)
    with em show ?thesis by (auto intro: audited_quietly quietly_emit)
  qed
  with assms show ?thesis
    by (auto simp: handleCancelOrderPT_def Let_def split: option.splits if_splits sum.splits)
qed

lemma audited_handleMessage:
  assumes "handleMessageT io took pid ty payload e t = Some (resp, e', t')" "audited pid e t"
  shows "audited pid e' t'"
proof -
  have "quietly e e1 \<and> t' = t \<and> e1 = e'" if "ty \<noteq> CreateOrderCommand" "ty \<noteq> CancelOrderCommand"
    "handleMessage io pid ty payload e = Some (r, e1)" "e1 = e'" "t' = t" for r e1
    using that quietly_control by (auto simp: handleMessage_def quietly_def split: if_splits)
  with assms show ?thesis
    by (auto simp: handleMessageT_def split: if_splits intro: audited_create audited_cancel audited_quietly)
qed

lemma audited_entry:
  assumes "processStreamEntryT io took pid en e t = Some (reply, e', t')" "audited pid e t"
  shows "audited pid e' t'"
proof -
  have "audited pid e1 (logEvent ''command_handled'' args t1)" if "audited pid e1 t1" for e1 t1 args
    using that by (simp add: audited_def tallies_def logged_logEvent)
  with assms audited_handleMessage show ?thesis
    by (fastforce simp: processStreamEntryT_def Let_def split: option.splits if_splits)
qed

lemma audited_entries:
  "processEntriesT ios took pid k ens e t = Some (replies, k', e', t') \<Longrightarrow> audited pid e t \<Longrightarrow> audited pid e' t'"
proof (induction ens arbitrary: k e t replies)
  case (Cons en ens)
  then obtain reply e1 t1 rs where "processStreamEntryT (ios k) (took k) pid en e t = Some (reply, e1, t1)"
    "processEntriesT ios took pid (Suc k) ens e1 t1 = Some (rs, k', e', t')"
    by (auto split: option.splits)
  with Cons.IH Cons.prems(2) audited_entry show ?case by blast
qed simp

lemma audited_start:
  assumes "metrics e = NewMetrics" "\<not> isReplaying pid e" "\<And>l. lg = Some l \<Longrightarrow> Lg_level l \<le> LevelInfo"
  shows "audited pid e (SetLogger lg (newTelemetry host p))"
  using assms by (auto simp: audited_def tallies_def NewMetrics_def newTelemetry_def SetLogger_def logged_def info_logger_def
      log_New_def log_With_def split: option.split)

section \<open>Replay\<close>

lemma isReplaying_sel [simp]:
  "isReplaying pid (e\<lparr>metrics := m\<rparr>) = isReplaying pid e" "isReplaying pid (dropOrder i e) = isReplaying pid e"
  "metrics (dropOrder i e) = metrics e"
  by (simp_all add: isReplaying_def dropOrder_def)

text \<open>A replay logs nothing of the matches and counts no order as accepted or rejected.\<close>

lemma core_replaying:
  assumes rp: "isReplaying pid e" and c: "handleCreateOrderCoreT io took pid payload e t = Some (resp, e', t')"
  shows "T_lines t' = T_lines t \<and> T_logger t' = T_logger t \<and> OrderLatency t' = OrderLatency t \<and> isReplaying pid e'
    \<and> OrdersAccepted (metrics e') = OrdersAccepted (metrics e) \<and> OrdersRejected (metrics e') = OrdersRejected (metrics e)"
proof -
  have q: "quietly a b \<Longrightarrow> isReplaying pid a \<Longrightarrow> isReplaying pid b \<and> metrics b = metrics a" for a b
    by (simp add: quietly_def isReplaying_def)
  have ann: "T_lines t2 = T_lines t \<and> T_logger t2 = T_logger t \<and> OrderLatency t2 = OrderLatency t \<and> isReplaying pid e2
    \<and> OrdersAccepted (metrics e2) = OrdersAccepted (metrics e) \<and> OrdersRejected (metrics e2) = OrdersRejected (metrics e)"
    if a: "announceOrderT io took pid ord e1 t = Some (r, e2, t2)" and e1: "isReplaying pid e1" "metrics e1 = metrics e"
    for ord e1 r e2 t2
  proof -
    obtain ts e3 where m: "matchOrder_locked (H_tids io) (H_nows io) (Ord_ID ord) e1 = (ts, e3)" by fastforce
    from q [OF quietly_match [OF m] e1(1)] a m e1 show ?thesis
      by (auto simp: announceOrderT_def emitEventP_replaying matchOrderT_def Let_def split: option.splits)
  qed
  have adm: "isReplaying pid e1 \<and> metrics e1 = metrics e" if "admit_locked ord e = (x, e1)" for ord x e1
    using q [OF quietly_admit [OF that] rp] .
  from c rp show ?thesis
    by (auto simp: handleCreateOrderCoreT_def Let_def split: option.splits if_splits prod.splits admission.splits
        dest!: adm dest: ann)
qed

lemma replayed_order_logged:
  assumes rp: "isReplaying pid e" and lg: "info_logger t"
    and h: "handleCreateOrderPT io took pid payload e t = Some (resp, e', t')"
  shows "logged (if Res_Success resp then ''order_accepted'' else ''order_rejected'') t' =
      Suc (logged (if Res_Success resp then ''order_accepted'' else ''order_rejected'') t)"
    "OrdersAccepted (metrics e') = OrdersAccepted (metrics e)" "OrdersRejected (metrics e') = OrdersRejected (metrics e)"
    "OrderLatency t' = OrderLatency t"
proof -
  obtain r e1 t1 where c: "handleCreateOrderCoreT io took pid payload e t = Some (r, e1, t1)"
    using h by (auto simp: handleCreateOrderPT_def split: option.splits)
  note C = core_replaying [OF rp c]
  then have "info_logger t1" "logged m t1 = logged m t" for m using lg by (simp_all add: info_logger_def logged_def)
  with C c h show "logged (if Res_Success resp then ''order_accepted'' else ''order_rejected'') t' =
      Suc (logged (if Res_Success resp then ''order_accepted'' else ''order_rejected'') t)"
    "OrdersAccepted (metrics e') = OrdersAccepted (metrics e)" "OrdersRejected (metrics e') = OrdersRejected (metrics e)"
    "OrderLatency t' = OrderLatency t"
    by (auto simp: handleCreateOrderPT_def Let_def case_prod_unfold logged_logEvent)
qed

section \<open>The instance behind a record\<close>

text \<open>The logger puts the instance in front, and every record written so far has it there.\<close>

definition signed :: "string \<Rightarrow> Telemetry \<Rightarrow> bool" where
  "signed i t \<longleftrightarrow> (\<exists>l attrs. T_logger t = Some l \<and> Lg_attrs l = (''instanceId'', AStr i) # attrs)
     \<and> (\<forall>r\<in>set (T_lines t). names_instance i r)"

lemma signed_logEvent [simp]: "signed i t \<Longrightarrow> signed i (logEvent ev args t)"
  by (auto simp: signed_def logEvent_def log_Info_def intro: log_at_instance)

lemma signed_observe [simp]:
  "signed i (t\<lparr>OrderLatency := x\<rparr>) = signed i t" "signed i (t\<lparr>MatchingLatency := x\<rparr>) = signed i t"
  "signed i (t\<lparr>ReplayLatency := x\<rparr>) = signed i t"
  by (simp_all add: signed_def)

lemma signed_trades: "publishTradesT ios pid k trades e t = Some (e', t') \<Longrightarrow> signed i t \<Longrightarrow> signed i t'"
  by (induction trades arbitrary: k e t) (auto simp: Let_def split: option.splits)

lemma signed_match: "matchOrderT io oid pid e t = Some (trades, e', t') \<Longrightarrow> signed i t \<Longrightarrow> signed i t'"
  by (auto simp: matchOrderT_def Let_def case_prod_unfold split: option.splits if_splits dest!: signed_trades [where i = i])

lemma signed_create: "handleCreateOrderPT io took pid payload e t = Some (resp, e', t') \<Longrightarrow> signed i t \<Longrightarrow> signed i t'"
  by (auto simp: handleCreateOrderPT_def handleCreateOrderCoreT_def announceOrderT_def Let_def case_prod_unfold
      split: option.splits if_splits admission.splits bool.splits dest!: signed_match [where i = i])

lemma signed_cancel: "handleCancelOrderPT io pid payload e t = Some (resp, e', t') \<Longrightarrow> signed i t \<Longrightarrow> signed i t'"
  by (auto simp: handleCancelOrderPT_def Let_def split: option.splits if_splits sum.splits)

lemma signed_handleMessage: "handleMessageT io took pid ty payload e t = Some (resp, e', t') \<Longrightarrow> signed i t \<Longrightarrow> signed i t'"
  by (auto simp: handleMessageT_def split: if_splits dest: signed_create signed_cancel)

lemma signed_entries:
  "processEntriesT ios took pid k ens e t = Some (replies, k', e', t') \<Longrightarrow> signed i t \<Longrightarrow> signed i t'"
proof (induction ens arbitrary: k e t replies)
  case (Cons en ens)
  then obtain reply e1 t1 rs where p: "processStreamEntryT (ios k) (took k) pid en e t = Some (reply, e1, t1)"
    "processEntriesT ios took pid (Suc k) ens e1 t1 = Some (rs, k', e', t')"
    by (auto split: option.splits)
  from p(1) Cons.prems(2) have "signed i t1"
    by (auto simp: processStreamEntryT_def Let_def split: option.splits if_splits dest!: signed_handleMessage [where i = i])
  with Cons.IH [OF p(2)] show ?case .
qed simp

lemma signed_start: "signed (instanceID given host p)
    (SetLogger (Some (log_New given LevelInfo host p)) (newTelemetry host p))"
  by (simp add: signed_def SetLogger_def newTelemetry_def log_New_def log_With_def)

section \<open>Properties\<close>

text \<open>
C32: The log, the counters and the latencies of a live engine tell one story. Over any sequence of stream entries
processed by an engine that starts with zero counters and a logger of the program, logging changes no
reply and no state; the log has exactly one record for each order counted as accepted, rejected, canceled or
filled and for each trade, an observed latency for each order, and a matching latency for each order
processed; and every record names the instance of the process first.
\<close>

theorem counters_match_log:
  assumes "metrics e = NewMetrics" "\<not> isReplaying pid e"
    and "t = SetLogger (Some (log_New given LevelInfo host p)) (newTelemetry host p)"
    and "processEntriesT ios took pid k entries e t = Some (replies, k', e', t')"
  shows "processEntries ios pid k entries e = Some (replies, k', e') \<and> tallies e' t'
    \<and> (\<forall>r\<in>set (T_lines t'). names_instance (instanceID given host p) r)"
proof (intro conjI)
  show "processEntries ios pid k entries e = Some (replies, k', e')"
    using processEntriesT_erase [of ios took pid k entries e t] assms(4) by simp
  have "audited pid e t" unfolding assms(3) by (rule audited_start) (use assms(1,2) in \<open>auto simp: log_New_def log_With_def\<close>)
  from audited_entries [OF assms(4) this] show "tallies e' t'" by (simp add: audited_def)
  from signed_entries [OF assms(4), of "instanceID given host p"] signed_start assms(3)
  show "\<forall>r\<in>set (T_lines t'). names_instance (instanceID given host p) r" by (simp add: signed_def)
qed

section \<open>Witnesses\<close>

text \<open>An engine of its own process gets an order without a quantity.\<close>

definition emptyOrder :: StreamEntry where
  "emptyOrder = \<lparr>SE_clientId = [], SE_command =
     Some (JObj [(''type'', JStr CreateOrderCommand), (''payload'', JObj [(''orderId'', JStr ''o1'')])])\<rparr>"

definition hostTelemetry :: Telemetry where
  "hostTelemetry = SetLogger (Some (log_New [] LevelInfo (Some ''host'') 7)) (newTelemetry (Some ''host'') 7)"

lemma emptyOrder_run:
  "\<exists>t'. processEntriesT (\<lambda>_. undefined) (\<lambda>_. \<lparr>K_order = 5, K_matching = 0\<rparr>) 0 0 [emptyOrder] freshEngine hostTelemetry
     = Some ([], 1, freshEngine\<lparr>metrics := (metrics freshEngine)\<lparr>OrdersRejected := 1\<rparr>\<rparr>, t')"
  by (simp add: emptyOrder_def processStreamEntryT_def unmarshalCommand_def set_Command_field_def zeroCommand_def eq_fold_eval
      handleMessageT_def handleCreateOrderPT_def handleCreateOrderCoreT_def decodeRequest_def set_Request_field_def
      zeroRequest_def order_fields_def predix_const freshEngine_def newEngine_def NewMetrics_def isReplaying_def failure_def
      case_prod_unfold Let_def)

theorem counters_match_log_witness:
  "\<exists>e' t'. processEntries (\<lambda>_. undefined) 0 0 [emptyOrder] freshEngine = Some ([], 1, e')
    \<and> tallies e' t' \<and> OrdersRejected (metrics e') = 1 \<and> logged ''order_rejected'' t' = 1"
proof -
  have f: "metrics freshEngine = NewMetrics" "\<not> isReplaying 0 freshEngine"
    by (simp_all add: freshEngine_def newEngine_def isReplaying_def)
  from emptyOrder_run obtain t' where "processEntriesT (\<lambda>_. undefined) (\<lambda>_. \<lparr>K_order = 5, K_matching = 0\<rparr>) 0 0
      [emptyOrder] freshEngine hostTelemetry
      = Some ([], 1, freshEngine\<lparr>metrics := (metrics freshEngine)\<lparr>OrdersRejected := 1\<rparr>\<rparr>, t')" by blast
  from counters_match_log [OF f hostTelemetry_def this] show ?thesis by (auto simp: tallies_def)
qed

end
