(* ===== verification/Db_Queries.thy ===== *)
theory Db_Queries
  imports Db_Settlement
begin

text \<open>
  The queries of \<^verbatim>\<open>internal/repository\<close> that no service calls yet: balances, positions, the orders of a user
  and the trades of an event, with what they see of the statements of the settlement.

  \<open>up\<close> tells whether the connection holds; \<open>None\<close> is an error, also that there is no row. \<open>scan\<close> is the
  order in which the database comes across the keys of a table, \<open>at\<close> the creation time of a trade, a
  column that only this query reads.
\<close>

section \<open>Definitions\<close>

definition GetUserBalance :: "bool \<Rightarrow> string \<Rightarrow> DB \<Rightarrow> int option" where
  "GetUserBalance up u db = (if up then db_users db u else None)"

definition GetPositionQ :: "bool \<Rightarrow> string \<Rightarrow> string \<Rightarrow> string \<Rightarrow> DB \<Rightarrow> PositionRow option" where
  "GetPositionQ up u ev oc db = (if up then db_positions db (u, ev, oc) else None)"

text \<open>\<open>DecreasePosition\<close> also returns the number of rows it changed.\<close>

definition DecreasePosition :: "string \<Rightarrow> string \<Rightarrow> string \<Rightarrow> Numeric \<Rightarrow> DB \<Rightarrow> db_error + nat \<times> DB" where
  "DecreasePosition u ev oc shares db =
     (case db_positions db (u, ev, oc) of
        None \<Rightarrow> Inr (0, db)
      | Some row \<Rightarrow>
          if PR_Shares row < column shares then Inr (0, db)
          else if \<not> fits (PR_Shares row - column shares) then Inl OtherViolation
          else Inr (1, db\<lparr>db_positions := (db_positions db)((u, ev, oc) \<mapsto>
                 row\<lparr>PR_Shares := PR_Shares row - column shares\<rparr>)\<rparr>))"

definition GetOrdersByUserAndEvent ::
  "bool \<Rightarrow> string list \<Rightarrow> string \<Rightarrow> string \<Rightarrow> DB \<Rightarrow> (string \<times> OrderRow) list option" where
  "GetOrdersByUserAndEvent up scan u ev db =
     (if up then
        Some (filter (\<lambda>(oid, row). OR_UserID row = u \<and> OR_EventID row = ev)
          (List.map_filter (\<lambda>oid. map_option (Pair oid) (db_orders db oid)) scan))
      else None)"

text \<open>The trades of an event, latest first, cut to a page; a negative limit or offset is an error.\<close>

definition event_trades :: "string list \<Rightarrow> (string \<Rightarrow> int) \<Rightarrow> string \<Rightarrow> DB \<Rightarrow> (string \<times> TradeRow) list" where
  "event_trades scan at ev db =
     sort_key (\<lambda>(tid, row). - at tid)
       (filter (\<lambda>(tid, row). TR_EventID row = ev)
          (List.map_filter (\<lambda>tid. map_option (Pair tid) (db_trades db tid)) scan))"

definition GetTradesByEvent ::
  "bool \<Rightarrow> string list \<Rightarrow> (string \<Rightarrow> int) \<Rightarrow> string \<Rightarrow> int \<Rightarrow> int \<Rightarrow> DB \<Rightarrow> (string \<times> TradeRow) list option" where
  "GetTradesByEvent up scan at ev limit offset db =
     (if \<not> up \<or> limit < 0 \<or> offset < 0 then None
      else Some (take (nat limit) (drop (nat offset) (event_trades scan at ev db))))"

section \<open>Lemmas\<close>

text \<open>A decrease takes exactly the shares, or nothing when there are not enough, and never leaves a negative count.\<close>

lemma DecreasePosition_effect:
  assumes "DecreasePosition u ev oc shares db = Inr (k, db')"
  shows "k = 1 \<longleftrightarrow> (\<exists>row. db_positions db (u, ev, oc) = Some row \<and> column shares \<le> PR_Shares row)"
    and "k \<noteq> 1 \<Longrightarrow> k = 0 \<and> db' = db"
    and "k = 1 \<Longrightarrow> \<exists>row. GetPositionQ True u ev oc db' = Some row \<and> 0 \<le> PR_Shares row"
  using assms by (auto simp: DecreasePosition_def GetPositionQ_def split: option.splits if_splits)

text \<open>What the settlement writes is what the queries read.\<close>

lemma UpsertPosition_read:
  assumes "UpsertPosition pg_div u ev oc shares price db = Inr db'"
  shows "GetPositionQ True u ev oc db' = Some (upsert_row pg_div (column shares) (column price) (GetPositionQ True u ev oc db))"
  using assms by (auto simp: UpsertPosition_def GetPositionQ_def Let_def split: if_splits)

lemma settled_balance:
  fixes t :: Trade
  assumes "db_users db (I_buyer ids) = Some b" "db_users db (I_seller ids) = Some s" "I_buyer ids \<noteq> I_seller ids"
  defines "a \<equiv> i64 (Trd_Quantity t * Trd_Price t) * 10 ^ 4"
  shows "GetUserBalance True (I_buyer ids) (settled pg_div ids t db) = Some (b - a)"
    and "GetUserBalance True (I_seller ids) (settled pg_div ids t db) = Some (s + a)"
  using assms by (auto simp: GetUserBalance_def settled_def change_def Let_def)

lemma set_scanned: "set (List.map_filter (\<lambda>k. map_option (Pair k) (m k)) scan) = {(k, v). k \<in> set scan \<and> m k = Some v}"
  by (induction scan) (auto split: option.splits)

lemma GetOrdersByUserAndEvent_set:
  assumes "set scan = dom (db_orders db)"
  shows "\<exists>rows. GetOrdersByUserAndEvent True scan u ev db = Some rows
    \<and> set rows = {(oid, row). db_orders db oid = Some row \<and> OR_UserID row = u \<and> OR_EventID row = ev}"
  using assms by (auto simp: GetOrdersByUserAndEvent_def set_scanned)

text \<open>Reading the pages one after the other gives every trade once, in order.\<close>

lemma pages:
  "concat (map (\<lambda>k. take n (drop (k * n) xs)) [0..<m]) = take (m * n) xs"
  by (induction m) (simp_all add: take_add [symmetric] add.commute)

lemma trade_pages:
  assumes "0 \<le> limit" and "length (event_trades scan at ev db) \<le> m * nat limit"
  shows "concat (map (\<lambda>k. the (GetTradesByEvent True scan at ev limit (int k * limit) db)) [0..<m]) = event_trades scan at ev db"
    and "sorted (map (\<lambda>(tid, row). - at tid) (event_trades scan at ev db))"
proof -
  have "nat (int k * limit) = k * nat limit" "\<not> int k * limit < 0" for k
    using assms(1) by (simp_all add: nat_mult_distrib not_less)
  then have "the (GetTradesByEvent True scan at ev limit (int k * limit) db)
      = take (nat limit) (drop (k * nat limit) (event_trades scan at ev db))" for k
    using assms(1) by (simp add: GetTradesByEvent_def)
  then show "concat (map (\<lambda>k. the (GetTradesByEvent True scan at ev limit (int k * limit) db)) [0..<m])
      = event_trades scan at ev db"
    using pages [of "nat limit" "event_trades scan at ev db" m] assms(2) by simp
  show "sorted (map (\<lambda>(tid, row). - at tid) (event_trades scan at ev db))"
    by (simp add: event_trades_def)
qed

end
