(* ===== verification/Spec2Isabelle.thy ===== *)
theory Spec2Isabelle
  imports Failover_Scenarios Concurrency_Scenarios Partition_Ownership System_Flow Api_Scenarios Service_Lifecycle Lease_Metrics
    Engine_Telemetry Db_Queries
begin

text \<open>
  Predix is a prediction market in four services. The HTTP API takes orders and writes commands to
  partitioned Redis streams; the matching engine (one owner per partition) executes the commands in
  memory and publishes events; the DB worker settles the events in Postgres; the WebSocket service
  shows them to subscribers. This development models the four services and the links between them,
  and proves what makes them correct together.

  \<^bold>\<open>Conventions.\<close> A Go \<^verbatim>\<open>int64\<close> is an \<^typ>\<open>int\<close> whose arithmetic is wrapped by \<open>i64\<close>; a \<^verbatim>\<open>uint64\<close> is a
  64-bit word. A \<^verbatim>\<open>*Order\<close> is its key in the map \<^verbatim>\<open>orders\<close>, since the books and the map share the
  objects. What the environment answers is an argument: UUIDs, clocks, the outcome of every Redis,
  Postgres and file operation (done, not done, done but not acknowledged), the order in which a map is
  visited. A panic is \<open>None\<close>. JSON texts are syntax trees. The code between a lock and its unlock is one
  definition.

  \<^bold>\<open>Theories, in the order of the data flow.\<close>
  \<^item> \<open>Predix_Prelude\<close>, \<open>Predix_Types\<close>, \<open>Predix_Json\<close>, \<open>Price_Scaling\<close>: arithmetic and list lemmas, the
    records of \<^verbatim>\<open>engine/types.go\<close>, the JSON codec, and the float64 conversion of prices.
  \<^item> \<open>Partition_Router\<close> (\<^verbatim>\<open>partition/router.go\<close>), \<open>Redis_Commands\<close> (\<^verbatim>\<open>pkg/redis/manager.go\<close>): routing by hash,
    command envelopes, appends with retry, fan-out, replies.
  \<^item> \<open>Api_Store\<close>, \<open>Api_Handlers\<close> (\<^verbatim>\<open>handler\<close>, \<^verbatim>\<open>middleware\<close>, \<^verbatim>\<open>router\<close>, \<^verbatim>\<open>dto\<close>, \<^verbatim>\<open>pkg/auth\<close> and the queries they
    use); \<open>Api_Properties\<close>: authentication, and that an order or a signup arrives at the engine as meant;
    \<open>Api_Scenarios\<close>: an installation on which these are exercised.
  \<^item> \<open>Engine_State\<close>, \<open>Order_Book\<close>, \<open>Ledger\<close>, \<open>Matching\<close>, \<open>Outbox\<close>, \<open>Engine_Handlers\<close>, \<open>Engine_Queries\<close>,
    \<open>Engine_Dispatch\<close>: the operations of \<^verbatim>\<open>internal/engine\<close>, one definition per function and critical
    section.
  \<^item> \<open>Matching_Spec\<close>: the greedy allocation the matching loop refines. \<open>Ledger_Invariant\<close>,
    \<open>Engine_Invariant\<close>: a sound ledger, covered reservations, consistent orders, sorted books of open
    orders. \<open>Engine_Safety\<close>: every command and every reachable state keep them. \<open>Matching_Properties\<close>:
    price-time priority, sound trades, exact quantities, exhaustion, bounded rounds. \<open>Engine_Behaviour\<close>:
    cancellation, duplicates, replay silence. \<open>Engine_Replay\<close>: replaying a log rebuilds the engine.
    \<open>Engine_Scenarios\<close> and \<open>Engine_Limits\<close>: concrete runs, and where the code departs from its intent.
  \<^item> \<open>Engine_Concurrency\<close>: the partition workers of one process as a step relation, one critical section, emit
    cycle or counter update at a time; the invariant and the ranges of all amounts in every interleaving,
    and that an uninterrupted handler is one of them. \<open>Event_Ordering\<close>: the stream announces an order before
    its trades. \<open>Projection_Order\<close>: the DB worker has the order rows when it reaches a trade.
    \<open>Concurrency_Scenarios\<close>: a run of the relation from a bid to its published trade and into the tables.
  \<^item> \<open>Engine_Failover\<close>, \<open>Failover_Scenarios\<close> (\<^verbatim>\<open>engine/worker.go\<close>): a tenure of a partition, with replay over
    the state the process has; commands of the time without an owner are executed but never reported, and
    a second replay may accept what was refused.
  \<^item> \<open>Partition_Lease\<close>, \<open>Partition_Ownership\<close> (\<^verbatim>\<open>partition/lease.go\<close>, \<^verbatim>\<open>fencing.go\<close>, \<^verbatim>\<open>engine/worker.go\<close>): the
    lease as a lock that lapses, the workers of all engines as a step relation, one accepted writer per
    partition, bounded failover, and the race between lease and token. \<open>Lease_Metrics\<close>: the same workers with
    their labelled metrics, and what the ownership gauge and the counters of acquisitions and losses mean.
  \<^item> \<open>Db_Tables\<close> (\<^verbatim>\<open>internal/repository\<close> and the migrations), \<open>Db_Worker\<close> (\<^verbatim>\<open>dbworker/worker.go\<close>),
    \<open>Db_Settlement\<close>: settlement is atomic, happens once, respects the fence and keeps the books. \<open>Db_Queries\<close>:
    the queries no service calls yet, on what the settlement writes.
  \<^item> \<open>Ws_Hub\<close> (\<^verbatim>\<open>internal/websocket\<close>), \<open>Ws_Delivery\<close>: hub, clients and pumps; consistency of the
    subscriptions, delivery of a broadcast, and the crash on a closed client.
  \<^item> \<open>Outbox_Journal\<close> (\<^verbatim>\<open>engine/outbox.go\<close>): the journal on the bytes of its file; it keeps exactly the list of
    pending envelopes that \<open>Outbox\<close> works with, as long as no write is torn, and what a torn write does.
  \<^item> \<open>Service_Config\<close> (\<^verbatim>\<open>pkg/config\<close>, \<^verbatim>\<open>cmd/engine\<close>), \<open>Service_Health\<close> (\<^verbatim>\<open>internal/observability\<close>, \<^verbatim>\<open>pkg/logging\<close>):
    the environment and its parsers, the start-up of an engine, which partitions it serves; the readiness
    probe and the instance identifiers. \<open>Service_Deployment\<close> (the other programs of \<^verbatim>\<open>cmd\<close>, the constructors,
    consumer groups and metrics registries): the services of one environment fit together, and a DB worker
    that stopped still reports ready. \<open>Service_Lifecycle\<close>: the four processes from the start of their goroutines to
    their exit, with time; three of them stop within ten seconds of a signal, the engine has no bound.
  \<^item> \<open>Service_Logging\<close> (\<^verbatim>\<open>pkg/logging\<close>): loggers and records. \<open>Engine_Telemetry\<close>: the handlers of the engine with the
    records and latencies they write; erasing these gives the handlers above, and in live operation the log,
    the counters and the latencies agree.
  \<^item> \<open>System_Flow\<close>: a matched trade reaches the database and the subscribers unchanged.

  \<^bold>\<open>Interfaces.\<close> The contracts the components rely on are locales, each interpreted on the
  model: the order of a book side and of the sorted answers (\<open>slice_order\<close>, a contract every \<open>ranked\<close>
  comparison meets, extended by \<open>keyed_order\<close> for price levels), the cash and share accounts of the ledger
  (\<open>escrow\<close>, extended by \<open>escrow_book\<close> to a whole book of accounts), the lock behind a partition lease
  (\<open>lapsing_lock\<close>), and the publish/subscribe table of the hub (\<open>pubsub\<close>).

  \<^bold>\<open>Bounds and fuel.\<close> No definition uses fuel: the matching loop and the stream loops are functions with
  termination proofs, over the entries or answers the environment gave. The invariant of the engine
  assumes that the cost of an order stays below \<open>2\<^sup>6\<^sup>3\<close> and that a market BUY can pay for what it
  matches; \<open>Engine_Limits\<close> shows what happens otherwise. Prices are exact below \<open>2\<^sup>4\<^sup>8\<close> units.

  \<^bold>\<open>Parameters.\<close> UUID parsing, bcrypt, JWT, the validator's format checks, the rounding of a numeric
  division and the visiting order of maps are function arguments; a property that relies on their
  documented behaviour says so in its assumptions.

  \<^bold>\<open>Not modelled.\<close> The lines of the standard \<^verbatim>\<open>log\<close> package, the time and JSON text of log records and the buckets of
  histograms are output. The HTTP servers and the WebSocket protocol are library code; timeouts and deadlines
  other than the lease and token lifetimes and the drain of a process are answers of the environment. The
  step relation of the partition workers takes a critical section, an emit cycle or a counter update as one
  step; the reads of an order outside the lock, between these steps, see one state. Engines are assumed to have distinct IDs,
  although the default ID is the same for all of them. In \<open>Outbox\<close> a write to the journal is whole or not
  at all; \<open>Outbox_Journal\<close> drops that assumption.
\<close>

end
